(* ===== verification/Prelude.thy ===== *)
theory Prelude
  imports Main
begin

text \<open>
  Shared material of the development: the names of the model's basic types, the collections of
  simplification rules the component theories extend, and generic lemmas on lists, options and
  decimal numerals that several components use.

  A JavaScript string is represented by its UTF-8 bytes (a \<^typ>\<open>char list\<close>, one \<^typ>\<open>char\<close> per
  byte; a lone surrogate is its three-byte generalised form). \<open>length\<close> therefore counts bytes;
  the source only asks whether a string is empty, or for lengths of strings it also restricts to
  ASCII, so both readings agree wherever the code looks. A \<open>Buffer\<close> or \<open>Uint8Array\<close> is the same
  type read as raw bytes.
\<close>

type_synonym byte = char
type_synonym bytes = "byte list"
type_synonym millis = int

named_theorems codec_simps \<open>round trips of the wire encodings\<close>
named_theorems table_simps \<open>reading a table after a statement wrote it\<close>
named_theorems step_invs \<open>invariants kept by one operation\<close>

subsection \<open>Decimal numerals\<close>

definition digit_char :: "nat \<Rightarrow> char" where
  "digit_char d = char_of (48 + d)"

definition digit_val :: "char \<Rightarrow> nat" where
  "digit_val c = of_char c - 48"

definition is_digit :: "char \<Rightarrow> bool" where
  "is_digit c \<longleftrightarrow> 48 \<le> (of_char c :: nat) \<and> (of_char c :: nat) \<le> 57"

fun show_nat :: "nat \<Rightarrow> string" where
  "show_nat n = (if n < 10 then [digit_char n] else show_nat (n div 10) @ [digit_char (n mod 10)])"

declare show_nat.simps [simp del]

definition show_int :: "int \<Rightarrow> string" where
  "show_int i = (if i < 0 then CHR ''-'' # show_nat (nat (- i)) else show_nat (nat i))"

definition read_nat :: "string \<Rightarrow> nat" where
  "read_nat s = foldl (\<lambda>n c. 10 * n + digit_val c) 0 s"

lemma of_char_char_of_small [simp]: "n < 256 \<Longrightarrow> (of_char (char_of n) :: nat) = n"
  by (simp add: of_char_of)

lemma digit_val_digit_char [simp]: "d < 10 \<Longrightarrow> digit_val (digit_char d) = d"
  by (simp add: digit_val_def digit_char_def)

lemma is_digit_digit_char [simp]: "d < 10 \<Longrightarrow> is_digit (digit_char d)"
  by (simp add: is_digit_def digit_char_def)

lemma read_nat_snoc [simp]: "read_nat (s @ [c]) = 10 * read_nat s + digit_val c"
  by (simp add: read_nat_def)

lemma read_nat_single [simp]: "read_nat [c] = digit_val c"
  by (simp add: read_nat_def)

lemma read_show_nat [simp, codec_simps]: "read_nat (show_nat n) = n"
proof (induction n rule: show_nat.induct)
  case (1 n)
  then show ?case
    by (subst show_nat.simps) auto
qed

lemma show_nat_digits [simp]: "list_all is_digit (show_nat n)"
proof (induction n rule: show_nat.induct)
  case (1 n)
  then show ?case
    by (subst show_nat.simps) auto
qed

lemma show_nat_nonempty [simp]: "show_nat n \<noteq> []"
  by (subst show_nat.simps) simp

lemma show_nat_inject [simp]: "show_nat m = show_nat n \<longleftrightarrow> m = n"
  by (metis read_show_nat)

subsection \<open>Finding the first row that satisfies a condition\<close>

lemma find_SomeD:
  assumes "List.find P xs = Some x"
  shows "x \<in> set xs" and "P x"
  using assms by (auto simp: find_Some_iff)

lemma find_distinct_key:
  assumes "distinct (map key xs)" and "x \<in> set xs" and "key x = k"
  shows "List.find (\<lambda>y. key y = k) xs = Some x"
  using assms by (induction xs) auto

lemma find_key_None: "List.find (\<lambda>y. key y = k) xs = None \<longleftrightarrow> k \<notin> set (map key xs)"
  by (induction xs) auto

lemma distinct_map_snoc:
  "distinct (map f (xs @ [x])) \<longleftrightarrow> distinct (map f xs) \<and> f x \<notin> set (map f xs)"
  by auto

subsection \<open>Splitting and joining\<close>

text \<open>\<open>s.split(c)\<close> for a single character, and \<open>items.join(sep)\<close>.\<close>

fun split_on :: "char \<Rightarrow> string \<Rightarrow> string list" where
  "split_on d [] = [[]]"
| "split_on d (c # s) =
     (if c = d then [] # split_on d s
      else (case split_on d s of [] \<Rightarrow> [[c]] | w # ws \<Rightarrow> (c # w) # ws))"

fun joined_with :: "string \<Rightarrow> string list \<Rightarrow> string" where
  "joined_with sep [] = []"
| "joined_with sep [x] = x"
| "joined_with sep (x # xs) = x @ sep @ joined_with sep xs"

lemma split_on_plain [simp]: "d \<notin> set s \<Longrightarrow> split_on d s = [s]"
  by (induction s) auto

lemma split_on_append: "d \<notin> set s \<Longrightarrow> split_on d (s @ d # t) = s # split_on d t"
  by (induction s) auto

lemma split_joined [codec_simps]: "xs \<noteq> [] \<Longrightarrow> \<forall>x \<in> set xs. d \<notin> set x \<Longrightarrow> split_on d (joined_with [d] xs) = xs"
  by (induction "[d]" xs rule: joined_with.induct) (auto simp: split_on_append)

subsection \<open>Results\<close>

text \<open>
  A computation that may throw returns a sum: \<open>Inl\<close> the exception, \<open>Inr\<close> the value. A loop whose
  body may throw stops at the first exception.
\<close>

fun map_result :: "('a \<Rightarrow> 'e + 'b) \<Rightarrow> 'a list \<Rightarrow> 'e + 'b list" where
  "map_result f [] = Inr []"
| "map_result f (x # xs) =
     (case f x of Inl e \<Rightarrow> Inl e
      | Inr y \<Rightarrow> (case map_result f xs of Inl e \<Rightarrow> Inl e | Inr ys \<Rightarrow> Inr (y # ys)))"

lemma result_caseE:
  assumes "(case x of Inl e \<Rightarrow> Inl e | Inr y \<Rightarrow> f y) = Inr z"
  obtains y where "x = Inr y" and "f y = Inr z"
  using assms by (cases x) auto

lemma map_result_Inr_iff: "map_result f xs = Inr ys \<longleftrightarrow> map f xs = map Inr ys"
proof (induction xs arbitrary: ys)
  case Nil
  then show ?case by auto
next
  case (Cons x xs)
  show ?case
  proof (cases ys)
    case Nil
    then show ?thesis by (simp split: sum.split)
  next
    case ys: (Cons y ys')
    have "map_result f (x # xs) = Inr ys \<longleftrightarrow> f x = Inr y \<and> map_result f xs = Inr ys'"
      by (auto simp: ys split: sum.splits)
    then show ?thesis by (simp add: Cons.IH ys)
  qed
qed

lemma map_result_length: "map_result f xs = Inr ys \<Longrightarrow> length ys = length xs"
  by (metis length_map map_result_Inr_iff)

lemma map_result_InlD: "map_result f xs = Inl e \<Longrightarrow> \<exists>x \<in> set xs. f x = Inl e"
  by (induction xs) (auto split: sum.splits)

text \<open>\<open>Promise.all\<close>: all values, or the rejection that came first in time. The promises settle in the order of the
  given indices; those it does not name settle after them, in the order of the list.\<close>

definition promise_all :: "nat list \<Rightarrow> ('e + 'a) list \<Rightarrow> 'e + 'a list" where
  "promise_all order ps =
     (case filter (\<lambda>i. i < length ps \<and> isl (ps ! i)) order of
        i # _ \<Rightarrow> Inl (projl (ps ! i))
      | [] \<Rightarrow> map_result id ps)"

lemma promise_all_Inr_iff: "promise_all order ps = Inr ys \<longleftrightarrow> ps = map Inr ys"
proof
  assume "promise_all order ps = Inr ys"
  then have "map_result id ps = Inr ys" by (auto simp: promise_all_def split: list.splits)
  then show "ps = map Inr ys" by (simp add: map_result_Inr_iff)
next
  assume ps: "ps = map Inr ys"
  then have "filter (\<lambda>i. i < length ps \<and> isl (ps ! i)) order = []" by (auto simp: filter_empty_conv)
  then show "promise_all order ps = Inr ys" by (simp add: promise_all_def map_result_Inr_iff ps)
qed

lemma promise_all_map_result: "promise_all order (map f xs) = Inr ys \<longleftrightarrow> map_result f xs = Inr ys"
  by (simp add: promise_all_Inr_iff map_result_Inr_iff)

lemma promise_all_ok: "list_all (\<lambda>p. \<not> isl p) ps \<Longrightarrow> promise_all order ps = Inr (map projr ps)"
  unfolding promise_all_Inr_iff by (rule nth_equalityI) (auto simp: list_all_length isl_def sum.case_eq_if)

lemma map_result_cong_Inr: "(\<And>x. x \<in> set xs \<Longrightarrow> f x = Inr (g x)) \<Longrightarrow> map_result f xs = Inr (map g xs)"
  by (induction xs) auto

end
