(* ===== verification/JsValue.thy ===== *)
theory JsValue
  imports Prelude
begin

text \<open>
  The JavaScript values the program handles at its edges: a parsed JSON body or header (type
  \<open>unknown\<close> in the source), property access, the \<open>typeof\<close> tests, and the string methods the
  source calls (\<open>startsWith\<close>, \<open>endsWith\<close>, \<open>slice\<close>, \<open>trim\<close>, removal of white space).

  A number keeps the text it was written with: no code path of the program reads the numeric value
  of a number that arrives in JSON, only that it is a number.
\<close>

datatype jsval =
    JUndefined
  | JNull
  | JBool bool
  | JNum string
  | JStr string
  | JArr "jsval list"
  | JObj "(string \<times> jsval) list"

text \<open>\<open>typeof v === 'object' && v !== null\<close>: arrays are objects too.\<close>

fun is_object :: "jsval \<Rightarrow> bool" where
  "is_object (JObj _) = True"
| "is_object (JArr _) = True"
| "is_object _ = False"

text \<open>Reading a property that is not there gives \<open>undefined\<close>.\<close>

fun get_prop :: "jsval \<Rightarrow> string \<Rightarrow> jsval" where
  "get_prop (JObj kvs) k = (case map_of kvs k of None \<Rightarrow> JUndefined | Some v \<Rightarrow> v)"
| "get_prop _ k = JUndefined"

text \<open>\<open>typeof v === 'string' && v.length > 0\<close>, with the string it then is.\<close>

fun nonempty_string :: "jsval \<Rightarrow> string option" where
  "nonempty_string (JStr s) = (if s = [] then None else Some s)"
| "nonempty_string _ = None"

lemma nonempty_string_Some [simp]: "nonempty_string v = Some s \<longleftrightarrow> v = JStr s \<and> s \<noteq> []"
  by (cases v) auto

text \<open>White space in the sense of \<open>String.prototype.trim\<close> and of \<open>\s\<close>, as UTF-8 byte sequences.\<close>

definition ws_seqs :: "string list" where
  "ws_seqs =
     [[CHR 0x09], [CHR 0x0A], [CHR 0x0B], [CHR 0x0C], [CHR 0x0D], [CHR 0x20],
      [CHR 0xC2, CHR 0xA0], [CHR 0xE1, CHR 0x9A, CHR 0x80],
      [CHR 0xE2, CHR 0x80, CHR 0x80], [CHR 0xE2, CHR 0x80, CHR 0x81],
      [CHR 0xE2, CHR 0x80, CHR 0x82], [CHR 0xE2, CHR 0x80, CHR 0x83],
      [CHR 0xE2, CHR 0x80, CHR 0x84], [CHR 0xE2, CHR 0x80, CHR 0x85],
      [CHR 0xE2, CHR 0x80, CHR 0x86], [CHR 0xE2, CHR 0x80, CHR 0x87],
      [CHR 0xE2, CHR 0x80, CHR 0x88], [CHR 0xE2, CHR 0x80, CHR 0x89],
      [CHR 0xE2, CHR 0x80, CHR 0x8A], [CHR 0xE2, CHR 0x80, CHR 0xA8],
      [CHR 0xE2, CHR 0x80, CHR 0xA9], [CHR 0xE2, CHR 0x80, CHR 0xAF],
      [CHR 0xE2, CHR 0x81, CHR 0x9F], [CHR 0xE3, CHR 0x80, CHR 0x80],
      [CHR 0xEF, CHR 0xBB, CHR 0xBF]]"

definition startsWith :: "string \<Rightarrow> string \<Rightarrow> bool" where
  "startsWith s p \<longleftrightarrow> take (length p) s = p"

definition endsWith :: "string \<Rightarrow> string \<Rightarrow> bool" where
  "endsWith s p \<longleftrightarrow> length p \<le> length s \<and> drop (length s - length p) s = p"

text \<open>The first of \<open>ps\<close> that \<open>s\<close> starts with.\<close>

definition match_prefix :: "string list \<Rightarrow> string \<Rightarrow> string option" where
  "match_prefix ps s = List.find (\<lambda>p. p \<noteq> [] \<and> startsWith s p) ps"

lemma match_prefix_shorter: "match_prefix ps s = Some p \<Longrightarrow> length (drop (length p) s) < length s"
  by (cases s) (auto simp: match_prefix_def startsWith_def find_Some_iff)

function strip_left :: "string list \<Rightarrow> string \<Rightarrow> string" where
  "strip_left ps s = (case match_prefix ps s of None \<Rightarrow> s | Some p \<Rightarrow> strip_left ps (drop (length p) s))"
  by pat_completeness auto
termination
  by (relation "measure (\<lambda>(ps, s). length s)") (auto dest: match_prefix_shorter)

declare strip_left.simps [simp del]

definition trim :: "string \<Rightarrow> string" where
  "trim s = rev (strip_left (map rev ws_seqs) (rev (strip_left ws_seqs s)))"

text \<open>\<open>s.replace(/\s+/g, '')\<close>\<close>

function remove_ws :: "string \<Rightarrow> string" where
  "remove_ws s =
     (case match_prefix ws_seqs s of
        Some p \<Rightarrow> remove_ws (drop (length p) s)
      | None \<Rightarrow> (case s of [] \<Rightarrow> [] | c # cs \<Rightarrow> c # remove_ws cs))"
  by pat_completeness auto
termination
  by (relation "measure length") (auto dest: match_prefix_shorter)

declare remove_ws.simps [simp del]

lemma startsWith_append [simp]: "startsWith (p @ s) p"
  by (simp add: startsWith_def)

lemma endsWith_append [simp]: "endsWith (s @ p) p"
  by (simp add: endsWith_def)

text \<open>A string that neither starts nor ends with white space is its own trimmed form.\<close>

lemma strip_left_id: "match_prefix ps s = None \<Longrightarrow> strip_left ps s = s"
  by (subst strip_left.simps) simp

lemma strip_left_no_prefix: "match_prefix ps (strip_left ps s) = None"
proof (induction ps s rule: strip_left.induct)
  case (1 ps s)
  then show ?case
    by (cases "match_prefix ps s") (simp_all add: strip_left.simps [of ps s])
qed

lemma trim_id:
  assumes "match_prefix ws_seqs s = None" and "match_prefix (map rev ws_seqs) (rev s) = None"
  shows "trim s = s"
  using assms by (simp add: trim_def strip_left_id)

lemma remove_ws_Nil [simp]: "remove_ws [] = []"
  by (simp add: remove_ws.simps match_prefix_def startsWith_def find_None_iff ws_seqs_def)

subsection \<open>Strings without white space\<close>

definition solid :: "char \<Rightarrow> bool" where
  "solid c \<longleftrightarrow> 33 \<le> (of_char c :: nat) \<and> (of_char c :: nat) \<le> 126"

lemma ws_seqs_not_solid: "p \<in> set ws_seqs \<Longrightarrow> p \<noteq> [] \<and> list_all (\<lambda>c. \<not> solid c) p"
  unfolding ws_seqs_def by (auto simp: solid_def)

lemma match_prefix_solid:
  assumes "solid c"
  shows "match_prefix ws_seqs (c # s) = None" and "match_prefix (map rev ws_seqs) (c # s) = None"
proof -
  have no: "\<not> startsWith (c # s) p" if "p \<noteq> []" "list_all (\<lambda>c. \<not> solid c) p" for p
    using assms that by (cases p) (auto simp: startsWith_def)
  show "match_prefix ws_seqs (c # s) = None"
    using ws_seqs_not_solid no by (auto simp: match_prefix_def find_None_iff)
  have "p \<in> set ws_seqs \<Longrightarrow> \<not> startsWith (c # s) (rev p)" for p
    using ws_seqs_not_solid no [of "rev p"] by (simp add: list_all_iff)
  then show "match_prefix (map rev ws_seqs) (c # s) = None"
    by (auto simp: match_prefix_def find_None_iff)
qed

lemma remove_ws_solid [simp]: "solid c \<Longrightarrow> remove_ws (c # s) = c # remove_ws s"
  by (subst remove_ws.simps) (simp add: match_prefix_solid)

lemma match_prefix_newline: "match_prefix ws_seqs (CHR 0x0A # s) = Some [CHR 0x0A]"
  by (simp add: match_prefix_def startsWith_def ws_seqs_def)

lemma remove_ws_newline [simp]: "remove_ws (CHR 0x0A # s) = remove_ws s"
  by (subst remove_ws.simps) (simp add: match_prefix_newline)

lemma remove_ws_append_solid: "list_all solid s \<Longrightarrow> remove_ws (s @ t) = s @ remove_ws t"
  by (induction s) auto

text \<open>A text that starts and ends with visible characters, plus a final newline, trims to itself.\<close>

lemma trim_text:
  assumes "solid a" and "solid b"
  shows "trim ((a # s @ [b]) @ [CHR 0x0A]) = a # s @ [b]"
proof -
  have "strip_left ws_seqs (a # s @ [b] @ [CHR 0x0A]) = a # s @ [b] @ [CHR 0x0A]"
    using assms by (simp add: strip_left_id match_prefix_solid)
  moreover have "match_prefix (map rev ws_seqs) (CHR 0x0A # b # rev s @ [a]) = Some [CHR 0x0A]"
    by (simp add: match_prefix_def startsWith_def ws_seqs_def)
  then have "strip_left (map rev ws_seqs) (CHR 0x0A # b # rev s @ [a]) = b # rev s @ [a]"
    using assms by (subst strip_left.simps) (simp add: strip_left_id match_prefix_solid)
  ultimately show ?thesis by (simp add: trim_def)
qed

end
