(* ===== verification/Runtime.thy ===== *)
theory Runtime
  imports JsValue
begin

text \<open>
  The parts of the JavaScript runtime whose behaviour its documentation leaves open, as parameters.
  Each function of the model that reaches one of them takes a \<^typ>\<open>'a \<Rightarrow> 'a\<close>-style argument \<open>rt\<close> of
  this record, so every theorem holds whatever a runtime does there:

    \<^item> \<open>loose_base64\<close>: \<open>Buffer.from(s, 'base64')\<close> on a string that is not base64 at all (invalid
      characters, misplaced padding);
    \<^item> \<open>loose_utf8\<close>: \<open>Buffer.toString('utf8')\<close> on bytes that are not UTF-8;
    \<^item> \<open>loose_date\<close>: \<open>Date.parse\<close> on a string that is not in the form \<open>toISOString\<close> writes
      (\<open>None\<close> is \<open>NaN\<close>);
    \<^item> \<open>loose_number\<close>: \<open>Number(s)\<close> on a string that is not a plain decimal numeral;
    \<^item> \<open>json_message\<close>: the message of the \<open>SyntaxError\<close> that \<open>JSON.parse\<close> throws on a text;
    \<^item> \<open>loose_succ\<close>: \<open>String(x + 1)\<close> of a number \<open>x\<close> that is not an integer below \<open>max_safe\<close>, from the text
      of \<open>x\<close>;
    \<^item> \<open>loose_buffer\<close>: \<open>Buffer.from(v, 'base64')\<close> of a value that is not a string;
    \<^item> \<open>loose_text\<close>: \<open>String(v)\<close> of a value that is not a string.
\<close>

datatype jsnumber =
    NaN
  | NonInteger string  \<comment> \<open>a fraction or an infinity, by the text \<open>String\<close> gives for it\<close>
  | Integer int

record runtime =
  loose_base64 :: "string \<Rightarrow> bytes"
  loose_utf8 :: "bytes \<Rightarrow> string"
  loose_date :: "string \<Rightarrow> millis option"
  loose_number :: "string \<Rightarrow> jsnumber"
  json_message :: "string \<Rightarrow> string"
  loose_succ :: "string \<Rightarrow> string"
  loose_buffer :: "jsval \<Rightarrow> string + bytes"
  loose_text :: "jsval \<Rightarrow> string"

text \<open>
  \<open>Number(s)\<close>. A string of decimal digits whose value a double holds exactly is that integer;
  everything else (signs, fractions, exponents, white space, hexadecimal) is \<open>loose_number\<close>.
\<close>

definition max_safe :: nat where
  "max_safe = 9007199254740991"

definition js_Number :: "runtime \<Rightarrow> string \<Rightarrow> jsnumber" where
  "js_Number rt s =
     (if s \<noteq> [] \<and> list_all is_digit s \<and> read_nat s \<le> max_safe then Integer (int (read_nat s))
      else loose_number rt s)"

lemma js_Number_show_nat [simp, codec_simps]:
  "n \<le> max_safe \<Longrightarrow> js_Number rt (show_nat n) = Integer (int n)"
  by (simp add: js_Number_def)

text \<open>What a program writes to standard output and to standard error, a line each.\<close>

datatype console = Log string | ErrorLog string

text \<open>A runtime that rejects everything outside the documented formats, for running the model.\<close>

definition strict_runtime :: runtime where
  "strict_runtime =
     \<lparr>loose_base64 = (\<lambda>_. []), loose_utf8 = (\<lambda>_. []), loose_date = (\<lambda>_. None),
      loose_number = (\<lambda>_. NaN), json_message = (\<lambda>_. ''Unexpected token''),
      loose_succ = (\<lambda>s. s), loose_buffer = (\<lambda>_. Inl ''TypeError''),
      loose_text = (\<lambda>_. [])\<rparr>"

end
