(* ===== verification/Base64.thy ===== *)
theory Base64
  imports Runtime
begin

text \<open>
  Base64 as the program uses it: \<open>Buffer.toString('base64')\<close> and \<open>('base64url')\<close>,
  \<open>Buffer.from(_, 'base64')\<close>, the byte copies of \<open>keys/bytes.ts\<close>, and the strict decoder of
  \<open>errors/base64.ts\<close>, which is what stands between a malformed blank and the signer.

  The interface the clients rely on is the locale \<open>codec\<close>: what an encoder wrote, the decoder reads
  back. It is interpreted for both alphabets here.
\<close>

locale codec =
  fixes enc :: "'a \<Rightarrow> 'b" and dec :: "'b \<Rightarrow> 'a option" and ok :: "'a \<Rightarrow> bool"
  assumes dec_enc: "ok x \<Longrightarrow> dec (enc x) = Some x"
begin

lemma enc_inj: "ok x \<Longrightarrow> ok y \<Longrightarrow> enc x = enc y \<longleftrightarrow> x = y"
  using dec_enc by (metis option.inject)

lemma enc_inj_on: "inj_on enc {x. ok x}"
  by (rule inj_onI) (simp add: enc_inj)

end

text \<open>Two codecs in a row are a codec.\<close>

locale codec_chain = first: codec enc1 dec1 ok1 + second: codec enc2 dec2 ok2
  for enc1 :: "'a \<Rightarrow> 'b" and dec1 ok1 and enc2 :: "'b \<Rightarrow> 'c" and dec2 ok2 +
  assumes ok_step: "ok1 x \<Longrightarrow> ok2 (enc1 x)"
begin

lemma chain_dec_enc: "ok1 x \<Longrightarrow> Option.bind (dec2 (enc2 (enc1 x))) dec1 = Some x"
  by (simp add: ok_step first.dec_enc second.dec_enc)

end

sublocale codec_chain \<subseteq> chain: codec "enc2 \<circ> enc1" "\<lambda>z. Option.bind (dec2 z) dec1" ok1
  by unfold_locales (simp add: chain_dec_enc)

subsection \<open>Groups of three bytes and four sextets\<close>

fun sextets :: "bytes \<Rightarrow> nat list" where
  "sextets (a # b # c # r) =
     [of_char a div 4, (of_char a mod 4) * 16 + of_char b div 16,
      (of_char b mod 16) * 4 + of_char c div 64, of_char c mod 64] @ sextets r"
| "sextets [a, b] =
     [of_char a div 4, (of_char a mod 4) * 16 + of_char b div 16, (of_char b mod 16) * 4]"
| "sextets [a] = [of_char a div 4, (of_char a mod 4) * 16]"
| "sextets [] = []"

fun octets :: "nat list \<Rightarrow> bytes" where
  "octets (p # q # r # s # t) =
     [char_of (p * 4 + q div 16), char_of ((q mod 16) * 16 + r div 4),
      char_of ((r mod 4) * 64 + s)] @ octets t"
| "octets [p, q, r] = [char_of (p * 4 + q div 16), char_of ((q mod 16) * 16 + r div 4)]"
| "octets [p, q] = [char_of (p * 4 + q div 16)]"
| "octets _ = []"

definition base64_alphabet :: string where
  "base64_alphabet = ''ABCDEFGHIJKLMNOPQRSTUVWXYZabcdefghijklmnopqrstuvwxyz0123456789+/''"

definition base64url_alphabet :: string where
  "base64url_alphabet = ''ABCDEFGHIJKLMNOPQRSTUVWXYZabcdefghijklmnopqrstuvwxyz0123456789-_''"

text \<open>The value of a character; both alphabets are accepted when decoding.\<close>

definition base64_val :: "char \<Rightarrow> nat option" where
  "base64_val c =
     (let n = (of_char c :: nat) in
      if 65 \<le> n \<and> n \<le> 90 then Some (n - 65)
      else if 97 \<le> n \<and> n \<le> 122 then Some (n - 71)
      else if 48 \<le> n \<and> n \<le> 57 then Some (n + 4)
      else if n = 43 \<or> n = 45 then Some 62
      else if n = 47 \<or> n = 95 then Some 63
      else None)"

definition pad_count :: "bytes \<Rightarrow> nat" where
  "pad_count bs = (3 - length bs mod 3) mod 3"

text \<open>\<open>Buffer.from(bytes).toString('base64')\<close> (\<open>bytesToBase64\<close>), and \<open>toString('base64url')\<close>.\<close>

definition bytesToBase64 :: "bytes \<Rightarrow> string" where
  "bytesToBase64 bs =
     map (\<lambda>n. base64_alphabet ! n) (sextets bs) @ replicate (pad_count bs) (CHR ''='')"

definition bytesToBase64url :: "bytes \<Rightarrow> string" where
  "bytesToBase64url bs = map (\<lambda>n. base64url_alphabet ! n) (sextets bs)"

text \<open>
  \<open>Buffer.from(s, 'base64')\<close>: characters of either alphabet followed by at most two \<open>=\<close> decode as
  RFC 4648 says, surplus bits dropped; anything else is the runtime's business.
\<close>

definition base64_body :: "string \<Rightarrow> string" where
  "base64_body s = takeWhile (\<lambda>c. c \<noteq> CHR ''='') s"

definition base64_wellformed :: "string \<Rightarrow> bool" where
  "base64_wellformed s \<longleftrightarrow>
     list_all (\<lambda>c. base64_val c \<noteq> None) (base64_body s)
     \<and> drop (length (base64_body s)) s \<in> {[], ''='', ''==''}"

definition base64ToBytes :: "runtime \<Rightarrow> string \<Rightarrow> bytes" where
  "base64ToBytes rt s =
     (if base64_wellformed s then octets (map (the \<circ> base64_val) (base64_body s))
      else loose_base64 rt s)"

text \<open>The test \<open>/^[A-Za-z0-9+/]+={0,2}$/\<close>.\<close>

definition base64_std_char :: "char \<Rightarrow> bool" where
  "base64_std_char c \<longleftrightarrow> base64_val c \<noteq> None \<and> c \<noteq> CHR ''-'' \<and> c \<noteq> CHR ''_''"

definition strict_pattern :: "string \<Rightarrow> bool" where
  "strict_pattern s \<longleftrightarrow>
     base64_body s \<noteq> [] \<and> list_all base64_std_char (base64_body s)
     \<and> drop (length (base64_body s)) s \<in> {[], ''='', ''==''}"

definition decodeStrictBase64 :: "runtime \<Rightarrow> jsval \<Rightarrow> bytes option" where
  "decodeStrictBase64 rt value =
     (case value of
        JStr s \<Rightarrow>
          if s = [] \<or> length s mod 4 \<noteq> 0 then None
          else if \<not> strict_pattern s then None
          else (let decoded = base64ToBytes rt s in
                if bytesToBase64 decoded = s then Some decoded else None)
      | _ \<Rightarrow> None)"

subsection \<open>Round trips\<close>

lemma of_char_nat_less: "(of_char c :: nat) < 256"
  by simp

lemma char_div_less: "(of_char c :: nat) div 16 < 16" "(of_char c :: nat) div 64 < 4"
  using of_char_nat_less [of c] by linarith+

lemma char_parts [simp]:
  "(of_char c :: nat) div 16 mod 16 = of_char c div 16" "(of_char c :: nat) div 16 div 16 = 0"
  "(of_char c :: nat) div 64 mod 4 = of_char c div 64" "(of_char c :: nat) div 64 div 4 = 0"
  using char_div_less [of c] by simp_all

lemma octets_sextets [simp, codec_simps]: "octets (sextets bs) = bs"
  by (induction bs rule: sextets.induct) simp_all

lemma group_less:
  fixes a b c :: nat
  assumes "a < 256" and "b < 256" and "c < 256"
  shows "a div 4 < 64" and "a mod 4 * 16 + b div 16 < 64" and "b mod 16 * 4 + c div 64 < 64"
    and "a mod 4 * 16 < 64" and "b mod 16 * 4 < 64"
proof -
  have "a mod 4 < 4" "b mod 16 < 16" by simp_all
  with assms show "a div 4 < 64" and "a mod 4 * 16 + b div 16 < 64" and "b mod 16 * 4 + c div 64 < 64"
    and "a mod 4 * 16 < 64" and "b mod 16 * 4 < 64"
    by linarith+
qed

lemmas group_less_char = group_less [OF of_char_nat_less of_char_nat_less of_char_nat_less]

lemma sextets_less: "list_all (\<lambda>n. n < 64) (sextets bs)"
  by (induction bs rule: sextets.induct) (simp_all add: group_less_char)

lemma length_sextets: "length (sextets bs) = (4 * length bs + 2) div 3"
  by (induction bs rule: sextets.induct) simp_all

lemma length_base64_groups: "(4 * n + 2) div 3 + (3 - n mod 3) mod 3 = 4 * ((n + 2) div (3 :: nat))"
proof -
  define q r where "q = n div 3" and "r = n mod 3"
  then have n: "4 * n + 2 = (4 * r + 2) + 3 * (4 * q)" "n + 2 = (r + 2) + 3 * q" and "r < 3"
    using mult_div_mod_eq [of 3 n] by linarith+
  have "(4 * n + 2) div 3 = 4 * q + (4 * r + 2) div 3" and "(n + 2) div 3 = q + (r + 2) div 3"
    unfolding n by (simp_all only: div_mult_self2 [of 3, simplified])
  moreover from \<open>r < 3\<close> have "r = 0 \<or> r = 1 \<or> r = 2" by linarith
  ultimately show ?thesis
    by (auto simp: r_def [symmetric])
qed

lemma sextets_Nil_iff [simp]: "sextets bs = [] \<longleftrightarrow> bs = []"
  by (cases bs rule: sextets.cases) auto

lemma base64_tables:
  "map base64_val base64_alphabet = map Some [0..<64]"
  "map base64_val base64url_alphabet = map Some [0..<64]"
  by (simp_all add: base64_alphabet_def base64url_alphabet_def base64_val_def upt_conv_Cons)

lemma base64_alphabet_std: "list_all base64_std_char base64_alphabet"
  by (simp add: base64_alphabet_def base64_std_char_def base64_val_def)

lemma base64_alphabet_nth:
  assumes "n < 64"
  shows "base64_val (base64_alphabet ! n) = Some n"
    and "base64_val (base64url_alphabet ! n) = Some n"
    and "base64_std_char (base64_alphabet ! n)"
proof -
  have len: "length base64_alphabet = 64" "length base64url_alphabet = 64"
    by (simp_all add: base64_alphabet_def base64url_alphabet_def)
  have "map base64_val base64_alphabet ! n = map Some [0..<64] ! n"
    and "map base64_val base64url_alphabet ! n = map Some [0..<64] ! n"
    by (simp_all only: base64_tables)
  with assms show "base64_val (base64_alphabet ! n) = Some n"
    and "base64_val (base64url_alphabet ! n) = Some n"
    by (simp_all add: len)
  from assms show "base64_std_char (base64_alphabet ! n)"
    using base64_alphabet_std by (simp add: len list_all_length)
qed

lemma base64_val_pad [simp]: "base64_val (CHR ''='') = None"
  by (simp add: base64_val_def)

text \<open>What both encoders write: the sextets' characters, none of them \<open>=\<close>, then the padding.\<close>

lemma base64_text:
  assumes "\<And>n. n < 64 \<Longrightarrow> base64_val (tab n) = Some n" and "p \<in> {[], ''='', ''==''}"
    and s: "s = map tab (sextets bs) @ p"
  shows "base64_body s = map tab (sextets bs)" and "base64_wellformed s"
    and "base64ToBytes rt s = bs"
proof -
  have ok: "n \<in> set (sextets bs) \<Longrightarrow> base64_val (tab n) = Some n" for n
    using assms(1) sextets_less [of bs] by (auto simp: list_all_iff)
  have ne: "n \<in> set (sextets bs) \<Longrightarrow> tab n \<noteq> CHR ''=''" for n
    using ok [of n] by fastforce
  show body: "base64_body s = map tab (sextets bs)"
  proof -
    have "\<forall>c \<in> set (map tab (sextets bs)). c \<noteq> CHR ''=''"
      using ne by auto
    then have "takeWhile (\<lambda>c. c \<noteq> CHR ''='') (map tab (sextets bs) @ p)
        = map tab (sextets bs) @ takeWhile (\<lambda>c. c \<noteq> CHR ''='') p"
      by (intro takeWhile_append2) blast
    with assms(2) show ?thesis by (auto simp: base64_body_def s)
  qed
  show wf: "base64_wellformed s"
    unfolding base64_wellformed_def body using assms(2) ok by (auto simp: s list_all_iff)
  have "map (the \<circ> base64_val) (map tab (sextets bs)) = sextets bs"
    using ok by (simp add: map_idI)
  with wf show "base64ToBytes rt s = bs"
    by (simp add: base64ToBytes_def body)
qed

lemma pad_cases: "replicate (pad_count bs) (CHR ''='') \<in> {[], ''='', ''==''}"
proof -
  have "pad_count bs \<in> {0, 1, 2}"
    unfolding pad_count_def by auto
  then show ?thesis by (auto simp: numeral_2_eq_2)
qed

lemma base64_roundtrip [simp, codec_simps]: "base64ToBytes rt (bytesToBase64 bs) = bs"
  by (rule base64_text(3) [OF base64_alphabet_nth(1) pad_cases]) (simp_all add: bytesToBase64_def)

lemma base64url_roundtrip [simp, codec_simps]: "base64ToBytes rt (bytesToBase64url bs) = bs"
  by (rule base64_text(3) [OF base64_alphabet_nth(2), where p = "[]"])
     (simp_all add: bytesToBase64url_def)

interpretation base64: codec bytesToBase64 "\<lambda>s. Some (base64ToBytes rt s)" "\<lambda>_. True" for rt
  by unfold_locales simp

interpretation base64url: codec bytesToBase64url "\<lambda>s. Some (base64ToBytes rt s)" "\<lambda>_. True" for rt
  by unfold_locales simp

lemma bytesToBase64url_Nil_iff [simp]: "bytesToBase64url bs = [] \<longleftrightarrow> bs = []"
  by (simp add: bytesToBase64url_def)

lemma bytesToBase64_Nil_iff [simp]: "bytesToBase64 bs = [] \<longleftrightarrow> bs = []"
  by (auto simp: bytesToBase64_def pad_count_def)

lemma length_bytesToBase64: "length (bytesToBase64 bs) = 4 * ((length bs + 2) div 3)"
  using length_base64_groups [of "length bs"]
  by (simp add: bytesToBase64_def length_sextets pad_count_def)

lemma bytesToBase64_strict:
  assumes "bs \<noteq> []"
  shows "strict_pattern (bytesToBase64 bs)"
proof -
  have body: "base64_body (bytesToBase64 bs) = map (\<lambda>n. base64_alphabet ! n) (sextets bs)"
    by (rule base64_text(1) [OF base64_alphabet_nth(1) pad_cases]) (simp_all add: bytesToBase64_def)
  have "list_all base64_std_char (map (\<lambda>n. base64_alphabet ! n) (sextets bs))"
    using sextets_less [of bs] base64_alphabet_nth(3) by (simp add: list_all_iff)
  with assms pad_cases [of bs] show ?thesis
    unfolding strict_pattern_def body by (simp add: bytesToBase64_def)
qed

text \<open>
  The strict decoder accepts exactly the canonical encodings of non-empty byte strings, whatever the
  runtime makes of other strings.
\<close>

lemma decodeStrictBase64_iff:
  "decodeStrictBase64 rt v = Some bs \<longleftrightarrow> v = JStr (bytesToBase64 bs) \<and> bs \<noteq> []"
proof
  assume "decodeStrictBase64 rt v = Some bs"
  then show "v = JStr (bytesToBase64 bs) \<and> bs \<noteq> []"
    by (auto simp: decodeStrictBase64_def Let_def bytesToBase64_def pad_count_def
             split: jsval.splits if_splits)
next
  assume "v = JStr (bytesToBase64 bs) \<and> bs \<noteq> []"
  then show "decodeStrictBase64 rt v = Some bs"
    by (auto simp: decodeStrictBase64_def length_bytesToBase64 bytesToBase64_strict)
qed

lemma bytesToBase64_solid: "list_all solid (bytesToBase64 bs)"
proof -
  have "list_all solid base64_alphabet"
    by (simp add: base64_alphabet_def solid_def)
  then have "n < 64 \<Longrightarrow> solid (base64_alphabet ! n)" for n
    by (simp add: list_all_length base64_alphabet_def)
  with sextets_less [of bs] show ?thesis
    by (auto simp: bytesToBase64_def list_all_iff solid_def)
qed

end
