(* ===== verification/Utf8.thy ===== *)
theory Utf8
  imports Base64
begin

text \<open>
  UTF-8 at the program's edges. Strings are held as their UTF-8 bytes, so \<open>TextEncoder.encode\<close>
  copies them, replacing a lone surrogate by U+FFFD, and \<open>Buffer.toString('utf8')\<close> copies valid
  bytes back.
\<close>

definition cont_byte :: "byte \<Rightarrow> bool" where
  "cont_byte c \<longleftrightarrow> 128 \<le> (of_char c :: nat) \<and> (of_char c :: nat) < 192"

definition in_range :: "nat \<Rightarrow> nat \<Rightarrow> byte \<Rightarrow> bool" where
  "in_range lo hi c \<longleftrightarrow> lo \<le> (of_char c :: nat) \<and> (of_char c :: nat) \<le> hi"

text \<open>The number of bytes of the well-formed character a byte string starts with.\<close>

fun utf8_first :: "bytes \<Rightarrow> nat option" where
  "utf8_first [] = None"
| "utf8_first (a # s) =
     (if in_range 0 127 a then Some 1
      else (case s of
        [] \<Rightarrow> None
      | b # t \<Rightarrow>
          if in_range 194 223 a then (if cont_byte b then Some 2 else None)
          else (case t of
            [] \<Rightarrow> None
          | c # u \<Rightarrow>
              if in_range 224 239 a
              then (if cont_byte c
                      \<and> (if in_range 224 224 a then in_range 160 191 b
                         else if in_range 237 237 a then in_range 128 159 b
                         else cont_byte b)
                    then Some 3 else None)
              else (case u of
                [] \<Rightarrow> None
              | d # _ \<Rightarrow>
                  if in_range 240 244 a \<and> cont_byte c \<and> cont_byte d
                     \<and> (if in_range 240 240 a then in_range 144 191 b
                        else if in_range 244 244 a then in_range 128 143 b
                        else cont_byte b)
                  then Some 4 else None))))"

lemma utf8_first_pos: "utf8_first s = Some n \<Longrightarrow> 0 < n \<and> s \<noteq> []"
  by (cases s) (auto split: if_splits list.splits)

function valid_utf8 :: "bytes \<Rightarrow> bool" where
  "valid_utf8 s =
     (if s = [] then True
      else case utf8_first s of None \<Rightarrow> False | Some n \<Rightarrow> valid_utf8 (drop n s))"
  by pat_completeness auto
termination
  by (relation "measure length") (auto dest: utf8_first_pos)

declare valid_utf8.simps [simp del]

text \<open>A lone surrogate is the byte ED followed by a byte from A0 on; here is its code unit.\<close>

fun lone_surrogate :: "string \<Rightarrow> nat option" where
  "lone_surrogate (a # b # c # _) =
     (if of_char a = (237 :: nat) \<and> 160 \<le> (of_char b :: nat)
      then Some (53248 + of_char b mod 64 * 64 + of_char c mod 64) else None)"
| "lone_surrogate _ = None"

text \<open>\<open>new TextEncoder().encode(s)\<close>, \<open>Buffer.from(s, 'utf8')\<close>\<close>

fun utf8_encode :: "string \<Rightarrow> bytes" where
  "utf8_encode [] = []"
| "utf8_encode (a # s) =
     (case lone_surrogate (a # s) of
        Some _ \<Rightarrow> [CHR 0xEF, CHR 0xBF, CHR 0xBD] @ utf8_encode (drop 2 s)
      | None \<Rightarrow> a # utf8_encode s)"

text \<open>\<open>buffer.toString('utf8')\<close>\<close>

definition utf8_decode :: "runtime \<Rightarrow> bytes \<Rightarrow> string" where
  "utf8_decode rt bs = (if valid_utf8 bs then bs else loose_utf8 rt bs)"

subsection \<open>Well-formed text passes through unchanged\<close>

lemma valid_utf8_Nil [simp]: "valid_utf8 []"
  by (simp add: valid_utf8.simps)

lemma valid_utf8_ascii [simp]:
  "in_range 0 127 c \<Longrightarrow> valid_utf8 (c # s) \<longleftrightarrow> valid_utf8 s"
  by (subst valid_utf8.simps) simp

lemma utf8_first_append:
  assumes "utf8_first s = Some n"
  shows "utf8_first (s @ t) = Some n"
proof (cases s)
  case (Cons a s1)
  show ?thesis
  proof (cases s1)
    case s1: (Cons b s2)
    show ?thesis
    proof (cases s2)
      case s2: (Cons c s3)
      with assms Cons s1 show ?thesis
        by (cases s3) (simp_all del: Suc_eq_plus1 split: if_split_asm)
    qed (use assms Cons s1 in \<open>simp split: if_split_asm\<close>)
  qed (use assms Cons in \<open>simp split: if_split_asm\<close>)
qed (use assms in simp)

lemma utf8_first_length: "utf8_first s = Some n \<Longrightarrow> n \<le> length s"
  by (cases s) (auto split: if_splits list.splits)

lemma valid_utf8_append: "valid_utf8 s \<Longrightarrow> valid_utf8 t \<Longrightarrow> valid_utf8 (s @ t)"
proof (induction s rule: valid_utf8.induct)
  case (1 s)
  show ?case
  proof (cases "s = []")
    case False
    with "1.prems"(1) obtain n where n: "utf8_first s = Some n" and "valid_utf8 (drop n s)"
      by (auto simp: valid_utf8.simps [of s] split: option.splits)
    with "1.IH" "1.prems"(2) False have "valid_utf8 (drop n s @ t)" by blast
    with n False show ?thesis
      by (subst valid_utf8.simps) (simp add: utf8_first_append utf8_first_length)
  qed (use "1.prems" in simp)
qed

definition ascii :: "char \<Rightarrow> bool" where
  "ascii c \<longleftrightarrow> in_range 0 127 c"

lemma valid_utf8_all_ascii: "list_all ascii s \<Longrightarrow> valid_utf8 s"
  by (induction s) (auto simp: ascii_def)

lemma utf8_first_take:
  assumes "utf8_first s = Some n"
  shows "utf8_first (take n s) = Some n"
proof (cases s)
  case (Cons a s1)
  show ?thesis
  proof (cases s1)
    case s1: (Cons b s2)
    show ?thesis
    proof (cases s2)
      case s2: (Cons c s3)
      with assms Cons s1 show ?thesis
        by (cases s3) (auto simp: numeral_eq_Suc split: if_split_asm)
    qed (use assms Cons s1 in \<open>auto simp: numeral_eq_Suc split: if_split_asm\<close>)
  qed (use assms Cons in \<open>simp split: if_split_asm\<close>)
qed (use assms in simp)

lemma valid_utf8_take: "utf8_first s = Some n \<Longrightarrow> valid_utf8 (take n s)"
  using utf8_first_take [of s n] utf8_first_pos [of s n] utf8_first_length [of s n]
  by (subst valid_utf8.simps) simp

text \<open>A well-formed string is an ASCII character, or a longer character of bytes from 128 on,
  followed by a well-formed string.\<close>

lemma utf8_first_high:
  "utf8_first (a # s) = Some n \<Longrightarrow> \<not> ascii a \<Longrightarrow> list_all (\<lambda>c. \<not> ascii c) (take n (a # s))"
  by (auto simp: ascii_def in_range_def cont_byte_def split: if_splits list.splits)

lemma valid_utf8_induct [consumes 1, case_names Nil ascii high]:
  assumes "valid_utf8 s" and "P []"
    and "\<And>c s. ascii c \<Longrightarrow> valid_utf8 s \<Longrightarrow> P s \<Longrightarrow> P (c # s)"
    and "\<And>p s. valid_utf8 p \<Longrightarrow> list_all (\<lambda>c. \<not> ascii c) p \<Longrightarrow> valid_utf8 s \<Longrightarrow> P s \<Longrightarrow> P (p @ s)"
  shows "P s"
  using assms(1)
proof (induction s rule: valid_utf8.induct)
  case (1 s)
  show ?case
  proof (cases s)
    case (Cons a t)
    then have "s \<noteq> []" by simp
    with "1.prems" obtain n where n: "utf8_first s = Some n" and v: "valid_utf8 (drop n s)"
      by (auto simp: valid_utf8.simps [of s] split: option.splits)
    with "1.IH" Cons have IH: "P (drop n s)" by blast
    show ?thesis
    proof (cases "ascii a")
      case True
      with n Cons have "n = 1" by (simp add: ascii_def)
      with assms(3) [OF True v IH] Cons show ?thesis by simp
    next
      case False
      with assms(4) [OF valid_utf8_take [OF n] _ v IH] utf8_first_high n Cons show ?thesis
        by (metis append_take_drop_id)
    qed
  qed (use assms(2) in simp)
qed

fun no_surrogate :: "string \<Rightarrow> bool" where
  "no_surrogate [] = True"
| "no_surrogate (a # s) = (lone_surrogate (a # s) = None \<and> no_surrogate s)"

lemma no_surrogate_encode: "no_surrogate s \<Longrightarrow> utf8_encode s = s"
  by (induction s) auto

lemma lone_surrogate_lead: "(of_char a :: nat) \<noteq> 237 \<Longrightarrow> lone_surrogate (a # s) = None"
  by (cases "a # s" rule: lone_surrogate.cases) auto

lemma lone_surrogate_cont: "cont_byte a \<Longrightarrow> lone_surrogate (a # s) = None"
  by (rule lone_surrogate_lead) (auto simp: cont_byte_def)

lemma valid_utf8_step:
  assumes "valid_utf8 (a # s)"
  obtains n where "utf8_first (a # s) = Some (Suc n)" and "valid_utf8 (drop n s)"
    and "lone_surrogate (a # s) = None" and "list_all cont_byte (take n s)"
proof -
  from assms obtain m where m: "utf8_first (a # s) = Some m" and v: "valid_utf8 (drop m (a # s))"
    by (auto simp: valid_utf8.simps [of "a # s"] split: option.splits)
  have "lone_surrogate (a # s) = None" and "list_all cont_byte (take (m - 1) s)"
    using m by (auto simp: in_range_def cont_byte_def split: if_splits list.splits
        intro!: lone_surrogate_lead)
  with m v utf8_first_pos [OF m] that [of "m - 1"] show thesis
    by (cases m) auto
qed

lemma no_surrogate_cont: "list_all cont_byte p \<Longrightarrow> no_surrogate s \<Longrightarrow> no_surrogate (p @ s)"
  by (induction p) (auto simp: lone_surrogate_cont)

lemma valid_utf8_no_surrogate: "valid_utf8 s \<Longrightarrow> no_surrogate s"
proof (induction "length s" arbitrary: s rule: less_induct)
  case less
  show ?case
  proof (cases s)
    case (Cons a t)
    with less.prems obtain n where n: "valid_utf8 (drop n t)" "lone_surrogate (a # t) = None"
      "list_all cont_byte (take n t)"
      by (metis valid_utf8_step)
    with less.hyps [of "drop n t"] Cons have "no_surrogate (drop n t)" by simp
    with n no_surrogate_cont [of "take n t" "drop n t"] Cons show ?thesis by simp
  qed simp
qed

lemma utf8_roundtrip [simp, codec_simps]:
  "valid_utf8 s \<Longrightarrow> utf8_encode s = s" "valid_utf8 s \<Longrightarrow> utf8_decode rt s = s"
  by (simp_all add: utf8_decode_def no_surrogate_encode valid_utf8_no_surrogate)

interpretation utf8: codec utf8_encode "\<lambda>bs. Some (utf8_decode rt bs)" valid_utf8 for rt
  by unfold_locales simp

subsection \<open>Texts of ASCII characters\<close>

lemma base64url_ascii: "list_all ascii (bytesToBase64url bs)"
proof -
  have "list_all ascii base64url_alphabet" by (simp add: base64url_alphabet_def ascii_def in_range_def)
  then have "n < 64 \<Longrightarrow> ascii (base64url_alphabet ! n)" for n
    by (simp add: list_all_length base64url_alphabet_def)
  with sextets_less [of bs] show ?thesis by (auto simp: bytesToBase64url_def list_all_iff)
qed

lemma base64url_utf8 [simp]: "valid_utf8 (bytesToBase64url bs)"
  by (rule valid_utf8_all_ascii [OF base64url_ascii])

lemma base64_ascii: "list_all ascii (bytesToBase64 bs)"
proof -
  have "list_all ascii base64_alphabet" by (simp add: base64_alphabet_def ascii_def in_range_def)
  then have "n < 64 \<Longrightarrow> ascii (base64_alphabet ! n)" for n
    by (simp add: list_all_length base64_alphabet_def)
  with sextets_less [of bs] show ?thesis
    by (auto simp: bytesToBase64_def list_all_iff ascii_def in_range_def)
qed

lemma base64_utf8 [simp]: "valid_utf8 (bytesToBase64 bs)"
  by (rule valid_utf8_all_ascii [OF base64_ascii])

lemma ascii_digit: "is_digit c \<Longrightarrow> ascii c"
  by (simp add: is_digit_def ascii_def in_range_def)

lemma show_nat_utf8 [simp]: "valid_utf8 (show_nat n)"
  using show_nat_digits [of n] by (intro valid_utf8_all_ascii) (auto simp: list_all_iff ascii_digit)

end
