(* ===== verification/Json.thy ===== *)
theory Json
  imports Utf8
begin

text \<open>
  \<open>JSON.stringify\<close> without indentation and \<open>JSON.parse\<close>. The parser is total: each recursive call
  is guarded by a comparison of lengths that always holds, because every construct consumes input,
  so no fuel is needed.
\<close>

subsection \<open>Writing\<close>

definition hex_digit :: "nat \<Rightarrow> char" where
  "hex_digit n = (if n < 10 then char_of (48 + n) else char_of (87 + n))"

definition hex4 :: "nat \<Rightarrow> string" where
  "hex4 n = [hex_digit (n div 4096 mod 16), hex_digit (n div 256 mod 16),
             hex_digit (n div 16 mod 16), hex_digit (n mod 16)]"

definition esc_char :: "char \<Rightarrow> string" where
  "esc_char c =
     (if c = CHR 0x22 then [CHR 0x5C, CHR 0x22]
      else if c = CHR 0x5C then [CHR 0x5C, CHR 0x5C]
      else if c = CHR 0x08 then [CHR 0x5C, CHR ''b'']
      else if c = CHR 0x09 then [CHR 0x5C, CHR ''t'']
      else if c = CHR 0x0A then [CHR 0x5C, CHR ''n'']
      else if c = CHR 0x0C then [CHR 0x5C, CHR ''f'']
      else if c = CHR 0x0D then [CHR 0x5C, CHR ''r'']
      else if (of_char c :: nat) < 32 then CHR 0x5C # CHR ''u'' # hex4 (of_char c)
      else [c])"

fun json_escape :: "string \<Rightarrow> string" where
  "json_escape [] = []"
| "json_escape (c # s) =
     (case lone_surrogate (c # s) of
        Some u \<Rightarrow> CHR 0x5C # CHR ''u'' # hex4 u @ json_escape (drop 2 s)
      | None \<Rightarrow> esc_char c @ json_escape s)"

definition json_quote :: "string \<Rightarrow> string" where
  "json_quote s = CHR 0x22 # json_escape s @ [CHR 0x22]"

fun commas :: "string list \<Rightarrow> string" where
  "commas [] = []"
| "commas [x] = x"
| "commas (x # xs) = x @ CHR '','' # commas xs"

text \<open>A property that is \<open>undefined\<close> is left out of an object.\<close>

fun json_stringify :: "jsval \<Rightarrow> string" where
  "json_stringify JUndefined = ''null''"
| "json_stringify JNull = ''null''"
| "json_stringify (JBool b) = (if b then ''true'' else ''false'')"
| "json_stringify (JNum t) = t"
| "json_stringify (JStr s) = json_quote s"
| "json_stringify (JArr vs) = CHR ''['' # commas (map json_stringify vs) @ '']''"
| "json_stringify (JObj kvs) =
     CHR ''{''
     # commas (map (\<lambda>(k, v). json_quote k @ CHR '':'' # json_stringify v)
                 (filter (\<lambda>(k, v). v \<noteq> JUndefined) kvs)) @ ''}''"

subsection \<open>Reading\<close>

definition json_ws :: "char \<Rightarrow> bool" where
  "json_ws c \<longleftrightarrow> c = CHR 0x20 \<or> c = CHR 0x09 \<or> c = CHR 0x0A \<or> c = CHR 0x0D"

definition skip_ws :: "string \<Rightarrow> string" where
  "skip_ws s = dropWhile json_ws s"

definition hex_val :: "char \<Rightarrow> nat option" where
  "hex_val c =
     (let n = (of_char c :: nat) in
      if 48 \<le> n \<and> n \<le> 57 then Some (n - 48)
      else if 97 \<le> n \<and> n \<le> 102 then Some (n - 87)
      else if 65 \<le> n \<and> n \<le> 70 then Some (n - 55) else None)"

fun read_hex4 :: "string \<Rightarrow> (nat \<times> string) option" where
  "read_hex4 (a # b # c # d # r) =
     (case (hex_val a, hex_val b, hex_val c, hex_val d) of
        (Some w, Some x, Some y, Some z) \<Rightarrow> Some (w * 4096 + x * 256 + y * 16 + z, r)
      | _ \<Rightarrow> None)"
| "read_hex4 _ = None"

text \<open>The (generalised) UTF-8 bytes of a code point.\<close>

definition code_point :: "nat \<Rightarrow> string" where
  "code_point n =
     (if n < 128 then [char_of n]
      else if n < 2048 then [char_of (192 + n div 64), char_of (128 + n mod 64)]
      else if n < 65536 then
        [char_of (224 + n div 4096), char_of (128 + n div 64 mod 64), char_of (128 + n mod 64)]
      else [char_of (240 + n div 262144), char_of (128 + n div 4096 mod 64),
            char_of (128 + n div 64 mod 64), char_of (128 + n mod 64)])"

text \<open>A \<open>\uXXXX\<close> escape after its \<open>\u\<close>; a high surrogate followed by the escape of a low one is
  one code point.\<close>

definition read_unicode :: "string \<Rightarrow> (string \<times> string) option" where
  "read_unicode s =
     (case read_hex4 s of
        None \<Rightarrow> None
      | Some (u, r) \<Rightarrow>
          if 55296 \<le> u \<and> u < 56320 \<and> startsWith r [CHR 0x5C, CHR ''u'']
          then (case read_hex4 (drop 2 r) of
                  None \<Rightarrow> None
                | Some (w, r') \<Rightarrow>
                    if 56320 \<le> w \<and> w < 57344
                    then Some (code_point (65536 + (u - 55296) * 1024 + (w - 56320)), r')
                    else Some (code_point u, r))
          else Some (code_point u, r))"

fun read_escape :: "string \<Rightarrow> (string \<times> string) option" where
  "read_escape [] = None"
| "read_escape (e # r) =
     (if e = CHR 0x22 \<or> e = CHR 0x5C \<or> e = CHR 0x2F then Some ([e], r)
      else if e = CHR ''b'' then Some ([CHR 0x08], r)
      else if e = CHR ''f'' then Some ([CHR 0x0C], r)
      else if e = CHR ''n'' then Some ([CHR 0x0A], r)
      else if e = CHR ''r'' then Some ([CHR 0x0D], r)
      else if e = CHR ''t'' then Some ([CHR 0x09], r)
      else if e = CHR ''u'' then read_unicode r
      else None)"

text \<open>The rest of a string literal after its opening quote, and what follows the closing one.\<close>

function read_chars :: "string \<Rightarrow> (string \<times> string) option" where
  "read_chars [] = None"
| "read_chars (c # s) =
     (if c = CHR 0x22 then Some ([], s)
      else if c = CHR 0x5C
      then (case read_escape s of
              None \<Rightarrow> None
            | Some (t, r) \<Rightarrow>
                if length r < length s
                then map_option (\<lambda>(u, r'). (t @ u, r')) (read_chars r) else None)
      else if (of_char c :: nat) < 32 then None
      else map_option (\<lambda>(u, r'). (c # u, r')) (read_chars s))"
  by pat_completeness auto
termination
  by (relation "measure length") auto

text \<open>\<open>-?(0|[1-9][0-9]*)(\.[0-9]+)?([eE][+-]?[0-9]+)?\<close>, kept as text.\<close>

definition span_digits :: "string \<Rightarrow> string \<times> string" where
  "span_digits s = (takeWhile is_digit s, dropWhile is_digit s)"

definition read_number :: "string \<Rightarrow> (string \<times> string) option" where
  "read_number s =
     (let (sign, s1) = (case s of CHR ''-'' # r \<Rightarrow> (''-'', r) | _ \<Rightarrow> ([], s));
          (whole, s2) = span_digits s1 in
      if whole = [] \<or> (1 < length whole \<and> hd whole = CHR ''0'') then None
      else let frac = (case s2 of CHR ''.'' # r \<Rightarrow>
                         (let (ds, r') = span_digits r in
                          if ds = [] then None else Some (CHR ''.'' # ds, r'))
                       | _ \<Rightarrow> Some ([], s2)) in
      (case frac of
         None \<Rightarrow> None
       | Some (f, s3) \<Rightarrow>
           (case s3 of
              e # r \<Rightarrow>
                if e = CHR ''e'' \<or> e = CHR ''E''
                then let (sg, r1) = (case r of c # r' \<Rightarrow>
                                       if c = CHR ''+'' \<or> c = CHR ''-'' then ([c], r') else ([], r)
                                     | [] \<Rightarrow> ([], r));
                         (ds, r2) = span_digits r1 in
                     if ds = [] then None else Some (sign @ whole @ f @ e # sg @ ds, r2)
                else Some (sign @ whole @ f, s3)
            | [] \<Rightarrow> Some (sign @ whole @ f, []))))"

text \<open>A repeated key keeps its first position and takes the last value.\<close>

definition obj_put :: "(string \<times> jsval) list \<Rightarrow> string \<Rightarrow> jsval \<Rightarrow> (string \<times> jsval) list" where
  "obj_put kvs k v =
     (if k \<in> set (map fst kvs) then map (\<lambda>(k', v'). if k' = k then (k', v) else (k', v')) kvs
      else kvs @ [(k, v)])"

definition read_word :: "string \<Rightarrow> jsval \<Rightarrow> string \<Rightarrow> (jsval \<times> string) option" where
  "read_word w v s = (if startsWith s w then Some (v, drop (length w) s) else None)"

text \<open>After white space, one expected character.\<close>

definition expect :: "char \<Rightarrow> string \<Rightarrow> string option" where
  "expect c s = (case skip_ws s of [] \<Rightarrow> None | d # r \<Rightarrow> if d = c then Some r else None)"

function (sequential)
  read_value :: "string \<Rightarrow> (jsval \<times> string) option"
  and read_items :: "string \<Rightarrow> (jsval list \<times> string) option"
  and read_members :: "(string \<times> jsval) list \<Rightarrow> string \<Rightarrow> ((string \<times> jsval) list \<times> string) option"
where
  "read_value s =
     (case skip_ws s of
        [] \<Rightarrow> None
      | c # r \<Rightarrow>
          if \<not> length r < length s then None
          else if c = CHR ''{''
          then (case expect (CHR ''}'') r of
                  Some r' \<Rightarrow> Some (JObj [], r')
                | None \<Rightarrow> map_option (\<lambda>(kvs, r'). (JObj kvs, r')) (read_members [] r))
          else if c = CHR ''[''
          then (case expect (CHR '']'') r of
                  Some r' \<Rightarrow> Some (JArr [], r')
                | None \<Rightarrow> map_option (\<lambda>(vs, r'). (JArr vs, r')) (read_items r))
          else if c = CHR 0x22 then map_option (\<lambda>(t, r'). (JStr t, r')) (read_chars r)
          else if c = CHR ''t'' then read_word ''true'' (JBool True) (c # r)
          else if c = CHR ''f'' then read_word ''false'' (JBool False) (c # r)
          else if c = CHR ''n'' then read_word ''null'' JNull (c # r)
          else map_option (\<lambda>(t, r'). (JNum t, r')) (read_number (c # r)))"
| "read_items s =
     (case read_value s of
        None \<Rightarrow> None
      | Some (v, r) \<Rightarrow>
          (case expect (CHR '']'') r of
             Some r' \<Rightarrow> Some ([v], r')
           | None \<Rightarrow>
               (case expect (CHR '','') r of
                  None \<Rightarrow> None
                | Some r' \<Rightarrow>
                    if length r' < length s
                    then map_option (\<lambda>(vs, r''). (v # vs, r'')) (read_items r') else None)))"
| "read_members acc s =
     (case expect (CHR 0x22) s of
        None \<Rightarrow> None
      | Some r1 \<Rightarrow>
          (case read_chars r1 of
             None \<Rightarrow> None
           | Some (k, r2) \<Rightarrow>
               (case expect (CHR '':'') r2 of
                  None \<Rightarrow> None
                | Some r3 \<Rightarrow>
                    if \<not> length r3 < length s then None
                    else (case read_value r3 of
                            None \<Rightarrow> None
                          | Some (v, r4) \<Rightarrow>
                              (case expect (CHR ''}'') r4 of
                                 Some r5 \<Rightarrow> Some (obj_put acc k v, r5)
                               | None \<Rightarrow>
                                   (case expect (CHR '','') r4 of
                                      None \<Rightarrow> None
                                    | Some r5 \<Rightarrow>
                                        if length r5 < length s
                                        then read_members (obj_put acc k v) r5 else None))))))"
  by pat_completeness auto
termination
  by (relation "measures [\<lambda>x. case x of Inl s \<Rightarrow> length s | Inr (Inl s) \<Rightarrow> length s | Inr (Inr (_, s)) \<Rightarrow> length s,
        \<lambda>x. case x of Inl _ \<Rightarrow> 0 | Inr _ \<Rightarrow> 1]") auto

declare read_value.simps [simp del] read_items.simps [simp del] read_members.simps [simp del]

text \<open>\<open>JSON.parse\<close>: \<open>None\<close> is a \<open>SyntaxError\<close>.\<close>

definition json_parse :: "string \<Rightarrow> jsval option" where
  "json_parse s =
     (case read_value s of
        None \<Rightarrow> None
      | Some (v, r) \<Rightarrow> if skip_ws r = [] then Some v else None)"

subsection \<open>Every construct consumes input\<close>

lemma read_hex4_shorter: "read_hex4 s = Some (u, r) \<Longrightarrow> length r < length s"
  by (cases s rule: read_hex4.cases) (auto split: option.splits)

lemma read_unicode_shorter: "read_unicode s = Some (t, r) \<Longrightarrow> length r < length s"
  by (auto simp: read_unicode_def split: option.splits if_splits dest!: read_hex4_shorter)

lemma read_escape_shorter: "read_escape s = Some (t, r) \<Longrightarrow> length r < length s"
  by (cases s) (auto split: if_splits dest: read_unicode_shorter)

lemma read_chars_shorter: "read_chars s = Some (t, r) \<Longrightarrow> length r < length s"
  by (induction s arbitrary: t r rule: read_chars.induct)
     (fastforce split: if_splits option.splits dest: read_escape_shorter)+

lemma skip_ws_le: "length (skip_ws s) \<le> length s"
  by (simp add: skip_ws_def length_dropWhile_le)

lemma expect_shorter: "expect c s = Some r \<Longrightarrow> length r < length s"
  using skip_ws_le [of s] by (auto simp: expect_def split: list.splits if_splits)

subsection \<open>What was written is read back\<close>

lemma hex_val_digit [simp]: "n < 16 \<Longrightarrow> hex_val (hex_digit n) = Some n"
  by (auto simp: hex_val_def hex_digit_def Let_def)

lemma read_hex4_hex4 [simp]:
  assumes "n < 65536"
  shows "read_hex4 (hex4 n @ r) = Some (n, r)"
proof -
  have "n div 4096 mod 16 * 4096 + n div 256 mod 16 * 256 + n div 16 mod 16 * 16 + n mod 16 = n"
  proof -
    define a b c where "a = n div 16" and "b = a div 16" and "c = b div 16"
    then have "n div 256 = b" and "n div 4096 = c"
      by (simp_all flip: div_mult2_eq)
    moreover have "n = 16 * a + n mod 16" "a = 16 * b + a mod 16" "b = 16 * c + b mod 16"
      by (simp_all add: a_def b_def c_def)
    moreover have "c < 16"
      using assms \<open>n div 4096 = c\<close> by auto
    ultimately show ?thesis by (simp add: a_def [symmetric])
  qed
  then show ?thesis
    by (simp del: mod_less add: hex4_def)
qed

lemma read_chars_esc:
  "read_chars (esc_char c @ s) = map_option (\<lambda>(u, r). (c # u, r)) (read_chars s)"
proof (cases "(of_char c :: nat) < 32")
  case True
  then have "read_unicode (hex4 (of_char c) @ s) = Some ([c], s)"
    by (simp add: read_unicode_def code_point_def)
  with True show ?thesis
    by (auto simp: esc_char_def hex4_def)
next
  case False
  then show ?thesis
    by (auto simp: esc_char_def)
qed

lemma json_escape_plain: "no_surrogate s \<Longrightarrow> json_escape s = concat (map esc_char s)"
  by (induction s) auto

lemma read_chars_quoted:
  assumes "valid_utf8 s"
  shows "read_chars (json_escape s @ CHR 0x22 # r) = Some (s, r)"
proof -
  have "read_chars (concat (map esc_char s) @ CHR 0x22 # r) = Some (s, r)"
    by (induction s) (simp_all add: read_chars_esc)
  with assms show ?thesis
    by (simp add: json_escape_plain valid_utf8_no_surrogate)
qed

lemma expect_hit [simp]: "\<not> json_ws c \<Longrightarrow> expect c (c # r) = Some r"
  by (simp add: expect_def skip_ws_def)

lemma expect_miss [simp]: "\<not> json_ws d \<Longrightarrow> d \<noteq> c \<Longrightarrow> expect c (d # r) = None"
  by (simp add: expect_def skip_ws_def)

lemma skip_ws_solid [simp]: "\<not> json_ws c \<Longrightarrow> skip_ws (c # r) = c # r"
  by (simp add: skip_ws_def)

lemma json_ws_punct [simp]:
  "\<not> json_ws (CHR ''['')" "\<not> json_ws (CHR '']'')" "\<not> json_ws (CHR ''{'')" "\<not> json_ws (CHR ''}'')"
  "\<not> json_ws (CHR '','')" "\<not> json_ws (CHR '':'')" "\<not> json_ws (CHR 0x22)" "\<not> json_ws (CHR ''t'')"
  "\<not> json_ws (CHR ''f'')" "\<not> json_ws (CHR ''n'')"
  by (simp_all add: json_ws_def)

text \<open>
  The values whose text determines them: no \<open>undefined\<close>, no numbers (whose text JavaScript may
  rewrite), well-formed Unicode, and no repeated key.
\<close>

fun json_plain :: "jsval \<Rightarrow> bool" where
  "json_plain JNull = True"
| "json_plain (JBool _) = True"
| "json_plain (JStr s) = valid_utf8 s"
| "json_plain (JArr vs) = (\<forall>v \<in> set vs. json_plain v)"
| "json_plain (JObj kvs) =
     (distinct (map fst kvs) \<and> (\<forall>kv \<in> set kvs. valid_utf8 (fst kv) \<and> json_plain (snd kv)))"
| "json_plain _ = False"

lemma json_stringify_head:
  assumes "json_plain v"
  obtains c t where "json_stringify v = c # t" and "\<not> json_ws c" and "c \<noteq> CHR '']''" "c \<noteq> CHR ''}''"
proof (cases v)
  case (JBool b)
  with that show ?thesis by (cases b) simp_all
qed (use assms that in \<open>auto simp: json_quote_def\<close>)

lemma commas_Cons: "commas (x # xs) = x @ (if xs = [] then [] else CHR '','' # commas xs)"
  by (cases xs) auto

lemma read_items_written:
  assumes "vs \<noteq> []" and "\<And>v r. v \<in> set vs \<Longrightarrow> read_value (json_stringify v @ r) = Some (v, r)"
  shows "read_items (commas (map json_stringify vs) @ CHR '']'' # r) = Some (vs, r)"
  using assms
proof (induction vs)
  case (Cons v vs)
  show ?case
  proof (cases "vs = []")
    case True
    with Cons.prems(2) show ?thesis
      by (subst read_items.simps) (simp add: commas_Cons)
  next
    case False
    then have "read_items (commas (map json_stringify vs) @ CHR '']'' # r) = Some (vs, r)"
      using Cons by simp
    with False Cons.prems(2) show ?thesis
      by (subst read_items.simps) (simp add: commas_Cons)
  qed
qed simp

definition member_text :: "string \<times> jsval \<Rightarrow> string" where
  "member_text kv = json_quote (fst kv) @ CHR '':'' # json_stringify (snd kv)"

lemma read_members_written:
  assumes "kvs \<noteq> []" and "distinct (map fst (acc @ kvs))"
    and "\<And>kv r. kv \<in> set kvs \<Longrightarrow> valid_utf8 (fst kv) \<and> read_value (json_stringify (snd kv) @ r) = Some (snd kv, r)"
  shows "read_members acc (commas (map member_text kvs) @ CHR ''}'' # r) = Some (acc @ kvs, r)"
  using assms
proof (induction kvs arbitrary: acc)
  case (Cons kv kvs)
  obtain k v where kv: "kv = (k, v)" by (cases kv)
  with Cons.prems have k: "valid_utf8 k" and v: "\<And>r. read_value (json_stringify v @ r) = Some (v, r)"
    and put: "obj_put acc k v = acc @ [kv]"
    by (force simp: obj_put_def)+
  show ?case
  proof (cases "kvs = []")
    case True
    with k v put kv show ?thesis
      by (subst read_members.simps) (simp add: commas_Cons member_text_def json_quote_def read_chars_quoted)
  next
    case False
    then have "read_members (acc @ [kv]) (commas (map member_text kvs) @ CHR ''}'' # r)
        = Some ((acc @ [kv]) @ kvs, r)"
      using Cons.IH [of "acc @ [kv]"] Cons.prems by simp
    with False k v put kv show ?thesis
      by (subst read_members.simps) (simp add: commas_Cons member_text_def json_quote_def read_chars_quoted)
  qed
qed simp

lemma json_plain_defined: "json_plain (JObj kvs) \<Longrightarrow> filter (\<lambda>(k, v). v \<noteq> JUndefined) kvs = kvs"
  by (auto simp: filter_id_conv)

lemma json_stringify_obj:
  "json_plain (JObj kvs) \<Longrightarrow> json_stringify (JObj kvs) = CHR ''{'' # commas (map member_text kvs) @ ''}''"
  by (simp only: json_stringify.simps json_plain_defined)
     (simp add: member_text_def [abs_def] case_prod_unfold)

lemma read_value_written: "json_plain v \<Longrightarrow> read_value (json_stringify v @ r) = Some (v, r)"
proof (induction v arbitrary: r)
  case (JArr vs)
  show ?case
  proof (cases vs)
    case (Cons w ws)
    obtain c t where ct: "json_stringify w = c # t" "\<not> json_ws c" "c \<noteq> CHR '']''"
      using JArr.prems Cons by (auto elim: json_stringify_head)
    have "read_items (commas (map json_stringify vs) @ CHR '']'' # r) = Some (vs, r)"
      by (rule read_items_written) (use JArr Cons in auto)
    then show ?thesis
      using ct by (subst read_value.simps) (simp add: Cons commas_Cons)
  qed (subst read_value.simps, simp)
next
  case (JObj kvs)
  show ?case
  proof (cases kvs)
    case (Cons kv kws)
    have "read_members [] (commas (map member_text kvs) @ CHR ''}'' # r) = Some ([] @ kvs, r)"
      by (rule read_members_written) (use JObj Cons in \<open>auto simp: snds.simps, metis sndI\<close>)
    then show ?thesis
      unfolding json_stringify_obj [OF JObj.prems]
      by (subst read_value.simps) (simp add: Cons commas_Cons member_text_def json_quote_def)
  qed (subst read_value.simps, simp)
next
  case (JStr s)
  then show ?case
    by (subst read_value.simps) (simp add: json_quote_def read_chars_quoted)
next
  case JNull
  then show ?case
    by (subst read_value.simps) (simp add: read_word_def startsWith_def)
next
  case (JBool b)
  then show ?case
    by (subst read_value.simps) (simp add: read_word_def startsWith_def)
qed simp_all

lemma json_roundtrip [simp, codec_simps]: "json_plain v \<Longrightarrow> json_parse (json_stringify v) = Some v"
  using read_value_written [of v "[]"] by (simp add: json_parse_def skip_ws_def)

interpretation json: codec json_stringify json_parse json_plain
  by unfold_locales simp

subsection \<open>Written text is well-formed UTF-8\<close>

lemma ascii_hex_digit [simp]: "n < 16 \<Longrightarrow> ascii (hex_digit n)"
  by (auto simp: ascii_def in_range_def hex_digit_def)

lemma ascii_hex4 [simp]: "list_all ascii (hex4 n)"
  by (simp add: hex4_def)

lemma ascii_literals [simp]:
  "ascii (CHR 0x22)" "ascii (CHR 0x5C)" "ascii (CHR 0x08)" "ascii (CHR 0x09)" "ascii (CHR 0x0A)"
  "ascii (CHR 0x0C)" "ascii (CHR 0x0D)" "ascii (CHR ''b'')" "ascii (CHR ''t'')" "ascii (CHR ''n'')"
  "ascii (CHR ''f'')" "ascii (CHR ''r'')" "ascii (CHR ''u'')" "ascii (CHR ''['')" "ascii (CHR '']'')"
  "ascii (CHR ''{'')" "ascii (CHR ''}'')" "ascii (CHR '','')" "ascii (CHR '':'')"
  by (simp_all add: ascii_def in_range_def)

lemma ascii_esc_char: "ascii c \<Longrightarrow> list_all ascii (esc_char c)"
  unfolding esc_char_def by (simp split: if_split)

lemma esc_char_high:
  assumes "\<not> ascii c"
  shows "esc_char c = [c]"
proof -
  have "c \<noteq> d" if "ascii d" for d
    using assms that by blast
  moreover have "\<not> (of_char c :: nat) < 32"
    using assms by (simp add: ascii_def in_range_def)
  ultimately show ?thesis
    unfolding esc_char_def by (simp only: ascii_literals if_False)
qed

lemma valid_utf8_concat_esc: "valid_utf8 s \<Longrightarrow> valid_utf8 (concat (map esc_char s))"
proof (induction rule: valid_utf8_induct)
  case (ascii c s)
  then show ?case
    by (simp add: valid_utf8_append valid_utf8_all_ascii ascii_esc_char)
next
  case (high p s)
  from high.hyps(2) have "concat (map esc_char p) = p"
    by (induction p) (auto simp: esc_char_high)
  with high show ?case by (simp add: valid_utf8_append)
qed simp


lemma valid_utf8_commas: "(\<And>x. x \<in> set xs \<Longrightarrow> valid_utf8 x) \<Longrightarrow> valid_utf8 (commas xs)"
  by (induction xs rule: commas.induct) (auto simp: in_range_def intro!: valid_utf8_append)

lemma valid_utf8_bracketed:
  "ascii a \<Longrightarrow> ascii b \<Longrightarrow> valid_utf8 s \<Longrightarrow> valid_utf8 (a # s @ [b])"
  by (simp add: ascii_def valid_utf8_append)

lemma valid_utf8_ascii_Cons: "ascii a \<Longrightarrow> valid_utf8 s \<Longrightarrow> valid_utf8 (a # s)"
  by (simp add: ascii_def)

lemma valid_utf8_quote: "valid_utf8 s \<Longrightarrow> valid_utf8 (json_quote s)"
  unfolding json_quote_def
  by (intro valid_utf8_bracketed)
     (simp_all add: json_escape_plain valid_utf8_no_surrogate valid_utf8_concat_esc)

lemma valid_utf8_stringify [simp]: "json_plain v \<Longrightarrow> valid_utf8 (json_stringify v)"
proof (induction v)
  case (JArr vs)
  then show ?case
    by (auto intro!: valid_utf8_bracketed valid_utf8_commas simp del: append_Cons)
next
  case (JObj kvs)
  have "valid_utf8 (member_text kv)" if "kv \<in> set kvs" for kv
  proof -
    from JObj.IH [of kv "snd kv"] JObj.prems that have "valid_utf8 (json_stringify (snd kv))"
      by (auto simp: snds.simps)
    with JObj.prems that show ?thesis
      by (auto simp: member_text_def intro!: valid_utf8_append valid_utf8_quote valid_utf8_ascii_Cons)
  qed
  then show ?case
    unfolding json_stringify_obj [OF JObj.prems]
    by (auto intro!: valid_utf8_bracketed valid_utf8_commas)
qed (auto simp: valid_utf8_quote ascii_def in_range_def intro!: valid_utf8_all_ascii)

text \<open>The text of a plain value, as bytes on the wire, is a codec again.\<close>

interpretation json_utf8: codec_chain json_stringify json_parse json_plain
    utf8_encode "\<lambda>bs. Some (utf8_decode rt bs)" valid_utf8 for rt
  by unfold_locales simp

end
