(* ===== verification/Errors.thy ===== *)
theory Errors
  imports Json
begin

text \<open>
  The typed errors of \<open>errors/issuer.exception.ts\<close> and the other exceptions a request can end in.
  A plain \<open>Error\<close> reaches the client as a 500; a unique violation is the database driver's error
  with code 23505.
\<close>

datatype issuer_code =
    REQUEST_INVALID
  | BUNDLE_SIZE
  | BLANK_FORMAT
  | CLAIM_INVALID
  | IDEMPOTENCY_CONFLICT
  | RATE_LIMITED
  | WRONG_EPOCH
  | RECEIPT_INVALID
  | ENTITLEMENT_UNKNOWN
  | NOT_DUE

fun STATUS :: "issuer_code \<Rightarrow> nat" where
  "STATUS REQUEST_INVALID = 400"
| "STATUS BUNDLE_SIZE = 400"
| "STATUS BLANK_FORMAT = 400"
| "STATUS CLAIM_INVALID = 402"
| "STATUS IDEMPOTENCY_CONFLICT = 409"
| "STATUS RATE_LIMITED = 429"
| "STATUS WRONG_EPOCH = 400"
| "STATUS RECEIPT_INVALID = 400"
| "STATUS ENTITLEMENT_UNKNOWN = 404"
| "STATUS NOT_DUE = 409"

datatype failure =
    IssuerException issuer_code string
  | UniqueViolation
  | Error string

definition isUniqueViolation :: "failure \<Rightarrow> bool" where
  "isUniqueViolation e \<longleftrightarrow> e = UniqueViolation"

text \<open>The HTTP status Nest answers with when a handler throws.\<close>

fun http_status :: "failure \<Rightarrow> nat" where
  "http_status (IssuerException code _) = STATUS code"
| "http_status UniqueViolation = 500"
| "http_status (Error _) = 500"

end
