(* ===== verification/Config.thy ===== *)
theory Config
  imports Errors
begin

text \<open>
  \<open>config/issuer.config.ts\<close>: the issuer's configuration and how it is read from the environment.
  The environment is a map from variable names to values.
\<close>

record issuer_config =
  bundleSize :: nat
  blankSizeBytes :: nat
  signatureSizeBytes :: nat
  keyringPath :: string
  keyringReloadSeconds :: nat
  rateLimitMax :: nat
  rateLimitWindowSeconds :: nat
  proxyPublicKeyPath :: string
  bundlePrice :: string
  reconciliationIntervalSeconds :: nat
  signingWorkers :: nat
  useNativeRsa :: bool
  signingTimeoutMs :: nat
  entitlementDripIntervalSeconds :: nat

definition nonNegativeInt :: "runtime \<Rightarrow> string option \<Rightarrow> nat \<Rightarrow> string \<Rightarrow> failure + nat" where
  "nonNegativeInt rt value fallback name =
     (case value of
        None \<Rightarrow> Inr fallback
      | Some v \<Rightarrow>
          if v = [] then Inr fallback
          else (case js_Number rt v of
                  Integer n \<Rightarrow>
                    if n < 0
                    then Inl (Error (name @ '' must be a non-negative integer, got '' @ json_quote v))
                    else Inr (nat n)
                | _ \<Rightarrow> Inl (Error (name @ '' must be a non-negative integer, got '' @ json_quote v))))"

definition positiveInt :: "runtime \<Rightarrow> string option \<Rightarrow> nat \<Rightarrow> string \<Rightarrow> failure + nat" where
  "positiveInt rt value fallback name =
     (case value of
        None \<Rightarrow> Inr fallback
      | Some v \<Rightarrow>
          if v = [] then Inr fallback
          else (case js_Number rt v of
                  Integer n \<Rightarrow>
                    if n \<le> 0
                    then Inl (Error (name @ '' must be a positive integer, got '' @ json_quote v))
                    else Inr (nat n)
                | _ \<Rightarrow> Inl (Error (name @ '' must be a positive integer, got '' @ json_quote v))))"

text \<open>\<open>env.NAME ?? fallback\<close>\<close>

definition env_or :: "(string \<rightharpoonup> string) \<Rightarrow> string \<Rightarrow> string \<Rightarrow> string" where
  "env_or env name fallback = (case env name of None \<Rightarrow> fallback | Some v \<Rightarrow> v)"

definition loadIssuerConfig :: "runtime \<Rightarrow> (string \<rightharpoonup> string) \<Rightarrow> failure + issuer_config" where
  "loadIssuerConfig rt env =
     (let pos = (\<lambda>name fallback. positiveInt rt (env name) fallback name) in
      case pos ''BUNDLE_SIZE'' 10 of Inl e \<Rightarrow> Inl e | Inr bs \<Rightarrow>
      (case pos ''BLANK_SIZE_BYTES'' 256 of Inl e \<Rightarrow> Inl e | Inr bb \<Rightarrow>
      (case pos ''SIGNATURE_SIZE_BYTES'' 256 of Inl e \<Rightarrow> Inl e | Inr sb \<Rightarrow>
      (case pos ''KEYRING_RELOAD_SECONDS'' 30 of Inl e \<Rightarrow> Inl e | Inr kr \<Rightarrow>
      (case pos ''RATE_LIMIT_MAX'' 60 of Inl e \<Rightarrow> Inl e | Inr rm \<Rightarrow>
      (case pos ''RATE_LIMIT_WINDOW_SECONDS'' 60 of Inl e \<Rightarrow> Inl e | Inr rw \<Rightarrow>
      (case pos ''RECONCILIATION_INTERVAL_SECONDS'' 60 of Inl e \<Rightarrow> Inl e | Inr ri \<Rightarrow>
      (case nonNegativeInt rt (env ''SIGNING_WORKERS'') 4 ''SIGNING_WORKERS'' of Inl e \<Rightarrow> Inl e | Inr sw \<Rightarrow>
      (case pos ''SIGNING_TIMEOUT_MS'' 10000 of Inl e \<Rightarrow> Inl e | Inr st \<Rightarrow>
      (case pos ''ENTITLEMENT_DRIP_INTERVAL_SECONDS'' 86400 of Inl e \<Rightarrow> Inl e | Inr ed \<Rightarrow>
        Inr \<lparr>bundleSize = bs, blankSizeBytes = bb, signatureSizeBytes = sb,
             keyringPath = env_or env ''KEYRING_PATH'' ''config/keys/keyring.json'',
             keyringReloadSeconds = kr, rateLimitMax = rm, rateLimitWindowSeconds = rw,
             proxyPublicKeyPath = env_or env ''PROXY_PUBLIC_KEY_PATH'' ''config/keys/proxy.pub.pem'',
             bundlePrice = env_or env ''BUNDLE_PRICE'' ''1.00'',
             reconciliationIntervalSeconds = ri, signingWorkers = sw,
             useNativeRsa = (env_or env ''SIGNING_NATIVE_RSA'' ''true'' \<noteq> ''false''),
             signingTimeoutMs = st, entitlementDripIntervalSeconds = ed\<rparr>))))))))))"

text \<open>The configurations the service runs with: every size and period is at least one.\<close>

definition config_ok :: "issuer_config \<Rightarrow> bool" where
  "config_ok cfg \<longleftrightarrow>
     0 < bundleSize cfg \<and> 0 < blankSizeBytes cfg \<and> 0 < signatureSizeBytes cfg
     \<and> 0 < keyringReloadSeconds cfg \<and> 0 < rateLimitMax cfg \<and> 0 < rateLimitWindowSeconds cfg
     \<and> 0 < reconciliationIntervalSeconds cfg \<and> 0 < signingTimeoutMs cfg
     \<and> 0 < entitlementDripIntervalSeconds cfg"

lemma positiveInt_positive: "positiveInt rt v fallback name = Inr n \<Longrightarrow> 0 < fallback \<Longrightarrow> 0 < n"
  by (auto simp: positiveInt_def split: option.splits if_splits jsnumber.splits)

lemma loadIssuerConfig_positive:
  assumes "loadIssuerConfig rt env = Inr cfg"
  shows "config_ok cfg"
proof -
  have pos: "positiveInt rt v (numeral k) name = Inr n \<Longrightarrow> 0 < n" for v k name n
    by (erule positiveInt_positive) simp
  from assms show ?thesis
    unfolding loadIssuerConfig_def Let_def config_ok_def
    apply (elim result_caseE)
    apply (drule pos)+
    apply clarsimp
    done
qed

text \<open>A numeral written out in decimal is read back; a zero is refused where a positive number is
  wanted.\<close>

lemma positiveInt_show:
  "n \<le> max_safe \<Longrightarrow>
     positiveInt rt (Some (show_nat n)) fallback name =
       (if n = 0 then Inl (Error (name @ '' must be a positive integer, got '' @ json_quote (show_nat n)))
        else Inr n)"
  by (simp add: positiveInt_def)

lemma loadIssuerConfig_defaults:
  "loadIssuerConfig rt Map.empty =
     Inr \<lparr>bundleSize = 10, blankSizeBytes = 256, signatureSizeBytes = 256,
          keyringPath = ''config/keys/keyring.json'', keyringReloadSeconds = 30,
          rateLimitMax = 60, rateLimitWindowSeconds = 60,
          proxyPublicKeyPath = ''config/keys/proxy.pub.pem'', bundlePrice = ''1.00'',
          reconciliationIntervalSeconds = 60, signingWorkers = 4, useNativeRsa = True,
          signingTimeoutMs = 10000, entitlementDripIntervalSeconds = 86400\<rparr>"
  by (simp add: loadIssuerConfig_def positiveInt_def nonNegativeInt_def env_or_def)

end
