(* ===== verification/BundleRequest.thy ===== *)
theory BundleRequest
  imports Config
begin

text \<open>
  \<open>issuance/bundle-request.ts\<close>: the validation every purchase and pickup passes before anything is
  signed. It looks at shape, count and size, in that order, and keeps the blanks as the text they
  arrived in.
\<close>

record bundle_request =
  req_epoch :: string
  blinded_blanks :: "string list"

definition blank_format_error :: "issuer_config \<Rightarrow> nat \<Rightarrow> failure" where
  "blank_format_error config index =
     IssuerException BLANK_FORMAT
       (''blinded blank at index '' @ show_nat index @ '' must be '' @ show_nat (blankSizeBytes config)
        @ '' base64-encoded bytes'')"

text \<open>The loop \<open>for (const [index, blank] of blanks.entries())\<close>.\<close>

fun check_blanks :: "runtime \<Rightarrow> issuer_config \<Rightarrow> nat \<Rightarrow> jsval list \<Rightarrow> failure + string list" where
  "check_blanks rt config index [] = Inr []"
| "check_blanks rt config index (blank # blanks) =
     (case decodeStrictBase64 rt blank of
        None \<Rightarrow> Inl (blank_format_error config index)
      | Some decoded \<Rightarrow>
          if length decoded \<noteq> blankSizeBytes config then Inl (blank_format_error config index)
          else (case check_blanks rt config (Suc index) blanks of
                  Inl e \<Rightarrow> Inl e
                | Inr rest \<Rightarrow> Inr ((case blank of JStr s \<Rightarrow> s | _ \<Rightarrow> []) # rest)))"

definition validateBundleRequest :: "runtime \<Rightarrow> jsval \<Rightarrow> issuer_config \<Rightarrow> failure + bundle_request" where
  "validateBundleRequest rt body config =
     (if \<not> is_object body
      then Inl (IssuerException REQUEST_INVALID ''request body must be a JSON object'')
      else (case nonempty_string (get_prop body ''epoch'') of
        None \<Rightarrow> Inl (IssuerException REQUEST_INVALID ''epoch must be a non-empty string'')
      | Some epoch \<Rightarrow>
          (case get_prop body ''blinded_blanks'' of
             JArr blanks \<Rightarrow>
               if length blanks \<noteq> bundleSize config
               then Inl (IssuerException BUNDLE_SIZE
                      (''expected exactly '' @ show_nat (bundleSize config) @ '' blinded blanks, got ''
                       @ show_nat (length blanks)))
               else (case check_blanks rt config 0 blanks of
                       Inl e \<Rightarrow> Inl e
                     | Inr bs \<Rightarrow> Inr \<lparr>req_epoch = epoch, blinded_blanks = bs\<rparr>)
           | _ \<Rightarrow> Inl (IssuerException BLANK_FORMAT
                      ''blinded_blanks must be an array of base64 strings''))))"

subsection \<open>What is accepted\<close>

lemma check_blanks_Inr_iff:
  assumes "0 < blankSizeBytes config"
  shows "check_blanks rt config i vs = Inr ss \<longleftrightarrow>
    (\<exists>bss. (\<forall>bs \<in> set bss. length bs = blankSizeBytes config)
       \<and> ss = map bytesToBase64 bss \<and> vs = map JStr ss)"
proof (induction vs arbitrary: i ss)
  case Nil
  then show ?case by auto
next
  case (Cons v vs)
  have len: "length bs = blankSizeBytes config \<Longrightarrow> bs \<noteq> []" for bs :: bytes
    using assms by auto
  show ?case
  proof
    assume "check_blanks rt config i (v # vs) = Inr ss"
    then obtain bs rest where bs: "v = JStr (bytesToBase64 bs)" "length bs = blankSizeBytes config"
      and rest: "check_blanks rt config (Suc i) vs = Inr rest" and ss: "ss = bytesToBase64 bs # rest"
      by (auto split: option.splits if_splits sum.splits simp: decodeStrictBase64_iff)
    from rest obtain bss where "\<forall>bs \<in> set bss. length bs = blankSizeBytes config"
      and "rest = map bytesToBase64 bss" and "vs = map JStr rest"
      unfolding Cons.IH by blast
    with bs ss show "\<exists>bss. (\<forall>bs \<in> set bss. length bs = blankSizeBytes config)
       \<and> ss = map bytesToBase64 bss \<and> v # vs = map JStr ss"
      by (intro exI [of _ "bs # bss"]) simp
  next
    assume "\<exists>bss. (\<forall>bs \<in> set bss. length bs = blankSizeBytes config)
       \<and> ss = map bytesToBase64 bss \<and> v # vs = map JStr ss"
    then obtain b bss where "length b = blankSizeBytes config"
      and bss: "\<forall>bs \<in> set bss. length bs = blankSizeBytes config"
      and ss: "ss = bytesToBase64 b # map bytesToBase64 bss"
      and v: "v = JStr (bytesToBase64 b)" "vs = map JStr (map bytesToBase64 bss)"
      by (auto simp: Cons_eq_map_conv map_eq_Cons_conv)
    moreover have "decodeStrictBase64 rt v = Some b"
      using v len calculation by (simp add: decodeStrictBase64_iff)
    moreover have "check_blanks rt config (Suc i) vs = Inr (map bytesToBase64 bss)"
      unfolding Cons.IH using bss v by blast
    ultimately show "check_blanks rt config i (v # vs) = Inr ss"
      by simp
  qed
qed

lemma check_blanks_error:
  "check_blanks rt config i vs = Inl e \<Longrightarrow> \<exists>j. j < length vs \<and> e = blank_format_error config (i + j)"
proof (induction vs arbitrary: i)
  case (Cons v vs)
  then show ?case
  proof (cases "\<exists>d. decodeStrictBase64 rt v = Some d \<and> length d = blankSizeBytes config")
    case True
    with Cons.prems have "check_blanks rt config (Suc i) vs = Inl e"
      by (auto split: sum.splits)
    from Cons.IH [OF this] obtain j where "j < length vs" "e = blank_format_error config (Suc i + j)"
      by blast
    then show ?thesis by (intro exI [of _ "Suc j"]) simp
  next
    case False
    with Cons.prems have "e = blank_format_error config i"
      by (auto split: option.splits if_splits)
    then show ?thesis by (intro exI [of _ 0]) simp
  qed
qed simp

lemma validateBundleRequest_Inr:
  assumes "validateBundleRequest rt body config = Inr req"
  obtains vs where "get_prop body ''epoch'' = JStr (req_epoch req)" and "req_epoch req \<noteq> []"
    and "get_prop body ''blinded_blanks'' = JArr vs" and "length vs = bundleSize config"
    and "check_blanks rt config 0 vs = Inr (blinded_blanks req)" and "is_object body"
  using assms
  by (auto simp: validateBundleRequest_def split: if_splits option.splits jsval.splits sum.splits)

lemma check_blanks_length: "check_blanks rt config i vs = Inr ss \<Longrightarrow> length ss = length vs"
  by (induction vs arbitrary: i ss) (auto split: option.splits if_splits sum.splits)

lemma validateBundleRequest_count:
  "validateBundleRequest rt body config = Inr req \<Longrightarrow> length (blinded_blanks req) = bundleSize config"
  by (auto elim!: validateBundleRequest_Inr dest: check_blanks_length)

end
