(* ===== verification/Database.thy ===== *)
theory Database
  imports Config
begin

text \<open>
  The tables of the issuer's database, one record per entity and one list of rows per table, with the
  keys the entities and the migrations declare. Generated surrogate ids (\<open>issuance_record.id\<close>,
  \<open>reconciliation_alarm.id\<close>) are left out: nothing reads them. Instants are milliseconds.
  The counters are 64-bit in the database and doubles in the program; both are exact on the values a
  deployment can reach, and are integers here.
\<close>

record issuance_row =
  ir_paymentRef :: string
  ir_epoch :: string
  ir_bundleCount :: int
  ir_timestamp :: millis

record idempotency_row =
  id_paymentRef :: string
  id_idempotencyKey :: string
  id_requestFingerprint :: string
  id_createdAt :: millis

datatype rejection_reason = missing | malformed | bad_signature | amount_mismatch

record rejection_row =
  cr_reason :: rejection_reason
  cr_count :: int
  cr_updatedAt :: millis

record counter_row =
  ec_epoch :: string
  ec_bundleSize :: int
  ec_bundlesPaid :: int
  ec_signaturesIssued :: int
  ec_updatedAt :: millis

datatype alarm_kind = overissuance | underissuance | ledger_mismatch

record alarm_row =
  al_epoch :: string
  al_kind :: alarm_kind
  al_expected :: int
  al_actual :: int
  al_delta :: int
  al_raisedAt :: millis

record entitlement_row =
  en_entitlementId :: string
  en_receiptHash :: string
  en_dripIntervalSeconds :: int
  en_nextDripAt :: millis
  en_dripsIssued :: int
  en_createdAt :: millis

record db =
  issuance_record :: "issuance_row list"
  idempotency_record :: "idempotency_row list"
  claim_rejection :: "rejection_row list"
  epoch_counter :: "counter_row list"
  reconciliation_alarm :: "alarm_row list"
  entitlement :: "entitlement_row list"

definition empty_db :: db where
  "empty_db = \<lparr>issuance_record = [], idempotency_record = [], claim_rejection = [],
     epoch_counter = [], reconciliation_alarm = [], entitlement = []\<rparr>"

text \<open>\<open>INSERT ... ON CONFLICT (key) DO UPDATE\<close>, and the key's uniqueness it relies on.\<close>

definition upsert :: "('r \<Rightarrow> 'k) \<Rightarrow> 'r \<Rightarrow> ('r \<Rightarrow> 'r) \<Rightarrow> 'r list \<Rightarrow> 'r list" where
  "upsert key new upd rows =
     (if key new \<in> set (map key rows)
      then map (\<lambda>r. if key r = key new then upd r else r) rows
      else rows @ [new])"

text \<open>A transaction whose body throws leaves the database as it was.\<close>

definition transaction :: "(db \<Rightarrow> failure + 'a \<times> db) \<Rightarrow> db \<Rightarrow> (failure + 'a) \<times> db" where
  "transaction body d = (case body d of Inl e \<Rightarrow> (Inl e, d) | Inr (a, d') \<Rightarrow> (Inr a, d'))"

lemma transaction_Inl: "transaction body d = (Inl e, d') \<Longrightarrow> d' = d"
  by (auto simp: transaction_def split: sum.splits prod.splits)

lemma transaction_Inr: "transaction body d = (Inr a, d') \<longleftrightarrow> body d = Inr (a, d')"
  by (auto simp: transaction_def split: sum.splits prod.splits)

subsection \<open>An upsert keeps the key and changes one row\<close>

text \<open>
  The interface: a table with a key, read by \<open>lookup\<close>. Whatever the rows are, an upsert whose update
  keeps the key behaves like updating a map.
\<close>

locale keyed_table =
  fixes key :: "'r \<Rightarrow> 'k" and lookup :: "'k \<Rightarrow> 'r list \<Rightarrow> 'r option"
    and put :: "'r \<Rightarrow> ('r \<Rightarrow> 'r) \<Rightarrow> 'r list \<Rightarrow> 'r list"
  assumes lookup_put:
      "(\<And>r. key (upd r) = key r) \<Longrightarrow>
         lookup k (put new upd rows) =
           (if k = key new then Some (case lookup k rows of None \<Rightarrow> new | Some r \<Rightarrow> upd r)
            else lookup k rows)"
    and keys_put:
      "(\<And>r. key (upd r) = key r) \<Longrightarrow> set (map key (put new upd rows)) = insert (key new) (set (map key rows))"
    and distinct_put:
      "(\<And>r. key (upd r) = key r) \<Longrightarrow> distinct (map key rows) \<Longrightarrow> distinct (map key (put new upd rows))"
begin

text \<open>Two writes to different keys do not see each other; two to one key add up.\<close>

lemma put_other:
  "(\<And>r. key (upd r) = key r) \<Longrightarrow> k \<noteq> key new \<Longrightarrow> lookup k (put new upd rows) = lookup k rows"
  by (simp add: lookup_put)

lemma put_twice:
  assumes "\<And>r. key (upd r) = key r" and "\<And>r. key (upd' r) = key r" and "key new' = key new"
  shows "lookup (key new) (put new' upd' (put new upd rows)) =
    Some (upd' (case lookup (key new) rows of None \<Rightarrow> new | Some r \<Rightarrow> upd r))"
  using assms by (simp add: lookup_put)

end

definition lookup_by :: "('r \<Rightarrow> 'k) \<Rightarrow> 'k \<Rightarrow> 'r list \<Rightarrow> 'r option" where
  "lookup_by key k rows = List.find (\<lambda>r. key r = k) rows"

lemma lookup_by_map_update:
  assumes "\<And>r. key (upd r) = key r"
  shows "lookup_by key k (map (\<lambda>r. if key r = k' then upd r else r) rows) =
    (if k = k' then map_option upd (lookup_by key k rows) else lookup_by key k rows)"
  by (induction rows) (auto simp: lookup_by_def assms)

lemma lookup_by_append:
  "lookup_by key k (rows @ [new]) =
     (case lookup_by key k rows of None \<Rightarrow> if key new = k then Some new else None | Some r \<Rightarrow> Some r)"
  by (induction rows) (auto simp: lookup_by_def)

lemma lookup_by_None: "lookup_by key k rows = None \<longleftrightarrow> k \<notin> set (map key rows)"
  by (simp add: lookup_by_def find_key_None)

lemma map_key_update:
  assumes "\<And>r. key (upd r) = key r"
  shows "map key (map (\<lambda>r. if key r = k then upd r else r) rows) = map key rows"
  by (induction rows) (auto simp: assms)

interpretation table: keyed_table key "lookup_by key" "upsert key" for key
proof
  fix upd :: "'a \<Rightarrow> 'a" and k :: 'b and new rows
  assume upd: "\<And>r. key (upd r) = key r"
  show "lookup_by key k (upsert key new upd rows) =
      (if k = key new then Some (case lookup_by key k rows of None \<Rightarrow> new | Some r \<Rightarrow> upd r)
       else lookup_by key k rows)"
  proof (cases "lookup_by key (key new) rows")
    case None
    then have "key new \<notin> set (map key rows)" by (simp add: lookup_by_None)
    with None show ?thesis
      by (auto simp: upsert_def lookup_by_append split: option.splits)
  next
    case (Some r)
    then have "key new \<in> set (map key rows)" by (metis lookup_by_None option.discI)
    with Some show ?thesis
      by (auto simp: upsert_def lookup_by_map_update upd)
  qed
  show "set (map key (upsert key new upd rows)) = insert (key new) (set (map key rows))"
  proof (cases "key new \<in> set (map key rows)")
    case True
    then show ?thesis
      unfolding upsert_def by (simp only: if_True map_key_update [of key upd, OF upd] insert_absorb)
  qed (simp add: upsert_def)
  show "distinct (map key rows) \<Longrightarrow> distinct (map key (upsert key new upd rows))"
    by (auto simp: upsert_def map_key_update upd simp del: map_map)
qed

end
