(* ===== verification/Accounting.thy ===== *)
theory Accounting
  imports Database "HOL-Library.List_Lexorder" "HOL-Library.Char_ord"
begin

text \<open>
  \<open>accounting/\<close>: the per-epoch counters, the reconciliation cycle and its alarms. The two counters of
  an epoch are written by separate statements and only ever compared; the cycle also compares
  \<open>bundles_paid\<close> with the issuance ledger.
\<close>

subsection \<open>Epoch counters\<close>

definition recordBundlePaid :: "millis \<Rightarrow> string \<Rightarrow> int \<Rightarrow> db \<Rightarrow> db" where
  "recordBundlePaid now epoch k d =
     d\<lparr>epoch_counter :=
         upsert ec_epoch
           \<lparr>ec_epoch = epoch, ec_bundleSize = k, ec_bundlesPaid = 1, ec_signaturesIssued = 0,
            ec_updatedAt = now\<rparr>
           (\<lambda>r. r\<lparr>ec_bundlesPaid := ec_bundlesPaid r + 1, ec_updatedAt := now\<rparr>)
           (epoch_counter d)\<rparr>"

definition recordSignaturesIssued :: "millis \<Rightarrow> string \<Rightarrow> int \<Rightarrow> int \<Rightarrow> db \<Rightarrow> db" where
  "recordSignaturesIssued now epoch signatures k d =
     d\<lparr>epoch_counter :=
         upsert ec_epoch
           \<lparr>ec_epoch = epoch, ec_bundleSize = k, ec_bundlesPaid = 0,
            ec_signaturesIssued = signatures, ec_updatedAt = now\<rparr>
           (\<lambda>r. r\<lparr>ec_signaturesIssued := ec_signaturesIssued r + signatures, ec_updatedAt := now\<rparr>)
           (epoch_counter d)\<rparr>"

text \<open>\<open>find({ order: { epoch: 'ASC' } })\<close>, in the order of the characters.\<close>

definition all_counters :: "db \<Rightarrow> counter_row list" where
  "all_counters d = sort_key ec_epoch (epoch_counter d)"

definition forEpoch :: "string \<Rightarrow> db \<Rightarrow> counter_row option" where
  "forEpoch epoch d = lookup_by ec_epoch epoch (epoch_counter d)"

subsection \<open>Reconciliation\<close>

record epoch_reconciliation =
  rc_epoch :: string
  rc_bundleSize :: int
  rc_bundlesPaid :: int
  rc_signaturesIssued :: int
  rc_expectedSignatures :: int
  rc_delta :: int
  rc_ledgerBundles :: int
  rc_ledgerDelta :: int
  rc_alarms :: "alarm_kind list"

text \<open>\<open>SELECT epoch, SUM(bundle_count) FROM issuance_record GROUP BY epoch\<close>, as a \<open>Map\<close>.\<close>

definition ledgerBundlesByEpoch :: "db \<Rightarrow> (string \<rightharpoonup> int)" where
  "ledgerBundlesByEpoch d epoch =
     (if epoch \<in> set (map ir_epoch (issuance_record d))
      then Some (sum_list (map ir_bundleCount (filter (\<lambda>r. ir_epoch r = epoch) (issuance_record d))))
      else None)"

definition reconcile_epoch :: "(string \<rightharpoonup> int) \<Rightarrow> counter_row \<Rightarrow> epoch_reconciliation" where
  "reconcile_epoch ledger counter =
     (let bundlesPaid = ec_bundlesPaid counter;
          signaturesIssued = ec_signaturesIssued counter;
          expectedSignatures = bundlesPaid * ec_bundleSize counter;
          delta = signaturesIssued - expectedSignatures;
          ledgerBundles = (case ledger (ec_epoch counter) of None \<Rightarrow> 0 | Some n \<Rightarrow> n);
          ledgerDelta = bundlesPaid - ledgerBundles;
          alarms = (if delta > 0 then [overissuance] else [])
                   @ (if delta < 0 then [underissuance] else [])
                   @ (if ledgerDelta \<noteq> 0 then [ledger_mismatch] else [])
      in \<lparr>rc_epoch = ec_epoch counter, rc_bundleSize = ec_bundleSize counter,
          rc_bundlesPaid = bundlesPaid, rc_signaturesIssued = signaturesIssued,
          rc_expectedSignatures = expectedSignatures, rc_delta = delta,
          rc_ledgerBundles = ledgerBundles, rc_ledgerDelta = ledgerDelta, rc_alarms = alarms\<rparr>)"

text \<open>\<open>raise\<close>: the alarm is logged and inserted.\<close>

definition raise_alarm :: "millis \<Rightarrow> alarm_kind \<Rightarrow> string \<Rightarrow> int \<Rightarrow> int \<Rightarrow> int \<Rightarrow> db \<Rightarrow> db" where
  "raise_alarm now kind epoch expected actual delta d =
     d\<lparr>reconciliation_alarm := reconciliation_alarm d @
         [\<lparr>al_epoch = epoch, al_kind = kind, al_expected = expected, al_actual = actual,
           al_delta = delta, al_raisedAt = now\<rparr>]\<rparr>"

fun alarm_amounts :: "epoch_reconciliation \<Rightarrow> alarm_kind \<Rightarrow> int \<times> int" where
  "alarm_amounts r ledger_mismatch = (rc_ledgerBundles r, rc_bundlesPaid r)"
| "alarm_amounts r _ = (rc_expectedSignatures r, rc_signaturesIssued r)"

definition raise_kind :: "millis \<Rightarrow> epoch_reconciliation \<Rightarrow> alarm_kind \<Rightarrow> db \<Rightarrow> db" where
  "raise_kind now r kind d =
     (case alarm_amounts r kind of
        (expected, actual) \<Rightarrow> raise_alarm now kind (rc_epoch r) expected actual (actual - expected) d)"

definition raise_all :: "millis \<Rightarrow> epoch_reconciliation \<Rightarrow> db \<Rightarrow> db" where
  "raise_all now r d = fold (raise_kind now r) (rc_alarms r) d"

text \<open>
  One cycle. Its two queries run one after the other outside any transaction, so they may see different states of the
  database: the ledger is read from \<open>ledgerDb\<close>, the counters from \<open>countersDb\<close>, and the alarms go to the \<open>d\<close> of that
  moment. \<open>System\<close> has the queries and every insert as steps of their own.
\<close>

definition reconcile :: "millis \<Rightarrow> db \<Rightarrow> db \<Rightarrow> db \<Rightarrow> epoch_reconciliation list \<times> db" where
  "reconcile now ledgerDb countersDb d =
     (let ledger = ledgerBundlesByEpoch ledgerDb;
          results = map (reconcile_epoch ledger) (all_counters countersDb)
      in (results, fold (raise_all now) results d))"

text \<open>The alarms a cycle has yet to insert, in the order in which it does.\<close>

definition due_alarms :: "(string \<rightharpoonup> int) \<Rightarrow> db \<Rightarrow> (epoch_reconciliation \<times> alarm_kind) list" where
  "due_alarms ledger countersDb =
     concat (map (\<lambda>r. map (Pair r) (rc_alarms r)) (map (reconcile_epoch ledger) (all_counters countersDb)))"

text \<open>\<open>find({ where: { epoch }, order: { raisedAt: 'DESC' } })\<close>\<close>

definition alarmsFor :: "string \<Rightarrow> db \<Rightarrow> alarm_row list" where
  "alarmsFor epoch d =
     rev (sort_key al_raisedAt (filter (\<lambda>a. al_epoch a = epoch) (reconciliation_alarm d)))"

subsection \<open>The ledger, epoch by epoch\<close>

definition ledger_bundles :: "string \<Rightarrow> db \<Rightarrow> int" where
  "ledger_bundles epoch d =
     sum_list (map ir_bundleCount (filter (\<lambda>r. ir_epoch r = epoch) (issuance_record d)))"

lemma ledger_get:
  "(case ledgerBundlesByEpoch d epoch of None \<Rightarrow> 0 | Some n \<Rightarrow> n) = ledger_bundles epoch d"
proof (cases "epoch \<in> set (map ir_epoch (issuance_record d))")
  case False
  then have "filter (\<lambda>r. ir_epoch r = epoch) (issuance_record d) = []"
    by (auto simp: filter_empty_conv)
  with False show ?thesis by (simp add: ledgerBundlesByEpoch_def ledger_bundles_def)
qed (simp add: ledgerBundlesByEpoch_def ledger_bundles_def)

text \<open>
  The books balance when, for every epoch, the counter row agrees with itself and with the ledger,
  and no ledger row belongs to an epoch without a counter.
\<close>

definition row_balanced :: "db \<Rightarrow> counter_row \<Rightarrow> bool" where
  "row_balanced d r \<longleftrightarrow>
     ec_signaturesIssued r = ec_bundlesPaid r * ec_bundleSize r
     \<and> ec_bundlesPaid r = ledger_bundles (ec_epoch r) d"

definition books_balanced :: "db \<Rightarrow> bool" where
  "books_balanced d \<longleftrightarrow>
     distinct (map ec_epoch (epoch_counter d))
     \<and> (\<forall>r \<in> set (epoch_counter d). row_balanced d r)
     \<and> (\<forall>r \<in> set (issuance_record d). ir_epoch r \<in> set (map ec_epoch (epoch_counter d)))"

lemma books_balanced_empty: "books_balanced empty_db"
  by (simp add: books_balanced_def empty_db_def)

subsection \<open>What a cycle reports and writes\<close>

lemma set_all_counters [simp]: "set (all_counters d) = set (epoch_counter d)"
  by (simp add: all_counters_def)

lemma rc_alarms_iff:
  "overissuance \<in> set (rc_alarms (reconcile_epoch (ledgerBundlesByEpoch d) r))
     \<longleftrightarrow> ec_bundlesPaid r * ec_bundleSize r < ec_signaturesIssued r"
  "underissuance \<in> set (rc_alarms (reconcile_epoch (ledgerBundlesByEpoch d) r))
     \<longleftrightarrow> ec_signaturesIssued r < ec_bundlesPaid r * ec_bundleSize r"
  "ledger_mismatch \<in> set (rc_alarms (reconcile_epoch (ledgerBundlesByEpoch d) r))
     \<longleftrightarrow> ec_bundlesPaid r \<noteq> ledger_bundles (ec_epoch r) d"
  by (auto simp: reconcile_epoch_def Let_def ledger_get)

lemma rc_alarms_Nil_iff:
  "rc_alarms (reconcile_epoch (ledgerBundlesByEpoch d) r) = [] \<longleftrightarrow> row_balanced d r"
  by (auto simp: reconcile_epoch_def row_balanced_def Let_def ledger_get)

definition alarm_of :: "millis \<Rightarrow> epoch_reconciliation \<Rightarrow> alarm_kind \<Rightarrow> alarm_row" where
  "alarm_of now r kind =
     \<lparr>al_epoch = rc_epoch r, al_kind = kind, al_expected = fst (alarm_amounts r kind),
      al_actual = snd (alarm_amounts r kind),
      al_delta = snd (alarm_amounts r kind) - fst (alarm_amounts r kind), al_raisedAt = now\<rparr>"

lemma raise_kind_alarm_of:
  "raise_kind now r kind d = d\<lparr>reconciliation_alarm := reconciliation_alarm d @ [alarm_of now r kind]\<rparr>"
  by (simp add: raise_kind_def raise_alarm_def alarm_of_def case_prod_unfold)

lemma raise_all_alarms:
  "raise_all now r d = d\<lparr>reconciliation_alarm := reconciliation_alarm d @ map (alarm_of now r) (rc_alarms r)\<rparr>"
proof -
  have "fold (raise_kind now r) kinds d =
      d\<lparr>reconciliation_alarm := reconciliation_alarm d @ map (alarm_of now r) kinds\<rparr>" for kinds
    by (induction kinds arbitrary: d) (simp_all add: raise_kind_alarm_of)
  then show ?thesis by (simp add: raise_all_def)
qed

lemma fold_raise_all:
  "fold (raise_all now) rs d =
     d\<lparr>reconciliation_alarm := reconciliation_alarm d @ concat (map (\<lambda>r. map (alarm_of now r) (rc_alarms r)) rs)\<rparr>"
  by (induction rs arbitrary: d) (simp_all add: raise_all_alarms)

lemma reconcile_snd:
  "snd (reconcile now ledgerDb countersDb d) =
     d\<lparr>reconciliation_alarm := reconciliation_alarm d @
        concat (map (\<lambda>r. map (alarm_of now r) (rc_alarms r)) (fst (reconcile now ledgerDb countersDb d)))\<rparr>"
  by (simp add: reconcile_def fold_raise_all Let_def)

lemma reconcile_fst:
  "fst (reconcile now ledgerDb countersDb d) = map (reconcile_epoch (ledgerBundlesByEpoch ledgerDb)) (all_counters countersDb)"
  by (simp add: reconcile_def Let_def)

text \<open>Inserting the alarms one by one is the cycle.\<close>

lemma reconcile_due:
  "snd (reconcile now ledgerDb countersDb d) =
     fold (\<lambda>(r, kind). raise_kind now r kind) (due_alarms (ledgerBundlesByEpoch ledgerDb) countersDb) d"
proof -
  have "fold (\<lambda>(r, kind). raise_kind now r kind) (concat (map (\<lambda>r. map (Pair r) (rc_alarms r)) rs)) d = fold (raise_all now) rs d" for rs
    by (induction rs arbitrary: d) (simp_all add: raise_all_def fold_map comp_def)
  from this [of "map (reconcile_epoch (ledgerBundlesByEpoch ledgerDb)) (all_counters countersDb)"] show ?thesis
    by (simp add: reconcile_def due_alarms_def Let_def)
qed

text \<open>A cycle writes nothing exactly when every epoch counted in the one state balances with the ledger of the other.\<close>

lemma reconcile_silent:
  "snd (reconcile now ledgerDb countersDb d) = d \<longleftrightarrow> list_all (row_balanced ledgerDb) (epoch_counter countersDb)"
proof -
  have alarms: "d\<lparr>reconciliation_alarm := reconciliation_alarm d @ xs\<rparr> = d \<longleftrightarrow> xs = []" for xs
    by (cases d) simp
  have "snd (reconcile now ledgerDb countersDb d) = d \<longleftrightarrow>
      concat (map (\<lambda>r. map (alarm_of now r) (rc_alarms r)) (fst (reconcile now ledgerDb countersDb d))) = []"
    unfolding reconcile_snd alarms ..
  also have "\<dots> \<longleftrightarrow> (\<forall>r \<in> set (epoch_counter countersDb). row_balanced ledgerDb r)"
    unfolding reconcile_fst by (auto simp: rc_alarms_Nil_iff)
  finally show ?thesis by (simp add: list_all_iff)
qed

text \<open>The counters after one purchase: both statements land on the epoch's row, no other row moves.\<close>

lemma counters_after_purchase [table_simps]:
  "forEpoch e (recordSignaturesIssued now epoch n k (recordBundlePaid now' epoch k' d)) =
     (if e = epoch
      then Some (case forEpoch epoch d of
          None \<Rightarrow> \<lparr>ec_epoch = epoch, ec_bundleSize = k', ec_bundlesPaid = 1, ec_signaturesIssued = n,
                   ec_updatedAt = now\<rparr>
        | Some r \<Rightarrow> r\<lparr>ec_bundlesPaid := ec_bundlesPaid r + 1,
                       ec_signaturesIssued := ec_signaturesIssued r + n, ec_updatedAt := now\<rparr>)
      else forEpoch e d)"
  by (auto simp: forEpoch_def recordSignaturesIssued_def recordBundlePaid_def table.lookup_put
      split: option.splits)

lemma counters_frame [table_simps]:
  "issuance_record (recordBundlePaid now epoch k d) = issuance_record d"
  "issuance_record (recordSignaturesIssued now epoch n k d) = issuance_record d"
  "idempotency_record (recordBundlePaid now epoch k d) = idempotency_record d"
  "idempotency_record (recordSignaturesIssued now epoch n k d) = idempotency_record d"
  "entitlement (recordBundlePaid now epoch k d) = entitlement d"
  "entitlement (recordSignaturesIssued now epoch n k d) = entitlement d"
  "reconciliation_alarm (recordBundlePaid now epoch k d) = reconciliation_alarm d"
  "reconciliation_alarm (recordSignaturesIssued now epoch n k d) = reconciliation_alarm d"
  "claim_rejection (recordBundlePaid now epoch k d) = claim_rejection d"
  "claim_rejection (recordSignaturesIssued now epoch n k d) = claim_rejection d"
  by (simp_all add: recordBundlePaid_def recordSignaturesIssued_def)

lemma counters_distinct:
  "distinct (map ec_epoch (epoch_counter d)) \<Longrightarrow>
     distinct (map ec_epoch (epoch_counter (recordSignaturesIssued now epoch n k (recordBundlePaid now' epoch k' d))))"
  by (simp add: recordSignaturesIssued_def recordBundlePaid_def table.distinct_put)

lemma forEpoch_iff:
  assumes "distinct (map ec_epoch (epoch_counter d))"
  shows "forEpoch e d = Some r \<longleftrightarrow> r \<in> set (epoch_counter d) \<and> ec_epoch r = e"
  using assms unfolding forEpoch_def lookup_by_def
  by (auto dest: find_SomeD intro: find_distinct_key)

lemma forEpoch_None: "forEpoch e d = None \<longleftrightarrow> e \<notin> set (map ec_epoch (epoch_counter d))"
  by (simp add: forEpoch_def lookup_by_None)

text \<open>Balanced books, said through the reader the service uses.\<close>

lemma books_balanced_alt:
  "books_balanced d \<longleftrightarrow>
     distinct (map ec_epoch (epoch_counter d))
     \<and> (\<forall>e r. forEpoch e d = Some r \<longrightarrow> row_balanced d r)
     \<and> (\<forall>r \<in> set (issuance_record d). forEpoch (ir_epoch r) d \<noteq> None)"
  unfolding books_balanced_def forEpoch_None
  by (cases "distinct (map ec_epoch (epoch_counter d))") (auto simp: forEpoch_iff)

end
