(* ===== verification/RateLimiter.thy ===== *)
theory RateLimiter
  imports Config "HOL-Library.AList"
begin

text \<open>
  \<open>payment/rate-limiter.service.ts\<close>: a sliding window per reference, kept in Redis sorted sets.
  Redis is a parameter: a record of the commands the limiter sends, over any type of store. What the
  limiter relies on of them is the locale \<open>sorted_set_store\<close>, in the words of the Redis command
  reference: each key holds a finite map from members to scores. The four commands run as one
  \<open>MULTI\<close>, so one call is one step.
\<close>

record 's redis =
  zremrangebyscore :: "string \<Rightarrow> int \<Rightarrow> int \<Rightarrow> 's \<Rightarrow> 's"
  zadd :: "string \<Rightarrow> int \<Rightarrow> string \<Rightarrow> 's \<Rightarrow> 's"
  zcard :: "string \<Rightarrow> 's \<Rightarrow> nat option"  \<comment> \<open>\<open>None\<close>: no count came back\<close>
  pexpire :: "string \<Rightarrow> int \<Rightarrow> 's \<Rightarrow> 's"

definition rl_key :: "string \<Rightarrow> string" where
  "rl_key paymentRef = ''ratelimit:'' @ paymentRef"

definition rl_member :: "millis \<Rightarrow> string \<Rightarrow> string" where
  "rl_member now uuid = show_int now @ CHR ''-'' # uuid"

definition windowMs :: "issuer_config \<Rightarrow> int" where
  "windowMs config = int (rateLimitWindowSeconds config) * 1000"

text \<open>\<open>allow(paymentRef)\<close>, at time \<open>now\<close> and with the random id it draws.\<close>

definition allow :: "'s redis \<Rightarrow> issuer_config \<Rightarrow> millis \<Rightarrow> string \<Rightarrow> string \<Rightarrow> 's \<Rightarrow> (failure + bool) \<times> 's" where
  "allow R config now uuid paymentRef s =
     (let key = rl_key paymentRef;
          s1 = zremrangebyscore R key 0 (now - windowMs config) s;
          s2 = zadd R key now (rl_member now uuid) s1;
          inWindow = zcard R key s2;
          s3 = pexpire R key (windowMs config) s2
      in (case inWindow of
            None \<Rightarrow> Inl (Error ''rate limiter did not return a count'')
          | Some n \<Rightarrow> Inr (n \<le> rateLimitMax config), s3))"

text \<open>A sequence of calls: reference, time, random id.\<close>

type_synonym rl_call = "string \<times> millis \<times> string"

fun allow_run :: "'s redis \<Rightarrow> issuer_config \<Rightarrow> rl_call list \<Rightarrow> 's \<Rightarrow> 's" where
  "allow_run R config [] s = s"
| "allow_run R config ((ref, now, uuid) # calls) s =
     allow_run R config calls (snd (allow R config now uuid ref s))"

lemma allow_run_append [simp]:
  "allow_run R config (xs @ ys) s = allow_run R config ys (allow_run R config xs s)"
  by (induction xs arbitrary: s) auto

subsection \<open>The abstract limiter: a list of past calls\<close>

text \<open>The calls for a reference that fall in the window ending at \<open>now\<close>.\<close>

definition in_window :: "issuer_config \<Rightarrow> string \<Rightarrow> millis \<Rightarrow> rl_call list \<Rightarrow> rl_call list" where
  "in_window config ref now calls =
     filter (\<lambda>(r, t, _). r = ref \<and> now - windowMs config < t) calls"

text \<open>Time does not run backwards, is not negative, and random ids do not repeat.\<close>

definition calls_ok :: "rl_call list \<Rightarrow> bool" where
  "calls_ok calls \<longleftrightarrow>
     sorted (map (\<lambda>(_, t, _). t) calls) \<and> (\<forall>(_, t, _) \<in> set calls. 0 \<le> t)
     \<and> distinct (map (\<lambda>(_, t, u). rl_member t u) calls)"

lemma rl_key_inject [simp]: "rl_key a = rl_key b \<longleftrightarrow> a = b"
  by (simp add: rl_key_def)

locale sorted_set_store =
  fixes R :: "'s redis" and members :: "string \<Rightarrow> 's \<Rightarrow> (string \<rightharpoonup> int)"
  assumes members_zrem:
      "members k (zremrangebyscore R k' lo hi s) =
         (if k = k' then (\<lambda>m. case members k s m of None \<Rightarrow> None
                             | Some v \<Rightarrow> if lo \<le> v \<and> v \<le> hi then None else Some v)
          else members k s)"
    and members_zadd: "members k (zadd R k' v m s) = (if k = k' then (members k s)(m \<mapsto> v) else members k s)"
    and members_pexpire: "members k (pexpire R k' t s) = members k s"
    and zcard_members: "finite (dom (members k s)) \<Longrightarrow> zcard R k s = Some (card (dom (members k s)))"
begin

text \<open>
  What the store holds for a reference after a sequence of calls: exactly the calls no later call's
  cut has removed.
\<close>

definition tracks :: "issuer_config \<Rightarrow> string \<Rightarrow> rl_call list \<Rightarrow> 's \<Rightarrow> bool" where
  "tracks config ref calls s \<longleftrightarrow>
     (\<forall>m v. members (rl_key ref) s m = Some v \<longleftrightarrow>
        (\<exists>u. (ref, v, u) \<in> set calls \<and> m = rl_member v u
           \<and> (\<forall>t' u'. (ref, t', u') \<in> set calls \<longrightarrow> t' - windowMs config < v)))"

lemma tracks_init: "members (rl_key ref) s = Map.empty \<Longrightarrow> tracks config ref [] s"
  by (simp add: tracks_def)

lemma members_allow:
  "members k (snd (allow R config now uuid ref s)) =
     (if k = rl_key ref
      then (\<lambda>m. case members k s m of None \<Rightarrow> None
              | Some v \<Rightarrow> if 0 \<le> v \<and> v \<le> now - windowMs config then None else Some v)
           (rl_member now uuid \<mapsto> now)
      else members k s)"
  by (simp add: allow_def Let_def members_zrem members_zadd members_pexpire)

lemma tracks_step:
  assumes tr: "tracks config ref calls s" and ok: "calls_ok (calls @ [(r, now, u)])"
    and w: "0 < windowMs config"
  shows "tracks config ref (calls @ [(r, now, u)]) (snd (allow R config now u r s))"
proof (cases "r = ref")
  case True
  have past: "t \<le> now \<and> 0 \<le> t \<and> rl_member t u' \<noteq> rl_member now u" if "(ref, t, u') \<in> set calls" for t u'
    using ok that by (force simp: calls_ok_def sorted_append)
  show ?thesis
    unfolding tracks_def
  proof (intro allI)
    fix m v
    have "members (rl_key ref) (snd (allow R config now u r s)) m = Some v \<longleftrightarrow>
        (if m = rl_member now u then v = now
         else members (rl_key ref) s m = Some v \<and> \<not> (0 \<le> v \<and> v \<le> now - windowMs config))"
      by (auto simp: members_allow True split: option.splits)
    also have "\<dots> \<longleftrightarrow> (\<exists>u'. (ref, v, u') \<in> set (calls @ [(r, now, u)]) \<and> m = rl_member v u'
        \<and> (\<forall>t' u''. (ref, t', u'') \<in> set (calls @ [(r, now, u)]) \<longrightarrow> t' - windowMs config < v))"
      (is "_ \<longleftrightarrow> ?new")
    proof (cases "m = rl_member now u")
      case m: True
      have "?new \<longleftrightarrow> v = now"
      proof
        assume "v = now"
        with m True w past show ?new by (fastforce intro!: exI [of _ u])
      next
        assume ?new
        with m past show "v = now" by (metis (no_types, lifting) Un_iff empty_iff list.set(1) list.simps(15) prod.inject set_append singletonD)
      qed
      with m show ?thesis by simp
    next
      case m: False
      have "?new \<longleftrightarrow> members (rl_key ref) s m = Some v \<and> now - windowMs config < v"
        using tr m True unfolding tracks_def by auto
      moreover have "members (rl_key ref) s m = Some v \<Longrightarrow> 0 \<le> v"
        using tr past unfolding tracks_def by blast
      ultimately show ?thesis using m by auto
    qed
    finally show "members (rl_key ref) (snd (allow R config now u r s)) m = Some v \<longleftrightarrow>
        (\<exists>u'. (ref, v, u') \<in> set (calls @ [(r, now, u)]) \<and> m = rl_member v u'
        \<and> (\<forall>t' u''. (ref, t', u'') \<in> set (calls @ [(r, now, u)]) \<longrightarrow> t' - windowMs config < v))" .
  qed
next
  case False
  with tr show ?thesis by (auto simp: tracks_def members_allow)
qed

lemma calls_ok_prefix: "calls_ok (xs @ ys) \<Longrightarrow> calls_ok xs"
  by (auto simp: calls_ok_def sorted_append)

lemma tracks_run:
  assumes "members (rl_key ref) s = Map.empty" and "0 < windowMs config" and "calls_ok calls"
  shows "tracks config ref calls (allow_run R config calls s)"
  using assms(3)
proof (induction calls rule: rev_induct)
  case Nil
  with assms(1) show ?case by (simp add: tracks_init)
next
  case (snoc c calls)
  obtain r t u where c: "c = (r, t, u)" by (cases c)
  from snoc.prems have "calls_ok calls" by (rule calls_ok_prefix)
  from tracks_step [OF snoc.IH [OF this]] snoc.prems assms(2) c show ?case by simp
qed

lemma count_window:
  assumes "tracks config ref (calls @ [(ref, now, u)]) s" and "calls_ok (calls @ [(ref, now, u)])"
    and "0 < windowMs config"
  shows "zcard R (rl_key ref) s = Some (Suc (length (in_window config ref now calls)))"
proof -
  let ?all = "calls @ [(ref, now, u)]"
  let ?f = "\<lambda>(_, t, u). rl_member t u"
  have past: "t \<le> now" if "(ref, t, u') \<in> set ?all" for t u'
    using assms(2) that by (force simp: calls_ok_def sorted_append)
  have cut: "(\<forall>t' u'. (ref, t', u') \<in> set ?all \<longrightarrow> t' - windowMs config < v) \<longleftrightarrow> now - windowMs config < v"
    for v
  proof
    assume "now - windowMs config < v"
    then show "\<forall>t' u'. (ref, t', u') \<in> set ?all \<longrightarrow> t' - windowMs config < v"
      using past by fastforce
  qed simp
  have held: "members (rl_key ref) s m = Some v \<longleftrightarrow>
      (\<exists>u'. (ref, v, u') \<in> set ?all \<and> m = rl_member v u' \<and> now - windowMs config < v)" for m v
    using assms(1) unfolding tracks_def cut by blast
  have "dom (members (rl_key ref) s) = ?f ` set (in_window config ref now ?all)"
  proof (rule set_eqI)
    fix m
    have "m \<in> ?f ` set (in_window config ref now xs) \<longleftrightarrow>
        (\<exists>v u'. (ref, v, u') \<in> set xs \<and> now - windowMs config < v \<and> m = rl_member v u')" for xs
      by (induction xs) (auto simp: in_window_def)
    then show "m \<in> dom (members (rl_key ref) s) \<longleftrightarrow> m \<in> ?f ` set (in_window config ref now ?all)"
      unfolding dom_def mem_Collect_eq not_None_eq held by blast
  qed
  moreover have "distinct (map ?f (in_window config ref now ?all))"
    using assms(2) unfolding calls_ok_def in_window_def by (blast intro: distinct_map_filter)
  then have "card (?f ` set (in_window config ref now ?all)) = length (in_window config ref now ?all)"
    by (metis distinct_card length_map set_map)
  ultimately show ?thesis
    using assms(3) by (simp add: zcard_members in_window_def)
qed

text \<open>The limiter decides as the abstract one does: over the calls of this reference in the window,
  this one included, blocked ones included.\<close>

lemma allow_sliding:
  assumes "members (rl_key ref) s = Map.empty" and "0 < windowMs config"
    and "calls_ok (calls @ [(ref, now, u)])"
  shows "fst (allow R config now u ref (allow_run R config calls s)) =
    Inr (Suc (length (in_window config ref now calls)) \<le> rateLimitMax config)"
proof -
  let ?s = "allow_run R config calls s"
  let ?s2 = "zadd R (rl_key ref) now (rl_member now u)
               (zremrangebyscore R (rl_key ref) 0 (now - windowMs config) ?s)"
  have "tracks config ref (calls @ [(ref, now, u)]) (snd (allow R config now u ref ?s))"
    using tracks_run [OF assms] by simp
  then have "tracks config ref (calls @ [(ref, now, u)]) ?s2"
    by (simp add: tracks_def allow_def Let_def members_pexpire)
  from count_window [OF this assms(3,2)] show ?thesis
    by (simp add: allow_def Let_def)
qed

end

subsection \<open>Sorted sets in memory\<close>

text \<open>An executable store that meets the interface, for running the model.\<close>

type_synonym mem_store = "string \<Rightarrow> (string \<times> int) list"

definition mem_redis :: "mem_store redis" where
  "mem_redis =
     \<lparr>zremrangebyscore =
        (\<lambda>k lo hi s. s(k := filter (\<lambda>(_, v). \<not> (lo \<le> v \<and> v \<le> hi)) (AList.clearjunk (s k)))),
      zadd = (\<lambda>k v m s. s(k := (m, v) # s k)),
      zcard = (\<lambda>k s. Some (card (set (map fst (s k))))),
      pexpire = (\<lambda>k t s. s)\<rparr>"

lemma map_of_filter_clearjunk:
  "map_of (filter (\<lambda>(_, v). P v) (AList.clearjunk xs)) m =
     (case map_of xs m of None \<Rightarrow> None | Some v \<Rightarrow> if P v then Some v else None)"
proof -
  have "distinct (map fst ys) \<Longrightarrow>
      map_of (filter (\<lambda>(_, v). P v) ys) m =
        (case map_of ys m of None \<Rightarrow> None | Some v \<Rightarrow> if P v then Some v else None)"
    for ys
    by (induction ys) (auto simp: map_of_eq_None_iff rev_image_eqI split: option.splits)
  from this [of "AList.clearjunk xs"] show ?thesis by (simp add: map_of_clearjunk)
qed

interpretation mem: sorted_set_store mem_redis "\<lambda>k s. map_of (s k)"
proof
  fix k k' :: string and lo hi v :: int and m :: string and s :: mem_store and t :: int
  show "map_of (zremrangebyscore mem_redis k' lo hi s k) =
      (if k = k' then (\<lambda>m. case map_of (s k) m of None \<Rightarrow> None
                        | Some v \<Rightarrow> if lo \<le> v \<and> v \<le> hi then None else Some v)
       else map_of (s k))"
    by (rule ext) (simp add: mem_redis_def map_of_filter_clearjunk split: option.split)
  show "map_of (zadd mem_redis k' v m s k) = (if k = k' then (map_of (s k))(m \<mapsto> v) else map_of (s k))"
    by (simp add: mem_redis_def)
  show "map_of (pexpire mem_redis k' t s k) = map_of (s k)"
    by (simp add: mem_redis_def)
  show "zcard mem_redis k s = Some (card (dom (map_of (s k))))"
    by (simp add: mem_redis_def dom_map_of_conv_image_fst)
qed

end
