(* ===== verification/IsoDate.thy ===== *)
theory IsoDate
  imports Runtime
begin

text \<open>
  The JavaScript dates the program uses: \<open>Date.prototype.toISOString\<close> and \<open>Date.parse\<close>, over time
  values in milliseconds, following the calendar arithmetic of ECMAScript (DayFromYear, YearFromTime,
  MonthFromTime). \<open>Date.parse\<close> reads back what \<open>toISOString\<close> writes; on any other text it is the
  runtime's \<open>loose_date\<close>.
\<close>

definition msPerDay :: int where "msPerDay = 86400000"
definition maxTime :: int where "maxTime = 8640000000000000"

definition day_from_year :: "int \<Rightarrow> int" where
  "day_from_year y = 365 * (y - 1970) + (y - 1969) div 4 - (y - 1901) div 100 + (y - 1601) div 400"

definition leap_year :: "int \<Rightarrow> bool" where
  "leap_year y \<longleftrightarrow> (y mod 4 = 0 \<and> y mod 100 \<noteq> 0) \<or> y mod 400 = 0"

text \<open>The year that holds a day: an estimate from the mean year, corrected by at most one.\<close>

definition year_from_day :: "int \<Rightarrow> int" where
  "year_from_day d =
     (let y = d * 400 div 146097 + 1970 in
      if day_from_year (y + 1) \<le> d then y + 1 else if day_from_year y \<le> d then y else y - 1)"

definition month_starts :: "bool \<Rightarrow> int list" where
  "month_starts leap =
     (if leap then [0, 31, 60, 91, 121, 152, 182, 213, 244, 274, 305, 335]
      else [0, 31, 59, 90, 120, 151, 181, 212, 243, 273, 304, 334])"

definition month_from_doy :: "bool \<Rightarrow> int \<Rightarrow> nat" where
  "month_from_doy leap doy = length (filter (\<lambda>s. s \<le> doy) (month_starts leap)) - 1"

fun pad_digits :: "nat \<Rightarrow> nat \<Rightarrow> string" where
  "pad_digits 0 n = []"
| "pad_digits (Suc w) n = pad_digits w (n div 10) @ [digit_char (n mod 10)]"

definition year_text :: "int \<Rightarrow> string" where
  "year_text y =
     (if 0 \<le> y \<and> y \<le> 9999 then pad_digits 4 (nat y)
      else if y < 0 then CHR ''-'' # pad_digits 6 (nat (- y))
      else CHR ''+'' # pad_digits 6 (nat y))"

text \<open>Everything after the year: \<open>-MM-DDTHH:mm:ss.sssZ\<close>.\<close>

definition rest_text :: "nat \<Rightarrow> nat \<Rightarrow> nat \<Rightarrow> string" where
  "rest_text month day ms =
     CHR ''-'' # pad_digits 2 month @ CHR ''-'' # pad_digits 2 day
     @ CHR ''T'' # pad_digits 2 (ms div 3600000)
     @ CHR '':'' # pad_digits 2 (ms div 60000 mod 60)
     @ CHR '':'' # pad_digits 2 (ms div 1000 mod 60)
     @ CHR ''.'' # pad_digits 3 (ms mod 1000) @ ''Z''"

text \<open>\<open>new Date(t).toISOString()\<close>: \<open>None\<close> is the \<open>RangeError\<close> of an invalid date.\<close>

definition toISOString :: "millis \<Rightarrow> string option" where
  "toISOString t =
     (if maxTime < \<bar>t\<bar> then None
      else let d = t div msPerDay;
               ms = nat (t mod msPerDay);
               y = year_from_day d;
               doy = d - day_from_year y;
               m = month_from_doy (leap_year y) doy;
               day = nat (doy - month_starts (leap_year y) ! m + 1)
           in Some (year_text y @ rest_text (m + 1) day ms))"

definition read_at :: "nat \<Rightarrow> nat \<Rightarrow> string \<Rightarrow> nat" where
  "read_at i w s = read_nat (take w (drop i s))"

definition iso_candidate :: "string \<Rightarrow> millis option" where
  "iso_candidate s =
     (let (y, r) = (case s of
            [] \<Rightarrow> (0, [])
          | c # cs \<Rightarrow>
              if c = CHR ''-'' then (- int (read_nat (take 6 cs)), drop 6 cs)
              else if c = CHR ''+'' then (int (read_nat (take 6 cs)), drop 6 cs)
              else (int (read_nat (take 4 s)), drop 4 s))
      in if length r \<noteq> 20 \<or> read_at 1 2 r < 1 \<or> 12 < read_at 1 2 r then None
         else Some ((day_from_year y + month_starts (leap_year y) ! (read_at 1 2 r - 1)
                     + int (read_at 4 2 r) - 1) * msPerDay
                    + int (read_at 7 2 r) * 3600000 + int (read_at 10 2 r) * 60000
                    + int (read_at 13 2 r) * 1000 + int (read_at 16 3 r)))"

definition date_parse :: "runtime \<Rightarrow> string \<Rightarrow> millis option" where
  "date_parse rt s =
     (case iso_candidate s of
        Some t \<Rightarrow> if toISOString t = Some s then Some t else loose_date rt s
      | None \<Rightarrow> loose_date rt s)"

subsection \<open>The year of a day\<close>

lemma day_from_year_bounds:
  "146097 * n - 506 \<le> 400 * day_from_year (1970 + n)" "400 * day_from_year (1970 + n) \<le> 146097 * n + 589"
proof -
  have "4 * ((n + 1) div 4) \<le> n + 1" "n + 1 \<le> 4 * ((n + 1) div 4) + 3"
    "100 * ((n + 69) div 100) \<le> n + 69" "n + 69 \<le> 100 * ((n + 69) div 100) + 99"
    "400 * ((n + 369) div 400) \<le> n + 369" "n + 369 \<le> 400 * ((n + 369) div 400) + 399"
    by linarith+
  moreover have "day_from_year (1970 + n) = 365 * n + (n + 1) div 4 - (n + 69) div 100 + (n + 369) div 400"
    by (simp add: day_from_year_def algebra_simps)
  ultimately show "146097 * n - 506 \<le> 400 * day_from_year (1970 + n)"
    and "400 * day_from_year (1970 + n) \<le> 146097 * n + 589"
    by linarith+
qed

lemma year_from_day_bounds:
  "day_from_year (year_from_day d) \<le> d" "d < day_from_year (year_from_day d + 1)"
proof -
  define n where "n = d * 400 div 146097"
  have n: "146097 * n \<le> d * 400" "d * 400 < 146097 * n + 146097"
    unfolding n_def by linarith+
  note b = day_from_year_bounds [of "n - 1"] day_from_year_bounds [of "n + 2"]
  have lo: "day_from_year (1970 + n - 1) \<le> d" and hi: "d < day_from_year (1970 + n + 2)"
    using b n by (simp_all add: algebra_simps)
  from lo hi show "day_from_year (year_from_day d) \<le> d" "d < day_from_year (year_from_day d + 1)"
    by (auto simp: year_from_day_def Let_def n_def [symmetric] algebra_simps)
qed

lemma div_step:
  fixes x k :: int
  assumes "0 < k"
  shows "(x + 1) div k = x div k + (if (x + 1) mod k = 0 then 1 else 0)"
proof -
  define q r where "q = (x + 1) div k" and "r = (x + 1) mod k"
  then have x: "x + 1 = k * q + r" and r: "0 \<le> r" "r < k"
    using assms by simp_all
  show ?thesis
  proof (cases "r = 0")
    case True
    with x have "x = k * (q - 1) + (k - 1)" by (simp add: algebra_simps)
    then have "x div k = q - 1"
      by (rule int_div_pos_eq) (use assms in simp_all)
    with True show ?thesis by (simp add: q_def r_def)
  next
    case False
    with x r have "x = k * q + (r - 1)" by simp
    then have "x div k = q"
      by (rule int_div_pos_eq) (use False r in simp_all)
    with False show ?thesis by (simp add: q_def r_def)
  qed
qed

lemma century_mods:
  fixes y :: int
  shows "(y - 1968) mod 4 = y mod 4" "(y - 1900) mod 100 = y mod 100" "(y - 1600) mod 400 = y mod 400"
  using mod_mult_self2 [of y 4 "- 492"] mod_mult_self2 [of y 100 "- 19"] mod_mult_self2 [of y 400 "- 4"]
  by simp_all

lemma leap_cases: "y mod 400 = 0 \<Longrightarrow> y mod 100 = 0" "y mod 100 = 0 \<Longrightarrow> y mod 4 = 0" for y :: int
  using mod_mod_cancel [of 100 400 y] mod_mod_cancel [of 4 100 y] by auto

lemma leap_sum:
  assumes "r \<Longrightarrow> q" and "q \<Longrightarrow> p"
  shows "(if p then 1 else 0) - (if q then 1 else 0) + (if r then 1 else 0)
    = (if p \<and> \<not> q \<or> r then 1 else (0 :: int))"
  using assms by auto

lemma leap_divs:
  fixes y :: int
  shows "(y - 1968) div 4 = (y - 1969) div 4 + (if y mod 4 = 0 then 1 else 0)"
    and "(y - 1900) div 100 = (y - 1901) div 100 + (if y mod 100 = 0 then 1 else 0)"
    and "(y - 1600) div 400 = (y - 1601) div 400 + (if y mod 400 = 0 then 1 else 0)"
proof -
  have "y - 1969 + 1 = y - 1968" "y - 1901 + 1 = y - 1900" "y - 1601 + 1 = y - 1600" by simp_all
  note s = this
  show "(y - 1968) div 4 = (y - 1969) div 4 + (if y mod 4 = 0 then 1 else 0)"
    using div_step [of 4 "y - 1969"] by (simp only: s century_mods)
  show "(y - 1900) div 100 = (y - 1901) div 100 + (if y mod 100 = 0 then 1 else 0)"
    using div_step [of 100 "y - 1901"] by (simp only: s century_mods)
  show "(y - 1600) div 400 = (y - 1601) div 400 + (if y mod 400 = 0 then 1 else 0)"
    using div_step [of 400 "y - 1601"] by (simp only: s century_mods)
qed

lemma day_from_year_Suc:
  "day_from_year (y + 1) = day_from_year y + (if leap_year y then 366 else 365)"
proof -
  let ?i = "\<lambda>b. if b then 1 else (0 :: int)"
  have s: "y + 1 - 1970 = y - 1970 + 1" "y + 1 - 1969 = y - 1968" "y + 1 - 1901 = y - 1900"
    "y + 1 - 1601 = y - 1600"
    by simp_all
  have "day_from_year (y + 1) = day_from_year y + 365
      + (?i (y mod 4 = 0) - ?i (y mod 100 = 0) + ?i (y mod 400 = 0))"
    unfolding day_from_year_def s leap_divs distrib_left by (simp only: mult_1_right ac_simps diff_conv_add_uminus minus_add_distrib)
  also have "\<dots> = day_from_year y + 365 + ?i (leap_year y)"
    using leap_sum [OF leap_cases(1) [of y] leap_cases(2) [of y]] by (simp only: leap_year_def)
  finally show ?thesis by simp
qed

lemma doy_bounds:
  "0 \<le> d - day_from_year (year_from_day d)"
  "d - day_from_year (year_from_day d) < (if leap_year (year_from_day d) then 366 else 365)"
  using year_from_day_bounds [of d] day_from_year_Suc [of "year_from_day d"] by (auto split: if_splits)

lemma month_bounds:
  assumes "0 \<le> doy" and "doy < (if leap then 366 else 365)"
  shows "month_from_doy leap doy < 12"
    and "month_starts leap ! month_from_doy leap doy \<le> doy"
    and "doy - month_starts leap ! month_from_doy leap doy < 31"
  using assms by (simp_all add: month_from_doy_def month_starts_def split: if_splits)

subsection \<open>Digits\<close>

lemma length_pad_digits [simp]: "length (pad_digits w n) = w"
  by (induction w arbitrary: n) auto

lemma read_pad_digits [simp]: "n < 10 ^ w \<Longrightarrow> read_nat (pad_digits w n) = n"
proof (induction w arbitrary: n)
  case 0
  then show ?case by (simp add: read_nat_def)
next
  case (Suc w)
  then have "n div 10 < 10 ^ w" by auto
  with Suc.IH [of "n div 10"] show ?case by simp
qed

lemma pad_digits_hd: "0 < w \<Longrightarrow> is_digit (hd (pad_digits w n))"
proof (induction w arbitrary: n)
  case (Suc w)
  have "w \<noteq> 0 \<Longrightarrow> pad_digits w (n div 10) \<noteq> []"
    by (metis length_pad_digits list.size(3))
  with Suc.IH [of "n div 10"] show ?case by (cases "w = 0") auto
qed simp

text \<open>A field at offset \<open>i\<close> is read from what follows \<open>i\<close> characters.\<close>

lemma read_at_Cons: "0 < i \<Longrightarrow> read_at i w (c # s) = read_at (i - 1) w s"
  by (cases i) (simp_all add: read_at_def)

lemma read_at_skip: "length p \<le> i \<Longrightarrow> read_at i w (p @ s) = read_at (i - length p) w s"
  by (simp add: read_at_def)

lemma read_at_field: "n < 10 ^ w \<Longrightarrow> read_at 0 w (pad_digits w n @ s) = n"
  by (simp add: read_at_def)

lemma rest_text_fields:
  assumes "month < 100" and "day < 100" and "ms < 86400000"
  shows "length (rest_text month day ms) = 20"
    and "read_at 1 2 (rest_text month day ms) = month" and "read_at 4 2 (rest_text month day ms) = day"
    and "read_at 7 2 (rest_text month day ms) = ms div 3600000"
    and "read_at 10 2 (rest_text month day ms) = ms div 60000 mod 60"
    and "read_at 13 2 (rest_text month day ms) = ms div 1000 mod 60"
    and "read_at 16 3 (rest_text month day ms) = ms mod 1000"
proof -
  have "ms div 3600000 < 100" "ms div 60000 mod 60 < 60" "ms div 1000 mod 60 < 60" "ms mod 1000 < 1000"
    using assms(3) by (auto simp: less_mult_imp_div_less)
  then have small: "month < 10 ^ 2" "day < 10 ^ 2" "ms div 3600000 < 10 ^ 2" "ms div 60000 mod 60 < 10 ^ 2"
    "ms div 1000 mod 60 < 10 ^ 2" "ms mod 1000 < 10 ^ 3"
    using assms(1,2) by simp_all
  show "length (rest_text month day ms) = 20"
    by (simp add: rest_text_def)
  note reads = rest_text_def read_at_Cons read_at_skip
  show "read_at 1 2 (rest_text month day ms) = month"
    using read_at_field [OF small(1)] by (simp add: reads del: pad_digits.simps)
  show "read_at 4 2 (rest_text month day ms) = day"
    using read_at_field [OF small(2)] by (simp add: reads del: pad_digits.simps)
  show "read_at 7 2 (rest_text month day ms) = ms div 3600000"
    using read_at_field [OF small(3)] by (simp add: reads del: pad_digits.simps)
  show "read_at 10 2 (rest_text month day ms) = ms div 60000 mod 60"
    using read_at_field [OF small(4)] by (simp add: reads del: pad_digits.simps)
  show "read_at 13 2 (rest_text month day ms) = ms div 1000 mod 60"
    using read_at_field [OF small(5)] by (simp add: reads del: pad_digits.simps)
  show "read_at 16 3 (rest_text month day ms) = ms mod 1000"
    using read_at_field [OF small(6)] by (simp add: reads del: pad_digits.simps)
qed

lemma ms_fields:
  fixes ms :: nat
  shows "int (ms div 3600000) * 3600000 + int (ms div 60000 mod 60) * 60000
     + int (ms div 1000 mod 60) * 1000 + int (ms mod 1000) = int ms"
proof -
  define a where "a = ms div 1000"
  define b where "b = a div 60"
  have q: "ms div 60000 = b" "ms div 3600000 = b div 60"
    by (simp_all add: a_def b_def flip: div_mult2_eq)
  have "ms = 1000 * a + ms mod 1000" "a = 60 * b + a mod 60" "b = 60 * (b div 60) + b mod 60"
    by (simp_all add: a_def b_def)
  then show ?thesis
    unfolding q a_def [symmetric] by linarith
qed

subsection \<open>Reading back a printed instant\<close>

lemma year_range:
  assumes "\<bar>d\<bar> \<le> 100000000"
  shows "\<bar>year_from_day d\<bar> < 1000000"
proof -
  have "d \<le> 100000000" "- 100000000 \<le> d" using assms by simp_all
  then show ?thesis
    using year_from_day_bounds [of d] day_from_year_bounds(1) [of "year_from_day d - 1970"]
      day_from_year_bounds(2) [of "year_from_day d + 1 - 1970"]
    by (simp add: add.commute [of 1] abs_less_iff)
qed

lemma hd_digit_neq: "is_digit (hd s) \<Longrightarrow> s = c # cs \<Longrightarrow> c \<noteq> CHR ''-'' \<and> c \<noteq> CHR ''+''"
  by (auto simp: is_digit_def)

lemma iso_candidate_text:
  assumes "\<bar>y\<bar> < 1000000" and "length r = 20" and "1 \<le> read_at 1 2 r" and "read_at 1 2 r \<le> 12"
  shows "iso_candidate (year_text y @ r) =
    Some ((day_from_year y + month_starts (leap_year y) ! (read_at 1 2 r - 1) + int (read_at 4 2 r) - 1) * msPerDay
          + int (read_at 7 2 r) * 3600000 + int (read_at 10 2 r) * 60000
          + int (read_at 13 2 r) * 1000 + int (read_at 16 3 r))"
proof -
  consider "0 \<le> y \<and> y \<le> 9999" | "y < 0" | "9999 < y" by linarith
  then show ?thesis
  proof cases
    case 1
    then have t: "year_text y = pad_digits 4 (nat y)" and "nat y < 10 ^ 4"
      by (auto simp: year_text_def nat_less_iff)
    moreover obtain c cs where s: "pad_digits 4 (nat y) = c # cs"
      using length_pad_digits [of 4 "nat y"] by (cases "pad_digits 4 (nat y)") auto
    moreover have "c \<noteq> CHR ''-'' \<and> c \<noteq> CHR ''+''"
      using hd_digit_neq [OF pad_digits_hd [of 4 "nat y"] s] by simp
    moreover have "take 4 (pad_digits 4 (nat y) @ r) = pad_digits 4 (nat y)"
      and "drop 4 (pad_digits 4 (nat y) @ r) = r" by simp_all
    moreover have "int (read_nat (pad_digits 4 (nat y))) = y"
      using 1 by (subst read_pad_digits) auto
    ultimately show ?thesis
      using assms 1 by (simp add: iso_candidate_def Let_def del: take_append drop_append pad_digits.simps)
  next
    case 2
    with assms(1) have "nat (- y) < 10 ^ 6" by simp
    with 2 assms show ?thesis
      by (simp add: iso_candidate_def year_text_def Let_def del: pad_digits.simps)
  next
    case 3
    with assms(1) have "nat y < 10 ^ 6" by simp
    with 3 assms show ?thesis
      by (simp add: iso_candidate_def year_text_def Let_def del: pad_digits.simps)
  qed
qed

lemma iso_candidate_toISOString:
  assumes "toISOString t = Some s"
  shows "iso_candidate s = Some t"
proof -
  define d where "d = t div msPerDay"
  define ms where "ms = nat (t mod msPerDay)"
  define y where "y = year_from_day d"
  define doy where "doy = d - day_from_year y"
  define m where "m = month_from_doy (leap_year y) doy"
  define day where "day = nat (doy - month_starts (leap_year y) ! m + 1)"
  have s: "s = year_text y @ rest_text (m + 1) day ms" and range: "\<bar>t\<bar> \<le> maxTime"
    using assms by (auto simp: toISOString_def Let_def d_def ms_def y_def doy_def m_def day_def split: if_splits)
  have t: "t = d * msPerDay + int ms" and ms: "ms < 86400000"
    using div_mult_mod_eq [of t msPerDay] pos_mod_bound [of msPerDay t] pos_mod_sign [of msPerDay t]
    by (simp_all add: d_def ms_def msPerDay_def nat_less_iff)
  then have "\<bar>d\<bar> \<le> 100000000"
    using range by (simp add: maxTime_def msPerDay_def)
  then have y: "\<bar>y\<bar> < 1000000" unfolding y_def by (rule year_range)
  have doy: "0 \<le> doy" "doy < (if leap_year y then 366 else 365)"
    using doy_bounds [of d] by (simp_all add: doy_def y_def)
  have m: "m < 12" and day: "int day = doy - month_starts (leap_year y) ! m + 1" "day < 100"
    using month_bounds [OF doy] by (simp_all add: m_def [symmetric] day_def)
  note f = rest_text_fields [of "m + 1" day ms]
  have "iso_candidate s = Some ((day_from_year y + month_starts (leap_year y) ! m + int day - 1) * msPerDay
      + int (ms div 3600000) * 3600000 + int (ms div 60000 mod 60) * 60000
      + int (ms div 1000 mod 60) * 1000 + int (ms mod 1000))"
    unfolding s using y m day(2) ms f by (subst iso_candidate_text) simp_all
  also have "\<dots> = Some (d * msPerDay + int ms)"
    using ms_fields [of ms] day(1) by (simp add: doy_def)
  finally show ?thesis using t by simp
qed

lemma date_parse_toISOString [codec_simps]:
  "toISOString t = Some s \<Longrightarrow> date_parse rt s = Some t"
  by (simp add: date_parse_def iso_candidate_toISOString)

lemma toISOString_inj: "toISOString t = Some s \<Longrightarrow> toISOString t' = Some s \<Longrightarrow> t = t'"
  by (metis iso_candidate_toISOString option.inject)

lemma toISOString_range: "(\<exists>s. toISOString t = Some s) \<longleftrightarrow> \<bar>t\<bar> \<le> maxTime"
  by (auto simp: toISOString_def Let_def)

subsection \<open>Printing a given instant\<close>

lemma pad_digits_numeral:
  "pad_digits (numeral k) n = pad_digits (pred_numeral k) (n div 10) @ [digit_char (n mod 10)]"
  by (subst numeral_eq_Suc) (simp only: pad_digits.simps)

lemma digit_chars:
  "digit_char 0 = CHR ''0''" "digit_char (Suc 0) = CHR ''1''" "digit_char 2 = CHR ''2''" "digit_char 3 = CHR ''3''"
  "digit_char 4 = CHR ''4''" "digit_char 5 = CHR ''5''" "digit_char 6 = CHR ''6''" "digit_char 7 = CHR ''7''"
  "digit_char 8 = CHR ''8''" "digit_char 9 = CHR ''9''"
  by code_simp+

lemma toISOString_eval:
  assumes "\<bar>t\<bar> \<le> maxTime" and "t div msPerDay = d" and "nat (t mod msPerDay) = ms" and "year_from_day d = y"
    and "leap_year y = l" and "d - day_from_year y = doy" and "month_from_doy l doy = m"
  shows "toISOString t = Some (year_text y @ rest_text (m + 1) (nat (doy - month_starts l ! m + 1)) ms)"
  using assms by (simp add: toISOString_def Let_def)

lemmas date_eval = maxTime_def msPerDay_def year_from_day_def Let_def day_from_year_def leap_year_def
  month_from_doy_def month_starts_def year_text_def rest_text_def pad_digits_numeral digit_chars

lemma epoch_days:
  "toISOString 0 = Some ''1970-01-01T00:00:00.000Z''" "toISOString 86400000 = Some ''1970-01-02T00:00:00.000Z''"
proof -
  show "toISOString 0 = Some ''1970-01-01T00:00:00.000Z''"
    by (subst toISOString_eval [where d = 0 and ms = 0 and y = 1970 and l = False and doy = 0 and m = 0])
      (simp_all add: date_eval)
  show "toISOString 86400000 = Some ''1970-01-02T00:00:00.000Z''"
    by (subst toISOString_eval [where d = 1 and ms = 0 and y = 1970 and l = False and doy = 1 and m = 0])
      (simp_all add: date_eval)
qed

end
