(* ===== verification/Keyring.thy ===== *)
theory Keyring
  imports Signing IsoDate
begin

text \<open>
  \<open>keys/key-document.ts\<close>, \<open>keys/keyring.ts\<close> and \<open>keys/root-key.ts\<close>: the epoch keyring, what makes one
  acceptable, which epoch may sign at an instant, and the root signature over every key document.

  WebCrypto's Ed25519 is a parameter; what the development relies on is the named hypothesis
  \<open>ed25519_correct\<close>.
\<close>

subsection \<open>Data\<close>

definition BLIND_SIGNATURE_SUITE :: string where
  "BLIND_SIGNATURE_SUITE = ''RSABSSA-SHA384-PSS-Randomized''"

record key_document =
  epoch_id :: string
  not_before :: string
  not_after :: string
  alg :: string
  pubkey :: string

text \<open>What \<open>GET /v1/keys/current\<close> serves.\<close>

record published_document = key_document +
  doc_root_sig :: string

record epoch_entry = key_document +
  root_sig :: string
  private_key_pkcs8_pem :: string

record keyring =
  current_epoch :: string
  root_public_key_spki :: string
  epochs :: "epoch_entry list"

definition KEY_DOCUMENT_FIELDS :: "string list" where
  "KEY_DOCUMENT_FIELDS = [''epoch_id'', ''not_before'', ''not_after'', ''alg'', ''pubkey'', ''root_sig'']"

subsection \<open>The signed bytes and the served document\<close>

definition document_json :: "'a key_document_scheme \<Rightarrow> jsval" where
  "document_json document =
     JObj [(''alg'', JStr (alg document)), (''epoch_id'', JStr (epoch_id document)),
           (''not_after'', JStr (not_after document)), (''not_before'', JStr (not_before document)),
           (''pubkey'', JStr (pubkey document))]"

definition canonicalKeyDocument :: "'a key_document_scheme \<Rightarrow> bytes" where
  "canonicalKeyDocument document = utf8_encode (json_stringify (document_json document))"

definition publishedDocument :: "epoch_entry \<Rightarrow> published_document" where
  "publishedDocument entry =
     \<lparr>epoch_id = epoch_id entry, not_before = not_before entry, not_after = not_after entry,
      alg = alg entry, pubkey = pubkey entry, doc_root_sig = root_sig entry\<rparr>"

text \<open>The body of the response: the object \<open>publishedDocument\<close> builds, keys in its order.\<close>

definition published_json :: "published_document \<Rightarrow> jsval" where
  "published_json d =
     JObj [(''epoch_id'', JStr (epoch_id d)), (''not_before'', JStr (not_before d)),
           (''not_after'', JStr (not_after d)), (''alg'', JStr (alg d)), (''pubkey'', JStr (pubkey d)),
           (''root_sig'', JStr (doc_root_sig d))]"

text \<open>\<open>date.toISOString()\<close> as an expression: a \<open>RangeError\<close> outside the range of dates.\<close>

definition iso_text :: "millis \<Rightarrow> failure + string" where
  "iso_text t = (case toISOString t of None \<Rightarrow> Inl (Error ''Invalid time value'') | Some s \<Rightarrow> Inr s)"

subsection \<open>Parsing\<close>

definition isIsoInstant :: "runtime \<Rightarrow> jsval \<Rightarrow> bool" where
  "isIsoInstant rt value =
     (case value of
        JStr s \<Rightarrow> (case date_parse rt s of None \<Rightarrow> False | Some t \<Rightarrow> toISOString t = Some s)
      | _ \<Rightarrow> False)"

text \<open>\<open>Date.parse(a) >= Date.parse(b)\<close>; a comparison with \<open>NaN\<close> is false.\<close>

fun date_ge :: "millis option \<Rightarrow> millis option \<Rightarrow> bool" where
  "date_ge (Some a) (Some b) = (b \<le> a)"
| "date_ge _ _ = False"

fun js_string :: "jsval \<Rightarrow> string" where
  "js_string (JStr s) = s"
| "js_string _ = []"

fun string_fields :: "jsval \<Rightarrow> nat \<Rightarrow> string list \<Rightarrow> failure + string list" where
  "string_fields entry index [] = Inr []"
| "string_fields entry index (field # names) =
     (case nonempty_string (get_prop entry field) of
        None \<Rightarrow> Inl (Error (''epoch '' @ show_nat index @ '' field '' @ field @ '' must be a non-empty string''))
      | Some s \<Rightarrow> (case string_fields entry index names of Inl e \<Rightarrow> Inl e | Inr ss \<Rightarrow> Inr (s # ss)))"

definition entry_of :: "jsval \<Rightarrow> epoch_entry" where
  "entry_of raw =
     (let f = (\<lambda>k. js_string (get_prop raw k)) in
      \<lparr>epoch_id = f ''epoch_id'', not_before = f ''not_before'', not_after = f ''not_after'',
       alg = f ''alg'', pubkey = f ''pubkey'', root_sig = f ''root_sig'',
       private_key_pkcs8_pem = f ''private_key_pkcs8_pem''\<rparr>)"

definition parseEpoch :: "runtime \<Rightarrow> jsval \<Rightarrow> nat \<Rightarrow> failure + epoch_entry" where
  "parseEpoch rt raw index =
     (if \<not> is_object raw then Inl (Error (''epoch '' @ show_nat index @ '' is not an object''))
      else case string_fields raw index
             [''epoch_id'', ''alg'', ''pubkey'', ''root_sig'', ''private_key_pkcs8_pem''] of
        Inl e \<Rightarrow> Inl e
      | Inr _ \<Rightarrow>
          if get_prop raw ''alg'' \<noteq> JStr BLIND_SIGNATURE_SUITE
          then Inl (Error (''epoch '' @ show_nat index @ '' alg must be '' @ BLIND_SIGNATURE_SUITE
                      @ '', got '' @ js_string (get_prop raw ''alg'')))
          else if \<not> isIsoInstant rt (get_prop raw ''not_before'') \<or> \<not> isIsoInstant rt (get_prop raw ''not_after'')
          then Inl (Error (''epoch '' @ show_nat index @ '' validity window must use ISO-8601 UTC instants''))
          else if date_ge (date_parse rt (js_string (get_prop raw ''not_before'')))
                          (date_parse rt (js_string (get_prop raw ''not_after'')))
          then Inl (Error (''epoch '' @ show_nat index @ '' not_before must precede not_after''))
          else if decodeStrictBase64 rt (get_prop raw ''pubkey'') = None
          then Inl (Error (''epoch '' @ show_nat index @ '' pubkey must be base64-encoded SPKI''))
          else Inr (entry_of raw))"

definition parseKeyring :: "runtime \<Rightarrow> jsval \<Rightarrow> failure + keyring" where
  "parseKeyring rt raw =
     (if \<not> is_object raw then Inl (Error ''keyring is not an object'')
      else case nonempty_string (get_prop raw ''current_epoch'') of
        None \<Rightarrow> Inl (Error ''keyring.current_epoch must be a non-empty string'')
      | Some current \<Rightarrow>
          if decodeStrictBase64 rt (get_prop raw ''root_public_key_spki'') = None
          then Inl (Error ''keyring.root_public_key_spki must be base64-encoded SPKI'')
          else (case get_prop raw ''epochs'' of
                  JArr entries \<Rightarrow>
                    if entries = [] then Inl (Error ''keyring.epochs must be a non-empty array'')
                    else (case map_result (\<lambda>(index, entry). parseEpoch rt entry index) (enumerate 0 entries) of
                            Inl e \<Rightarrow> Inl e
                          | Inr es \<Rightarrow>
                              if current \<notin> set (map epoch_id es)
                              then Inl (Error (''keyring.current_epoch '' @ current @ '' is not among the epochs''))
                              else if \<not> distinct (map epoch_id es)
                              then Inl (Error ''keyring has duplicate epoch_ids'')
                              else Inr \<lparr>current_epoch = current,
                                        root_public_key_spki = js_string (get_prop raw ''root_public_key_spki''),
                                        epochs = es\<rparr>)
                | _ \<Rightarrow> Inl (Error ''keyring.epochs must be a non-empty array'')))"

subsection \<open>Which epoch may sign\<close>

definition find_epoch :: "keyring \<Rightarrow> string \<Rightarrow> epoch_entry option" where
  "find_epoch k epochId = List.find (\<lambda>e. epoch_id e = epochId) (epochs k)"

definition usableEpoch :: "runtime \<Rightarrow> keyring \<Rightarrow> string \<Rightarrow> millis \<Rightarrow> epoch_entry option" where
  "usableEpoch rt k epochId now =
     (case find_epoch k epochId of
        None \<Rightarrow> None
      | Some entry \<Rightarrow>
          if date_ge (Some now) (date_parse rt (not_before entry))
             \<and> (case date_parse rt (not_after entry) of None \<Rightarrow> False | Some t \<Rightarrow> now < t)
          then Some entry else None)"

definition currentEpoch :: "keyring \<Rightarrow> failure + epoch_entry" where
  "currentEpoch k =
     (case find_epoch k (current_epoch k) of
        None \<Rightarrow> Inl (Error ''keyring has no entry for its current epoch'')
      | Some entry \<Rightarrow> Inr entry)"

subsection \<open>The root key\<close>

record ('sk, 'pk) ed25519 =
  ed_import_private :: "bytes \<Rightarrow> string + 'sk"
  ed_import_public :: "bytes \<Rightarrow> string + 'pk"
  ed_public_spki :: "'sk \<Rightarrow> bytes"
  ed_sign :: "'sk \<Rightarrow> bytes \<Rightarrow> bytes"
  ed_verify :: "'pk \<Rightarrow> bytes \<Rightarrow> bytes \<Rightarrow> bool"

text \<open>
  What RFC 8032 and WebCrypto promise: the public half of a private key is importable, is not the
  empty string, and verifies what the private half signs.
\<close>

definition ed25519_correct :: "('sk, 'pk) ed25519 \<Rightarrow> 'sk \<Rightarrow> bool" where
  "ed25519_correct C sk \<longleftrightarrow>
     ed_public_spki C sk \<noteq> []
     \<and> (\<forall>m. ed_sign C sk m \<noteq> [])
     \<and> (\<exists>pk. ed_import_public C (ed_public_spki C sk) = Inr pk
             \<and> (\<forall>m. ed_verify C pk (ed_sign C sk m) m))"

definition lift_error :: "string + 'a \<Rightarrow> failure + 'a" where
  "lift_error r = (case r of Inl m \<Rightarrow> Inl (Error m) | Inr x \<Rightarrow> Inr x)"

definition importRootSigningKey :: "runtime \<Rightarrow> ('sk, 'pk) ed25519 \<Rightarrow> string \<Rightarrow> failure + 'sk" where
  "importRootSigningKey rt C pem =
     (case pkcs8PemToDer rt pem of Inl m \<Rightarrow> Inl (Error m) | Inr der \<Rightarrow> lift_error (ed_import_private C der))"

definition importRootPublicKeyFromPem :: "runtime \<Rightarrow> ('sk, 'pk) ed25519 \<Rightarrow> string \<Rightarrow> failure + 'pk" where
  "importRootPublicKeyFromPem rt C pem =
     (case spkiPemToDer rt pem of Inl m \<Rightarrow> Inl (Error m) | Inr der \<Rightarrow> lift_error (ed_import_public C der))"

definition importRootPublicKey :: "runtime \<Rightarrow> ('sk, 'pk) ed25519 \<Rightarrow> string \<Rightarrow> failure + 'pk" where
  "importRootPublicKey rt C spkiBase64 = lift_error (ed_import_public C (base64ToBytes rt spkiBase64))"

definition signKeyDocument :: "('sk, 'pk) ed25519 \<Rightarrow> 'a key_document_scheme \<Rightarrow> 'sk \<Rightarrow> string" where
  "signKeyDocument C document rootKey = bytesToBase64url (ed_sign C rootKey (canonicalKeyDocument document))"

definition verifyKeyDocument ::
  "runtime \<Rightarrow> ('sk, 'pk) ed25519 \<Rightarrow> 'a key_document_scheme \<Rightarrow> string \<Rightarrow> 'pk \<Rightarrow> bool" where
  "verifyKeyDocument rt C document rootSig rootPublicKey =
     ed_verify C rootPublicKey (base64ToBytes rt (bytesToBase64 (base64ToBytes rt rootSig)))
       (canonicalKeyDocument document)"

fun verify_epochs :: "runtime \<Rightarrow> ('sk, 'pk) ed25519 \<Rightarrow> 'pk \<Rightarrow> epoch_entry list \<Rightarrow> failure + unit" where
  "verify_epochs rt C pk [] = Inr ()"
| "verify_epochs rt C pk (e # es) =
     (if \<not> verifyKeyDocument rt C (publishedDocument e) (root_sig e) pk
      then Inl (Error (''epoch '' @ epoch_id e @ '' root_sig does not verify under the root key''))
      else verify_epochs rt C pk es)"

definition verifyKeyringSignatures :: "runtime \<Rightarrow> ('sk, 'pk) ed25519 \<Rightarrow> keyring \<Rightarrow> failure + unit" where
  "verifyKeyringSignatures rt C k =
     (case importRootPublicKey rt C (root_public_key_spki k) of
        Inl e \<Rightarrow> Inl e
      | Inr pk \<Rightarrow> verify_epochs rt C pk (epochs k))"

subsection \<open>Acceptable keyrings\<close>

text \<open>The instant a string denotes when it is in the form \<open>toISOString\<close> writes.\<close>

definition iso_time :: "string \<Rightarrow> millis option" where
  "iso_time s =
     (case iso_candidate s of
        None \<Rightarrow> None | Some t \<Rightarrow> if toISOString t = Some s then Some t else None)"

definition entry_ok :: "epoch_entry \<Rightarrow> bool" where
  "entry_ok e \<longleftrightarrow>
     epoch_id e \<noteq> [] \<and> root_sig e \<noteq> [] \<and> private_key_pkcs8_pem e \<noteq> []
     \<and> alg e = BLIND_SIGNATURE_SUITE
     \<and> (\<exists>from until. iso_time (not_before e) = Some from \<and> iso_time (not_after e) = Some until \<and> from < until)
     \<and> (\<exists>der. der \<noteq> [] \<and> pubkey e = bytesToBase64 der)"

definition keyring_ok :: "keyring \<Rightarrow> bool" where
  "keyring_ok k \<longleftrightarrow>
     current_epoch k \<noteq> [] \<and> (\<exists>der. der \<noteq> [] \<and> root_public_key_spki k = bytesToBase64 der)
     \<and> (\<forall>e \<in> set (epochs k). entry_ok e)
     \<and> current_epoch k \<in> set (map epoch_id (epochs k)) \<and> distinct (map epoch_id (epochs k))"

definition keyring_signed :: "runtime \<Rightarrow> ('sk, 'pk) ed25519 \<Rightarrow> keyring \<Rightarrow> bool" where
  "keyring_signed rt C k \<longleftrightarrow>
     (\<exists>pk. ed_import_public C (base64ToBytes rt (root_public_key_spki k)) = Inr pk
           \<and> (\<forall>e \<in> set (epochs k). ed_verify C pk (base64ToBytes rt (root_sig e)) (canonicalKeyDocument e)))"

lemma iso_time_iff: "iso_time s = Some t \<longleftrightarrow> toISOString t = Some s"
  using iso_candidate_toISOString [of t s] by (auto simp: iso_time_def split: option.splits)

lemma iso_time_parse [simp]: "iso_time s = Some t \<Longrightarrow> date_parse rt s = Some t"
  by (simp add: iso_time_iff date_parse_toISOString)

lemma isIsoInstant_iff: "isIsoInstant rt v \<longleftrightarrow> (\<exists>s t. v = JStr s \<and> iso_time s = Some t)"
  by (auto simp: isIsoInstant_def iso_time_iff date_parse_toISOString split: jsval.splits option.splits)

lemma decodeStrictBase64_defined:
  "decodeStrictBase64 rt v \<noteq> None \<longleftrightarrow> (\<exists>bs. v = JStr (bytesToBase64 bs) \<and> bs \<noteq> [])"
  using decodeStrictBase64_iff [of rt v] by auto

lemma string_fields_ok:
  "(\<exists>ss. string_fields entry i names = Inr ss) \<longleftrightarrow>
     (\<forall>n \<in> set names. nonempty_string (get_prop entry n) \<noteq> None)"
  by (induction names) (auto split: option.splits sum.splits)

lemma parseEpoch_Inr:
  assumes "parseEpoch rt raw i = Inr e"
  shows "entry_ok e" and "e = entry_of raw"
proof -
  let ?names = "[''epoch_id'', ''alg'', ''pubkey'', ''root_sig'', ''private_key_pkcs8_pem'']"
  obtain ss where ss: "string_fields raw i ?names = Inr ss"
    using assms by (auto simp: parseEpoch_def split: if_splits sum.splits)
  have named: "n \<in> set ?names \<Longrightarrow> \<exists>s. get_prop raw n = JStr s \<and> s \<noteq> []" for n
    using ss string_fields_ok [of raw i ?names] by fastforce
  have strs: "\<exists>s. get_prop raw ''epoch_id'' = JStr s \<and> s \<noteq> []" "\<exists>s. get_prop raw ''root_sig'' = JStr s \<and> s \<noteq> []"
    "\<exists>s. get_prop raw ''private_key_pkcs8_pem'' = JStr s \<and> s \<noteq> []"
    by (rule named, simp)+
  have e: "e = entry_of raw" "get_prop raw ''alg'' = JStr BLIND_SIGNATURE_SUITE"
    "isIsoInstant rt (get_prop raw ''not_before'')" "isIsoInstant rt (get_prop raw ''not_after'')"
    "\<not> date_ge (date_parse rt (js_string (get_prop raw ''not_before''))) (date_parse rt (js_string (get_prop raw ''not_after'')))"
    "decodeStrictBase64 rt (get_prop raw ''pubkey'') \<noteq> None"
    using assms ss by (auto simp: parseEpoch_def simp del: string_fields.simps split: if_splits)
  show "e = entry_of raw" by (rule e(1))
  show "entry_ok e"
    using strs e(2-) unfolding e(1) decodeStrictBase64_defined isIsoInstant_iff
    by (fastforce simp: entry_ok_def entry_of_def)
qed

lemma parseKeyring_Inr:
  assumes "parseKeyring rt raw = Inr k"
  shows "keyring_ok k"
proof -
  from assms obtain entries where es: "get_prop raw ''epochs'' = JArr entries"
    "map_result (\<lambda>(index, entry). parseEpoch rt entry index) (enumerate 0 entries) = Inr (epochs k)"
    and k: "current_epoch k \<noteq> []" "current_epoch k \<in> set (map epoch_id (epochs k))" "distinct (map epoch_id (epochs k))"
      "decodeStrictBase64 rt (get_prop raw ''root_public_key_spki'') \<noteq> None"
      "root_public_key_spki k = js_string (get_prop raw ''root_public_key_spki'')"
    by (auto simp: parseKeyring_def split: if_splits option.splits jsval.splits sum.splits)
  have "entry_ok e" if "e \<in> set (epochs k)" for e
  proof -
    from es(2) have "map (\<lambda>(index, entry). parseEpoch rt entry index) (enumerate 0 entries) = map Inr (epochs k)"
      by (simp only: map_result_Inr_iff)
    with that have "Inr e \<in> set (map (\<lambda>(index, entry). parseEpoch rt entry index) (enumerate 0 entries))"
      by simp
    then show ?thesis by (auto dest: parseEpoch_Inr(1) [OF sym])
  qed
  moreover from k(4,5) have "\<exists>der. der \<noteq> [] \<and> root_public_key_spki k = bytesToBase64 der"
    unfolding decodeStrictBase64_defined by auto
  ultimately show ?thesis using k(1-3) by (simp add: keyring_ok_def)
qed

subsection \<open>Looking epochs up\<close>

lemma find_epoch_iff:
  "keyring_ok k \<Longrightarrow> find_epoch k i = Some e \<longleftrightarrow> e \<in> set (epochs k) \<and> epoch_id e = i"
  using find_SomeD [of "\<lambda>e. epoch_id e = i" "epochs k" e] find_distinct_key [of epoch_id "epochs k" e i]
  by (auto simp: find_epoch_def keyring_ok_def)

lemma usableEpoch_iff:
  assumes "keyring_ok k"
  shows "usableEpoch rt k i now = Some e \<longleftrightarrow>
    e \<in> set (epochs k) \<and> epoch_id e = i
    \<and> (\<exists>from until. toISOString from = Some (not_before e) \<and> toISOString until = Some (not_after e)
                    \<and> from \<le> now \<and> now < until)"
proof -
  have "find_epoch k i = Some e \<Longrightarrow> \<exists>from until. iso_time (not_before e) = Some from \<and> iso_time (not_after e) = Some until"
    using assms by (auto simp: find_epoch_iff keyring_ok_def entry_ok_def)
  then obtain t0 t1 where t: "find_epoch k i = Some e \<Longrightarrow> toISOString t0 = Some (not_before e) \<and> toISOString t1 = Some (not_after e)"
    by (auto simp: iso_time_iff)
  have usable: "usableEpoch rt k i now = Some e \<longleftrightarrow> t0 \<le> now \<and> now < t1" if "find_epoch k i = Some e"
    using t [OF that] that date_parse_toISOString [of t0 "not_before e" rt] date_parse_toISOString [of t1 "not_after e" rt]
    by (simp add: usableEpoch_def)
  have "usableEpoch rt k i now = Some e \<Longrightarrow> find_epoch k i = Some e"
    by (auto simp: usableEpoch_def split: option.splits if_splits)
  then show ?thesis
    using usable t find_epoch_iff [OF assms, of i e] toISOString_inj by metis
qed

lemma usableEpoch_SomeD: "usableEpoch rt k i now = Some e \<Longrightarrow> e \<in> set (epochs k) \<and> epoch_id e = i"
  by (auto simp: usableEpoch_def find_epoch_def find_Some_iff split: option.splits if_splits)

lemma currentEpoch_ok:
  assumes "keyring_ok k"
  obtains e where "currentEpoch k = Inr e" and "e \<in> set (epochs k)" and "epoch_id e = current_epoch k"
proof -
  from assms obtain e where "e \<in> set (epochs k)" "epoch_id e = current_epoch k"
    by (auto simp: keyring_ok_def)
  moreover from this have "currentEpoch k = Inr e"
    using find_epoch_iff [OF assms, of "current_epoch k" e] by (simp add: currentEpoch_def)
  ultimately show ?thesis using that by blast
qed

subsection \<open>The root signature\<close>

lemma canonical_published [simp]: "canonicalKeyDocument (publishedDocument e) = canonicalKeyDocument e"
  by (simp add: canonicalKeyDocument_def document_json_def publishedDocument_def)

lemma verify_epochs_Inr:
  "verify_epochs rt C pk es = Inr () \<longleftrightarrow>
     (\<forall>e \<in> set es. ed_verify C pk (base64ToBytes rt (root_sig e)) (canonicalKeyDocument e))"
  by (induction es) (auto simp: verifyKeyDocument_def)

lemma verifyKeyringSignatures_iff: "verifyKeyringSignatures rt C k = Inr () \<longleftrightarrow> keyring_signed rt C k"
  by (auto simp: verifyKeyringSignatures_def keyring_signed_def importRootPublicKey_def lift_error_def
      verify_epochs_Inr split: sum.splits)

lemma signKeyDocument_verifies:
  assumes "ed25519_correct C sk" and "ed_import_public C (ed_public_spki C sk) = Inr pk"
  shows "verifyKeyDocument rt C document (signKeyDocument C document sk) pk"
  using assms by (auto simp: verifyKeyDocument_def signKeyDocument_def ed25519_correct_def)

text \<open>Signed bytes determine the document, so no field of it can change under a signature.\<close>

definition document_text :: "'a key_document_scheme \<Rightarrow> bool" where
  "document_text d \<longleftrightarrow>
     valid_utf8 (alg d) \<and> valid_utf8 (epoch_id d) \<and> valid_utf8 (not_after d) \<and> valid_utf8 (not_before d)
     \<and> valid_utf8 (pubkey d)"

lemma document_json_plain: "document_text d \<Longrightarrow> json_plain (document_json d)"
  by (auto simp: document_json_def document_text_def ascii_def in_range_def intro!: valid_utf8_all_ascii)

lemma canonicalKeyDocument_inj:
  fixes d e :: key_document
  assumes "document_text d" and "document_text e"
  shows "canonicalKeyDocument d = canonicalKeyDocument e \<longleftrightarrow> d = e"
proof
  assume "canonicalKeyDocument d = canonicalKeyDocument e"
  then have "document_json d = document_json e"
    using document_json_plain [OF assms(1)] document_json_plain [OF assms(2)]
    by (metis canonicalKeyDocument_def json_roundtrip no_surrogate_encode valid_utf8_no_surrogate valid_utf8_stringify option.inject)
  then show "d = e" by (simp add: document_json_def)
qed simp

subsection \<open>A keyring is read back from its JSON\<close>

lemma keyring_literals:
  "valid_utf8 ''epoch_id''" "valid_utf8 ''not_before''" "valid_utf8 ''not_after''" "valid_utf8 ''alg''" "valid_utf8 ''pubkey''"
  "valid_utf8 ''root_sig''" "valid_utf8 ''private_key_pkcs8_pem''" "valid_utf8 ''current_epoch''"
  "valid_utf8 ''root_public_key_spki''" "valid_utf8 ''epochs''" "valid_utf8 BLIND_SIGNATURE_SUITE"
  by (rule valid_utf8_all_ascii, simp add: ascii_def in_range_def BLIND_SIGNATURE_SUITE_def)+

definition entry_json :: "epoch_entry \<Rightarrow> jsval" where
  "entry_json e =
     JObj [(''epoch_id'', JStr (epoch_id e)), (''not_before'', JStr (not_before e)),
           (''not_after'', JStr (not_after e)), (''alg'', JStr (alg e)), (''pubkey'', JStr (pubkey e)),
           (''root_sig'', JStr (root_sig e)), (''private_key_pkcs8_pem'', JStr (private_key_pkcs8_pem e))]"

definition keyring_json :: "keyring \<Rightarrow> jsval" where
  "keyring_json k =
     JObj [(''current_epoch'', JStr (current_epoch k)), (''root_public_key_spki'', JStr (root_public_key_spki k)),
           (''epochs'', JArr (map entry_json (epochs k)))]"

lemma parseEpoch_entry_json:
  assumes "entry_ok e"
  shows "parseEpoch rt (entry_json e) i = Inr e"
proof -
  from assms obtain t0 t1 der where t: "iso_time (not_before e) = Some t0" "iso_time (not_after e) = Some t1"
      "t0 < t1" and der: "der \<noteq> []" "pubkey e = bytesToBase64 der"
      and r: "epoch_id e \<noteq> []" "root_sig e \<noteq> []" "private_key_pkcs8_pem e \<noteq> []" "alg e = BLIND_SIGNATURE_SUITE"
    by (auto simp: entry_ok_def)
  have props: "get_prop (entry_json e) ''epoch_id'' = JStr (epoch_id e)"
    "get_prop (entry_json e) ''not_before'' = JStr (not_before e)" "get_prop (entry_json e) ''not_after'' = JStr (not_after e)"
    "get_prop (entry_json e) ''alg'' = JStr (alg e)" "get_prop (entry_json e) ''pubkey'' = JStr (pubkey e)"
    "get_prop (entry_json e) ''root_sig'' = JStr (root_sig e)"
    "get_prop (entry_json e) ''private_key_pkcs8_pem'' = JStr (private_key_pkcs8_pem e)"
    "is_object (entry_json e)"
    by (simp_all add: entry_json_def)
  have "nonempty_string (JStr BLIND_SIGNATURE_SUITE) = Some BLIND_SIGNATURE_SUITE"
    by (simp add: BLIND_SIGNATURE_SUITE_def)
  moreover have "decodeStrictBase64 rt (JStr (pubkey e)) = Some der" using der by (simp add: decodeStrictBase64_iff)
  moreover have "entry_of (entry_json e) = e" by (simp add: entry_of_def props)
  ultimately show ?thesis
    using t r der by (simp add: parseEpoch_def props isIsoInstant_iff)
qed

lemma parseKeyring_keyring_json:
  assumes "keyring_ok k"
  shows "parseKeyring rt (keyring_json k) = Inr k"
proof -
  have props: "get_prop (keyring_json k) ''current_epoch'' = JStr (current_epoch k)"
    "get_prop (keyring_json k) ''root_public_key_spki'' = JStr (root_public_key_spki k)"
    "get_prop (keyring_json k) ''epochs'' = JArr (map entry_json (epochs k))" "is_object (keyring_json k)"
    by (simp_all add: keyring_json_def)
  have entries: "map_result (\<lambda>(index, entry). parseEpoch rt entry index) (enumerate n (map entry_json es)) = Inr es"
    if "\<forall>e \<in> set es. entry_ok e" for n es
    using that by (induction es arbitrary: n) (simp_all add: parseEpoch_entry_json)
  from assms obtain der where "der \<noteq> []" "root_public_key_spki k = bytesToBase64 der"
    and k: "current_epoch k \<noteq> []" "\<forall>e \<in> set (epochs k). entry_ok e" "current_epoch k \<in> set (map epoch_id (epochs k))"
      "distinct (map epoch_id (epochs k))"
    by (auto simp: keyring_ok_def)
  then have "decodeStrictBase64 rt (JStr (root_public_key_spki k)) = Some der"
    by (simp add: decodeStrictBase64_iff)
  with k entries [OF k(2), of 0] show ?thesis
    by (auto simp: parseKeyring_def props)
qed

end
