(* ===== verification/KeysService.thy ===== *)
theory KeysService
  imports Keyring
begin

text \<open>
  \<open>keys/keys.service.ts\<close>, \<open>keys/keys.controller.ts\<close> and \<open>health/health.controller.ts\<close>: the loaded keyring,
  the periodic reload that never lets a bad file replace a good keyring, and the health report.

  The file system is the argument \<open>contents\<close> (\<open>None\<close> when the read fails) and SHA-256 the parameter \<open>sha256\<close>.
  Log lines and the material handed to the listeners are part of the result; what the one listener does with it, and
  what happens when it throws, is \<open>reload_tick\<close> of \<open>Workers\<close>.
\<close>

record keys_state =
  ks_keyring :: "keyring option"
  ks_fingerprint :: "string option"

definition initial_keys :: keys_state where
  "initial_keys = \<lparr>ks_keyring = None, ks_fingerprint = None\<rparr>"

datatype log_line = LogInfo string | LogWarn string | LogError string

record reload_result =
  rr_state :: keys_state
  rr_notify :: "key_material list option"
  rr_log :: "log_line list"

record signing_health =
  sh_epoch :: string
  sh_usable :: bool
  sh_expiresInSeconds :: jsnumber

subsection \<open>Queries\<close>

definition require_keyring :: "keys_state \<Rightarrow> failure + keyring" where
  "require_keyring s = (case ks_keyring s of None \<Rightarrow> Inl (Error ''keyring not loaded'') | Some k \<Rightarrow> Inr k)"

definition keys_current :: "keys_state \<Rightarrow> failure + published_document" where
  "keys_current s =
     (case require_keyring s of
        Inl e \<Rightarrow> Inl e
      | Inr k \<Rightarrow> (case currentEpoch k of Inl e \<Rightarrow> Inl e | Inr entry \<Rightarrow> Inr (publishedDocument entry)))"

definition keys_usable :: "runtime \<Rightarrow> keys_state \<Rightarrow> string \<Rightarrow> millis \<Rightarrow> failure + epoch_entry option" where
  "keys_usable rt s epochId now =
     (case require_keyring s of Inl e \<Rightarrow> Inl e | Inr k \<Rightarrow> Inr (usableEpoch rt k epochId now))"

text \<open>\<open>Math.round(x / 1000)\<close> of an integer \<open>x\<close>: halves round towards positive infinity.\<close>

definition round_seconds :: "int \<Rightarrow> int" where
  "round_seconds x = (x + 500) div 1000"

definition signingHealth :: "runtime \<Rightarrow> keys_state \<Rightarrow> millis \<Rightarrow> failure + signing_health" where
  "signingHealth rt s now =
     (case require_keyring s of
        Inl e \<Rightarrow> Inl e
      | Inr k \<Rightarrow>
          (case currentEpoch k of
             Inl e \<Rightarrow> Inl e
           | Inr epoch \<Rightarrow>
               Inr \<lparr>sh_epoch = epoch_id epoch,
                    sh_usable = (usableEpoch rt k (epoch_id epoch) now \<noteq> None),
                    sh_expiresInSeconds =
                      (case date_parse rt (not_after epoch) of
                         None \<Rightarrow> NaN | Some t \<Rightarrow> Integer (round_seconds (t - now)))\<rparr>))"

definition keyMaterial :: "keys_state \<Rightarrow> failure + key_material list" where
  "keyMaterial s =
     (case require_keyring s of
        Inl e \<Rightarrow> Inl e
      | Inr k \<Rightarrow> Inr (map (\<lambda>e. \<lparr>km_epoch = epoch_id e, km_privateKeyPem = private_key_pkcs8_pem e\<rparr>) (epochs k)))"

subsection \<open>Reload\<close>

definition EXPIRY_WARNING_SECONDS :: int where "EXPIRY_WARNING_SECONDS = 86400"

definition warnIfExpiring :: "runtime \<Rightarrow> keys_state \<Rightarrow> millis \<Rightarrow> failure + log_line list" where
  "warnIfExpiring rt s now =
     (case signingHealth rt s now of
        Inl e \<Rightarrow> Inl e
      | Inr h \<Rightarrow>
          if \<not> sh_usable h
          then Inr [LogError (''epoch '' @ sh_epoch h @ '' is not usable: nothing can be signed until a rotation'')]
          else (case sh_expiresInSeconds h of
                  Integer n \<Rightarrow>
                    if n < EXPIRY_WARNING_SECONDS
                    then Inr [LogWarn (''epoch '' @ sh_epoch h @ '' expires in '' @ show_int n
                                 @ ''s and nothing has rotated it'')]
                    else Inr []
                | _ \<Rightarrow> Inr []))"

fun join_commas :: "string list \<Rightarrow> string" where
  "join_commas [] = []"
| "join_commas [s] = s"
| "join_commas (s # t # ss) = s @ '', '' @ join_commas (t # ss)"

text \<open>\<open>parseKeyring(JSON.parse(raw))\<close> and \<open>verifyKeyringSignatures\<close>, with the message of what failed.\<close>

fun failure_message :: "failure \<Rightarrow> string" where
  "failure_message (IssuerException _ m) = m"
| "failure_message UniqueViolation = ''duplicate key value violates unique constraint''"
| "failure_message (Error m) = m"

definition accept_keyring :: "runtime \<Rightarrow> ('sk, 'pk) ed25519 \<Rightarrow> string \<Rightarrow> failure + keyring" where
  "accept_keyring rt C raw =
     (case json_parse raw of
        None \<Rightarrow> Inl (Error (json_message rt raw))
      | Some v \<Rightarrow>
          (case parseKeyring rt v of
             Inl e \<Rightarrow> Inl e
           | Inr k \<Rightarrow> (case verifyKeyringSignatures rt C k of Inl e \<Rightarrow> Inl e | Inr _ \<Rightarrow> Inr k)))"

definition reload ::
  "runtime \<Rightarrow> ('sk, 'pk) ed25519 \<Rightarrow> (string \<Rightarrow> string) \<Rightarrow> issuer_config \<Rightarrow> bool \<Rightarrow> string option \<Rightarrow> millis
     \<Rightarrow> keys_state \<Rightarrow> failure + reload_result"
where
  "reload rt C sha256 config initial contents now s =
     (let path = keyringPath config; keep = (\<lambda>log. Inr \<lparr>rr_state = s, rr_notify = None, rr_log = log\<rparr>) in
      case contents of
        None \<Rightarrow>
          if initial then Inl (Error (''unable to read keyring at '' @ path))
          else keep [LogError (''keyring at '' @ path @ '' became unreadable; keeping the loaded one'')]
      | Some raw \<Rightarrow>
          if ks_fingerprint s = Some (sha256 raw) then keep []
          else (case accept_keyring rt C raw of
                  Inl cause \<Rightarrow>
                    (let message = ''invalid keyring at '' @ path @ '': '' @ failure_message cause in
                     if initial then Inl (Error message)
                     else keep [LogError (message @ ''; keeping the loaded one'')])
                | Inr k \<Rightarrow>
                    (let s' = \<lparr>ks_keyring = Some k, ks_fingerprint = Some (sha256 raw)\<rparr>;
                         info = LogInfo ((if initial then ''loaded'' else ''reloaded'')
                                  @ '' keyring: current epoch '' @ current_epoch k @ '', usable [''
                                  @ join_commas (map epoch_id (epochs k)) @ '']'')
                     in case keyMaterial s' of
                          Inl e \<Rightarrow> Inl e
                        | Inr material \<Rightarrow>
                            (case warnIfExpiring rt s' now of
                               Inl e \<Rightarrow> Inl e
                             | Inr warning \<Rightarrow>
                                 Inr \<lparr>rr_state = s', rr_notify = Some material, rr_log = info # warning\<rparr>))))"

text \<open>\<open>onModuleInit\<close> and then one reload per tick of the timer, each with what the file held then.\<close>

fun poll ::
  "runtime \<Rightarrow> ('sk, 'pk) ed25519 \<Rightarrow> (string \<Rightarrow> string) \<Rightarrow> issuer_config \<Rightarrow> (string option \<times> millis) list
     \<Rightarrow> keys_state \<Rightarrow> failure + keys_state"
where
  "poll rt C sha256 config [] s = Inr s"
| "poll rt C sha256 config ((contents, now) # files) s =
     (case reload rt C sha256 config False contents now s of
        Inl e \<Rightarrow> Inl e | Inr r \<Rightarrow> poll rt C sha256 config files (rr_state r))"

definition serve_keys ::
  "runtime \<Rightarrow> ('sk, 'pk) ed25519 \<Rightarrow> (string \<Rightarrow> string) \<Rightarrow> issuer_config \<Rightarrow> string option \<times> millis
     \<Rightarrow> (string option \<times> millis) list \<Rightarrow> failure + keys_state"
where
  "serve_keys rt C sha256 config first files =
     (case reload rt C sha256 config True (fst first) (snd first) initial_keys of
        Inl e \<Rightarrow> Inl e | Inr r \<Rightarrow> poll rt C sha256 config files (rr_state r))"

subsection \<open>Health\<close>

datatype health_answer =
    HealthOk string jsnumber
  | ServiceUnavailable string jsnumber string

definition health :: "runtime \<Rightarrow> keys_state \<Rightarrow> millis \<Rightarrow> failure + health_answer" where
  "health rt s now =
     (case signingHealth rt s now of
        Inl e \<Rightarrow> Inl e
      | Inr h \<Rightarrow>
          if \<not> sh_usable h
          then Inr (ServiceUnavailable (sh_epoch h) (sh_expiresInSeconds h)
                      ''no usable epoch key; the keyring needs a rotation'')
          else Inr (HealthOk (sh_epoch h) (sh_expiresInSeconds h)))"

subsection \<open>The invariant of the loaded keyring\<close>

definition keys_inv :: "runtime \<Rightarrow> ('sk, 'pk) ed25519 \<Rightarrow> keys_state \<Rightarrow> bool" where
  "keys_inv rt C s \<longleftrightarrow> (\<forall>k. ks_keyring s = Some k \<longrightarrow> keyring_ok k \<and> keyring_signed rt C k)"

lemma accept_keyring_Inr:
  "accept_keyring rt C raw = Inr k \<Longrightarrow> keyring_ok k \<and> keyring_signed rt C k"
  using verifyKeyringSignatures_iff [of rt C k]
  by (auto simp: accept_keyring_def dest: parseKeyring_Inr split: option.splits sum.splits)

lemma warnIfExpiring_ok:
  assumes "keyring_ok k"
  shows "\<exists>log. warnIfExpiring rt \<lparr>ks_keyring = Some k, ks_fingerprint = f\<rparr> now = Inr log"
proof -
  obtain e where "currentEpoch k = Inr e" using currentEpoch_ok [OF assms] by blast
  then show ?thesis
    by (simp add: warnIfExpiring_def signingHealth_def require_keyring_def split: jsnumber.split option.split)
qed

text \<open>A reload with an acceptable file installs it; any other leaves the state as it was.\<close>

lemma reload_accepts:
  assumes "accept_keyring rt C raw = Inr k" and "ks_fingerprint s \<noteq> Some (sha256 raw)"
  shows "\<exists>log. reload rt C sha256 config initial (Some raw) now s =
    Inr \<lparr>rr_state = \<lparr>ks_keyring = Some k, ks_fingerprint = Some (sha256 raw)\<rparr>,
         rr_notify = Some (map (\<lambda>e. \<lparr>km_epoch = epoch_id e, km_privateKeyPem = private_key_pkcs8_pem e\<rparr>) (epochs k)),
         rr_log = log\<rparr>"
proof -
  have "keyring_ok k" using accept_keyring_Inr [OF assms(1)] by simp
  then obtain log where "warnIfExpiring rt \<lparr>ks_keyring = Some k, ks_fingerprint = Some (sha256 raw)\<rparr> now = Inr log"
    using warnIfExpiring_ok by blast
  with assms show ?thesis
    by (simp add: reload_def Let_def keyMaterial_def require_keyring_def)
qed

lemma reload_keeps:
  assumes "\<And>raw k. contents = Some raw \<Longrightarrow> accept_keyring rt C raw \<noteq> Inr k"
  shows "\<exists>log. reload rt C sha256 config False contents now s = Inr \<lparr>rr_state = s, rr_notify = None, rr_log = log\<rparr>"
  using assms by (cases contents) (auto simp: reload_def Let_def split: sum.split)

lemma reload_same:
  "ks_fingerprint s = Some (sha256 raw) \<Longrightarrow>
     reload rt C sha256 config initial (Some raw) now s = Inr \<lparr>rr_state = s, rr_notify = None, rr_log = []\<rparr>"
  by (simp add: reload_def Let_def)

subsection \<open>The keyring in use is the last acceptable one the file held\<close>

definition acceptable :: "runtime \<Rightarrow> ('sk, 'pk) ed25519 \<Rightarrow> string option \<Rightarrow> keyring option" where
  "acceptable rt C contents =
     (case contents of
        None \<Rightarrow> None
      | Some raw \<Rightarrow> (case accept_keyring rt C raw of Inl _ \<Rightarrow> None | Inr k \<Rightarrow> Some k))"

fun last_acceptable :: "runtime \<Rightarrow> ('sk, 'pk) ed25519 \<Rightarrow> keyring \<Rightarrow> string option list \<Rightarrow> keyring" where
  "last_acceptable rt C k [] = k"
| "last_acceptable rt C k (f # fs) =
     last_acceptable rt C (case acceptable rt C f of None \<Rightarrow> k | Some k' \<Rightarrow> k') fs"

text \<open>The state after a successful load: the fingerprint is that of the file the keyring came from.\<close>

definition loaded_from :: "runtime \<Rightarrow> ('sk, 'pk) ed25519 \<Rightarrow> (string \<Rightarrow> string) \<Rightarrow> string \<Rightarrow> keyring \<Rightarrow> keys_state \<Rightarrow> bool" where
  "loaded_from rt C sha256 raw k s \<longleftrightarrow>
     accept_keyring rt C raw = Inr k \<and> s = \<lparr>ks_keyring = Some k, ks_fingerprint = Some (sha256 raw)\<rparr>"

lemma acceptable_Some: "acceptable rt C f = Some k \<longleftrightarrow> (\<exists>raw. f = Some raw \<and> accept_keyring rt C raw = Inr k)"
  by (auto simp: acceptable_def split: option.splits sum.splits)

lemma reload_step:
  assumes "loaded_from rt C sha256 raw0 k s" and "inj_on sha256 X" and "raw0 \<in> X"
    and "\<And>raw. f = Some raw \<Longrightarrow> raw \<in> X"
  obtains r raw1 where "reload rt C sha256 config False f now s = Inr r" and "raw1 \<in> X"
    and "loaded_from rt C sha256 raw1 (case acceptable rt C f of None \<Rightarrow> k | Some k' \<Rightarrow> k') (rr_state r)"
proof (cases "acceptable rt C f")
  case None
  then have "\<And>raw k. f = Some raw \<Longrightarrow> accept_keyring rt C raw \<noteq> Inr k"
    by (auto simp: acceptable_def split: sum.splits)
  from reload_keeps [OF this, where ?sha256.0 = sha256 and config = config and now = now and s = s] that [of _ raw0] assms(1,3) None show ?thesis
    by fastforce
next
  case (Some k')
  then obtain raw where f: "f = Some raw" and acc: "accept_keyring rt C raw = Inr k'"
    by (auto simp: acceptable_Some)
  show ?thesis
  proof (cases "sha256 raw0 = sha256 raw")
    case True
    with inj_onD [OF assms(2) True assms(3) assms(4) [OF f]] have "raw0 = raw" by simp
    with acc assms(1) have "k' = k" by (simp add: loaded_from_def)
    with reload_same [of s sha256 raw rt C config False now] that [of _ raw0] assms(1,3) True f Some show ?thesis
      by (fastforce simp: loaded_from_def)
  next
    case False
    with assms(1) have "ks_fingerprint s \<noteq> Some (sha256 raw)" by (simp add: loaded_from_def)
    from reload_accepts [OF acc, of s sha256 config False now, OF this] that [of _ raw] assms(4) f acc Some show ?thesis
      by (fastforce simp: loaded_from_def)
  qed
qed

lemma poll_last:
  assumes "loaded_from rt C sha256 raw0 k s" and "inj_on sha256 X" and "raw0 \<in> X"
    and "\<forall>raw. Some raw \<in> fst ` set files \<longrightarrow> raw \<in> X"
  shows "\<exists>s'. poll rt C sha256 config files s = Inr s' \<and> ks_keyring s' = Some (last_acceptable rt C k (map fst files))"
  using assms
proof (induction files arbitrary: raw0 k s)
  case Nil
  then show ?case by (simp add: loaded_from_def)
next
  case (Cons fn files)
  obtain f now where fn: "fn = (f, now)" by force
  from Cons.prems fn have "\<And>raw. f = Some raw \<Longrightarrow> raw \<in> X" by auto
  from reload_step [OF Cons.prems(1-3) this] obtain r raw1
    where "reload rt C sha256 config False f now s = Inr r" "raw1 \<in> X"
      "loaded_from rt C sha256 raw1 (case acceptable rt C f of None \<Rightarrow> k | Some k' \<Rightarrow> k') (rr_state r)"
    by blast
  with Cons.IH [OF this(3) Cons.prems(2) this(2)] Cons.prems(4) show ?case by (simp add: fn)
qed

lemma last_acceptable_ok:
  "keyring_ok k \<and> keyring_signed rt C k \<Longrightarrow>
     keyring_ok (last_acceptable rt C k fs) \<and> keyring_signed rt C (last_acceptable rt C k fs)"
proof (induction fs arbitrary: k)
  case (Cons f fs)
  show ?case
  proof (cases "acceptable rt C f")
    case (Some k')
    then have "keyring_ok k' \<and> keyring_signed rt C k'"
      unfolding acceptable_Some by (blast dest: accept_keyring_Inr)
    with Cons.IH [of k'] Some show ?thesis by simp
  qed (use Cons in simp)
qed simp

lemma serve_keys_first:
  assumes "acceptable rt C (fst first) = Some k"
  obtains r raw where "reload rt C sha256 config True (fst first) (snd first) initial_keys = Inr r"
    and "fst first = Some raw" and "loaded_from rt C sha256 raw k (rr_state r)"
proof -
  from assms obtain raw where raw: "fst first = Some raw" and acc: "accept_keyring rt C raw = Inr k"
    by (auto simp: acceptable_Some)
  have "ks_fingerprint initial_keys \<noteq> Some (sha256 raw)" by (simp add: initial_keys_def)
  from reload_accepts [OF acc, of initial_keys sha256 config True "snd first", OF this] raw acc that show ?thesis
    by (fastforce simp: loaded_from_def)
qed

subsection \<open>Health\<close>

lemma health_loaded:
  assumes "keyring_ok k" and "ks_keyring s = Some k"
  obtains e t where "currentEpoch k = Inr e" and "toISOString t = Some (not_after e)"
    and "health rt s now = Inr (if usableEpoch rt k (current_epoch k) now = None
       then ServiceUnavailable (current_epoch k) (Integer (round_seconds (t - now))) ''no usable epoch key; the keyring needs a rotation''
       else HealthOk (current_epoch k) (Integer (round_seconds (t - now))))"
proof -
  obtain e where e: "currentEpoch k = Inr e" "e \<in> set (epochs k)" "epoch_id e = current_epoch k"
    using currentEpoch_ok [OF assms(1)] .
  then obtain t where t: "iso_time (not_after e) = Some t"
    using assms(1) by (auto simp: keyring_ok_def entry_ok_def)
  show ?thesis
    by (rule that [OF e(1), of t])
      (use e t assms(2) iso_time_parse [OF t, of rt] in \<open>auto simp: iso_time_iff health_def signingHealth_def require_keyring_def\<close>)
qed

end
