(* ===== verification/Issuance.thy ===== *)
theory Issuance
  imports BundleRequest Accounting RateLimiter KeysService
begin

text \<open>
  \<open>issuance/issuance.service.ts\<close>: the path every bundle takes, whichever rail authorised it. The order
  is the source's: rate limit, validation, epoch check, signing, then one transaction that writes the
  idempotency claim, the ledger row, both counters and the grant's own bookkeeping.

  The world a request runs in is the record \<open>request_env\<close>: the configuration, the external services
  (Redis, SHA-256, the signer pool) and what they and the clocks answer during this request. The state
  that outlives it is the Redis store and the database.
\<close>

record bundle_response =
  resp_epoch :: string
  blind_signatures :: "string list"

record grant =
  gr_reference :: string
  gr_consume :: "(db \<Rightarrow> failure + db) option"

record 's request_env =
  rq_rt :: runtime
  rq_config :: issuer_config
  rq_redis :: "'s redis"
  rq_sha256 :: "bytes \<Rightarrow> string"
  rq_keys :: keys_state
  rq_pool_sign :: "string \<Rightarrow> string \<Rightarrow> string + string"
  rq_settles :: "nat list"  \<comment> \<open>the order in which the signings of the bundle settle\<close>
  rq_now :: millis  \<comment> \<open>\<open>Date.now()\<close> in the rate limiter\<close>
  rq_signNow :: millis  \<comment> \<open>\<open>new Date()\<close> when the epoch is checked\<close>
  rq_uuid :: string  \<comment> \<open>the random id of this request\<close>
  rq_queryNow :: millis  \<comment> \<open>the database's \<open>now()\<close> outside the transaction\<close>
  rq_dbNow :: millis  \<comment> \<open>the database's \<open>now()\<close> in the transaction\<close>

subsection \<open>Recording one issuance\<close>

definition idempotency_key :: "idempotency_row \<Rightarrow> string \<times> string" where
  "idempotency_key r = (id_paymentRef r, id_idempotencyKey r)"

definition insert_idempotency :: "millis \<Rightarrow> string \<Rightarrow> string \<Rightarrow> string \<Rightarrow> db \<Rightarrow> failure + db" where
  "insert_idempotency now reference key fingerprint d =
     (if (reference, key) \<in> set (map idempotency_key (idempotency_record d)) then Inl UniqueViolation
      else Inr (d\<lparr>idempotency_record := idempotency_record d @
             [\<lparr>id_paymentRef = reference, id_idempotencyKey = key, id_requestFingerprint = fingerprint,
               id_createdAt = now\<rparr>]\<rparr>))"

definition insert_issuance :: "millis \<Rightarrow> string \<Rightarrow> string \<Rightarrow> db \<Rightarrow> db" where
  "insert_issuance now reference epoch d =
     d\<lparr>issuance_record := issuance_record d @
         [\<lparr>ir_paymentRef = reference, ir_epoch = epoch, ir_bundleCount = 1, ir_timestamp = now\<rparr>]\<rparr>"

definition record_body ::
  "millis \<Rightarrow> issuer_config \<Rightarrow> grant \<Rightarrow> bundle_request \<Rightarrow> bundle_response \<Rightarrow> (string \<times> string) option \<Rightarrow> db
     \<Rightarrow> failure + unit \<times> db"
where
  "record_body now config g request response idempotency d =
     (case (case idempotency of
              None \<Rightarrow> Inr d
            | Some (key, fingerprint) \<Rightarrow> insert_idempotency now (gr_reference g) key fingerprint d) of
        Inl e \<Rightarrow> Inl e
      | Inr d1 \<Rightarrow>
          (let d2 = insert_issuance now (gr_reference g) (req_epoch request) d1;
               d3 = recordBundlePaid now (req_epoch request) (int (bundleSize config)) d2;
               d4 = recordSignaturesIssued now (req_epoch request) (int (length (blind_signatures response)))
                      (int (bundleSize config)) d3
           in case gr_consume g of
                None \<Rightarrow> Inr ((), d4)
              | Some consume \<Rightarrow> (case consume d4 of Inl e \<Rightarrow> Inl e | Inr d5 \<Rightarrow> Inr ((), d5))))"

definition record_issuance ::
  "millis \<Rightarrow> issuer_config \<Rightarrow> grant \<Rightarrow> bundle_request \<Rightarrow> bundle_response \<Rightarrow> (string \<times> string) option \<Rightarrow> db
     \<Rightarrow> (failure + unit) \<times> db"
where
  "record_issuance now config g request response idempotency =
     transaction (record_body now config g request response idempotency)"

subsection \<open>Signing and fingerprinting\<close>

definition signBundle ::
  "nat list \<Rightarrow> (string \<Rightarrow> string \<Rightarrow> string + string) \<Rightarrow> bundle_request \<Rightarrow> failure + bundle_response" where
  "signBundle settles pool_sign request =
     (case promise_all settles (map (signBlindedBlank pool_sign (req_epoch request)) (blinded_blanks request)) of
        Inl e \<Rightarrow> Inl e
      | Inr sigs \<Rightarrow> Inr \<lparr>resp_epoch = req_epoch request, blind_signatures = sigs\<rparr>)"

definition fingerprint_input :: "string \<Rightarrow> bundle_request \<Rightarrow> bytes" where
  "fingerprint_input reference request =
     utf8_encode reference @ [CHR 0x00] @ utf8_encode (req_epoch request)
     @ concat (map (\<lambda>blank. CHR 0x00 # utf8_encode blank) (blinded_blanks request))"

definition fingerprintRequest :: "(bytes \<Rightarrow> string) \<Rightarrow> string \<Rightarrow> bundle_request \<Rightarrow> string" where
  "fingerprintRequest sha256 reference request = sha256 (fingerprint_input reference request)"

definition find_idempotency :: "string \<Rightarrow> string \<Rightarrow> db \<Rightarrow> idempotency_row option" where
  "find_idempotency reference key d = lookup_by idempotency_key (reference, key) (idempotency_record d)"

definition isReplay :: "string \<Rightarrow> string \<Rightarrow> db \<Rightarrow> bool" where
  "isReplay reference key d \<longleftrightarrow>
     0 < length (filter (\<lambda>r. idempotency_key r = (reference, key)) (idempotency_record d))"

subsection \<open>Issuing\<close>

text \<open>Up to the transaction: nothing here touches the database.\<close>

definition issue_prepare ::
  "'s request_env \<Rightarrow> grant \<Rightarrow> jsval \<Rightarrow> 's \<Rightarrow> (failure + bundle_request \<times> bundle_response) \<times> 's"
where
  "issue_prepare env g body s =
     (case allow (rq_redis env) (rq_config env) (rq_now env) (rq_uuid env) (gr_reference g) s of
        (Inl e, s') \<Rightarrow> (Inl e, s')
      | (Inr False, s') \<Rightarrow> (Inl (IssuerException RATE_LIMITED ''too many requests for this reference''), s')
      | (Inr True, s') \<Rightarrow>
          (case validateBundleRequest (rq_rt env) body (rq_config env) of
             Inl e \<Rightarrow> Inl e
           | Inr request \<Rightarrow>
               (case keys_usable (rq_rt env) (rq_keys env) (req_epoch request) (rq_signNow env) of
                  Inl e \<Rightarrow> Inl e
                | Inr None \<Rightarrow>
                    Inl (IssuerException WRONG_EPOCH
                      (''epoch '' @ req_epoch request @ '' is not currently signable''))
                | Inr (Some _) \<Rightarrow>
                    (case signBundle (rq_settles env) (rq_pool_sign env) request of
                       Inl e \<Rightarrow> Inl e
                     | Inr response \<Rightarrow> Inr (request, response))), s'))"

definition issue_commit ::
  "'s request_env \<Rightarrow> grant \<Rightarrow> string option \<Rightarrow> bundle_request \<Rightarrow> bundle_response \<Rightarrow> db
     \<Rightarrow> (failure + bundle_response) \<times> db"
where
  "issue_commit env g idempotencyKey request response d =
     (if idempotencyKey \<in> {None, Some []}
      then (case record_issuance (rq_dbNow env) (rq_config env) g request response None d of
              (Inl e, d') \<Rightarrow> (Inl e, d')
            | (Inr _, d') \<Rightarrow> (Inr response, d'))
      else
        (let key = the idempotencyKey;
             fingerprint = fingerprintRequest (rq_sha256 env) (gr_reference g) request
         in case record_issuance (rq_dbNow env) (rq_config env) g request response (Some (key, fingerprint)) d of
              (Inr _, d') \<Rightarrow> (Inr response, d')
            | (Inl e, d') \<Rightarrow>
                if \<not> isUniqueViolation e then (Inl e, d')
                else if map_option id_requestFingerprint (find_idempotency (gr_reference g) key d') \<noteq> Some fingerprint
                then (Inl (IssuerException IDEMPOTENCY_CONFLICT
                        ''idempotency key was already used for a different request''), d')
                else (Inr response, d')))"

definition issue ::
  "'s request_env \<Rightarrow> grant \<Rightarrow> string option \<Rightarrow> jsval \<Rightarrow> 's \<times> db \<Rightarrow> (failure + bundle_response) \<times> 's \<times> db"
where
  "issue env g idempotencyKey body sd =
     (case issue_prepare env g body (fst sd) of
        (Inl e, s') \<Rightarrow> (Inl e, s', snd sd)
      | (Inr (request, response), s') \<Rightarrow>
          (case issue_commit env g idempotencyKey request response (snd sd) of (r, d') \<Rightarrow> (r, s', d')))"

subsection \<open>What a successful preparation means\<close>

lemma signBundle_Inr:
  assumes "signBundle settles pool_sign request = Inr response"
  shows "resp_epoch response = req_epoch request"
    and "map (pool_sign (req_epoch request)) (blinded_blanks request) = map Inr (blind_signatures response)"
proof -
  have one: "signBlindedBlank pool_sign e b = Inr x \<Longrightarrow> pool_sign e b = Inr x" for e b x
    by (auto simp: signBlindedBlank_def split: sum.splits if_splits)
  from assms obtain sigs where sigs: "map (signBlindedBlank pool_sign (req_epoch request)) (blinded_blanks request) = map Inr sigs"
    and r: "response = \<lparr>resp_epoch = req_epoch request, blind_signatures = sigs\<rparr>"
    by (auto simp: signBundle_def promise_all_Inr_iff split: sum.splits)
  show "resp_epoch response = req_epoch request" by (simp add: r)
  from sigs show "map (pool_sign (req_epoch request)) (blinded_blanks request) = map Inr (blind_signatures response)"
    unfolding r by (auto simp: list_eq_iff_nth_eq intro!: one)
qed

lemma signBundle_settles:
  assumes "signBundle settles pool_sign request = Inr response"
  shows "signBundle settles' pool_sign request = Inr response"
proof -
  let ?ps = "map (signBlindedBlank pool_sign (req_epoch request)) (blinded_blanks request)"
  from assms obtain sigs where sigs: "promise_all settles ?ps = Inr sigs"
    and r: "response = \<lparr>resp_epoch = req_epoch request, blind_signatures = sigs\<rparr>"
    by (auto simp: signBundle_def split: sum.splits)
  from sigs have "promise_all settles' ?ps = Inr sigs" by (simp only: promise_all_Inr_iff)
  with r show ?thesis by (simp add: signBundle_def)
qed

context blank_signer
begin

lemma bundle_signed:
  assumes "signBundle settles sign request = Inr response" and "s \<in> set (blind_signatures response)"
  shows "holds (resp_epoch response)" and "\<exists>sig. s = bytesToBase64 sig"
proof -
  have "Inr s \<in> set (map (sign (req_epoch request)) (blinded_blanks request))"
    unfolding signBundle_Inr(2) [OF assms(1)] using assms(2) by simp
  then obtain blank where "sign (req_epoch request) blank = Inr s" by auto
  with signed_held signed_text show "holds (resp_epoch response)" "\<exists>sig. s = bytesToBase64 sig"
    unfolding signBundle_Inr(1) [OF assms(1)] by blast+
qed

end

lemma issue_prepare_Inr:
  assumes "issue_prepare env g body s = (Inr (request, response), s')"
  obtains e where "validateBundleRequest (rq_rt env) body (rq_config env) = Inr request"
    and "keys_usable (rq_rt env) (rq_keys env) (req_epoch request) (rq_signNow env) = Inr (Some e)"
    and "signBundle (rq_settles env) (rq_pool_sign env) request = Inr response"
    and "allow (rq_redis env) (rq_config env) (rq_now env) (rq_uuid env) (gr_reference g) s = (Inr True, s')"
proof -
  obtain a s1 where a: "allow (rq_redis env) (rq_config env) (rq_now env) (rq_uuid env) (gr_reference g) s = (a, s1)"
    by force
  have "a = Inr True" and s1: "s1 = s'"
    using assms by (simp_all add: issue_prepare_def a split: sum.splits bool.splits)
  with a assms have steps: "(case validateBundleRequest (rq_rt env) body (rq_config env) of
             Inl e \<Rightarrow> Inl e
           | Inr request \<Rightarrow>
               (case keys_usable (rq_rt env) (rq_keys env) (req_epoch request) (rq_signNow env) of
                  Inl e \<Rightarrow> Inl e
                | Inr None \<Rightarrow>
                    Inl (IssuerException WRONG_EPOCH
                      (''epoch '' @ req_epoch request @ '' is not currently signable''))
                | Inr (Some _) \<Rightarrow>
                    (case signBundle (rq_settles env) (rq_pool_sign env) request of
                       Inl e \<Rightarrow> Inl e
                     | Inr response \<Rightarrow> Inr (request, response)))) = Inr (request, response)"
    by (simp add: issue_prepare_def)
  from steps obtain r where r: "validateBundleRequest (rq_rt env) body (rq_config env) = Inr r"
    by (elim result_caseE)
  from steps [unfolded r sum.case] obtain u where u: "keys_usable (rq_rt env) (rq_keys env) (req_epoch r) (rq_signNow env) = Inr u"
    by (elim result_caseE)
  from steps [unfolded r sum.case u] obtain e where "u = Some e" by (cases u) simp_all
  with steps [unfolded r sum.case u] obtain resp where "signBundle (rq_settles env) (rq_pool_sign env) r = Inr resp" "r = request" "resp = response"
    by (simp split: sum.splits)
  with that r u \<open>u = Some e\<close> a \<open>a = Inr True\<close> s1 show ?thesis by simp
qed

lemma issue_prepare_count:
  assumes "issue_prepare env g body s = (Inr (request, response), s')"
  shows "length (blind_signatures response) = bundleSize (rq_config env)"
    and "resp_epoch response = req_epoch request"
proof -
  from assms obtain e where v: "validateBundleRequest (rq_rt env) body (rq_config env) = Inr request"
    and b: "signBundle (rq_settles env) (rq_pool_sign env) request = Inr response"
    by (rule issue_prepare_Inr)
  from signBundle_Inr(2) [OF b] have "length (blind_signatures response) = length (blinded_blanks request)"
    by (metis length_map)
  with validateBundleRequest_count [OF v]
  show "length (blind_signatures response) = bundleSize (rq_config env)" by simp
  show "resp_epoch response = req_epoch request" by (rule signBundle_Inr(1) [OF b])
qed

subsection \<open>Fingerprints\<close>

definition no_nul :: "string \<Rightarrow> bool" where
  "no_nul s \<longleftrightarrow> CHR 0x00 \<notin> set s"

lemma split_at_last:
  assumes "c \<notin> set a" and "c \<notin> set b" and "x @ c # a = y @ c # b"
  shows "x = y \<and> a = b"
proof -
  have last: "takeWhile (\<lambda>z. z \<noteq> c) (rev (w @ c # e)) = rev e" if "c \<notin> set e" for w e
    using that by (induction e rule: rev_induct) (auto simp: takeWhile_append)
  from last [OF assms(1), of x] last [OF assms(2), of y] assms(3) have "a = b" by simp
  with assms(3) show ?thesis by simp
qed

lemma split_at_nul:
  "no_nul a \<Longrightarrow> no_nul b \<Longrightarrow> x @ CHR 0x00 # a = y @ CHR 0x00 # b \<Longrightarrow> x = y \<and> a = b"
  unfolding no_nul_def by (rule split_at_last)

lemma segments_inj:
  assumes "list_all no_nul as" and "list_all no_nul bs" and "length as = length bs"
    and "x @ concat (map (\<lambda>b. CHR 0x00 # b) as) = y @ concat (map (\<lambda>b. CHR 0x00 # b) bs)"
  shows "x = y \<and> as = bs"
  using assms
proof (induction as arbitrary: bs rule: rev_induct)
  case (snoc a as)
  then obtain b bs' where bs: "bs = bs' @ [b]"
    by (metis append_butlast_last_id length_0_conv length_append_singleton nat.distinct(1))
  with snoc.prems have "(x @ concat (map (\<lambda>b. CHR 0x00 # b) as)) @ CHR 0x00 # a
      = (y @ concat (map (\<lambda>b. CHR 0x00 # b) bs')) @ CHR 0x00 # b" "no_nul a" "no_nul b"
    by (auto simp: list_all_iff)
  from split_at_nul [OF this(2,3,1)] snoc.IH [of bs'] snoc.prems bs show ?case
    by (auto simp: list_all_iff)
qed simp

lemma base64_no_nul: "no_nul (bytesToBase64 bs)"
proof -
  have "list_all (\<lambda>c. c \<noteq> CHR 0x00) base64_alphabet" by (simp add: base64_alphabet_def)
  then have "n < 64 \<Longrightarrow> base64_alphabet ! n \<noteq> CHR 0x00" for n
    by (simp add: list_all_length base64_alphabet_def)
  with sextets_less [of bs] show ?thesis
    by (force simp: bytesToBase64_def list_all_iff no_nul_def)
qed

lemma utf8_encode_valid [simp]: "valid_utf8 s \<Longrightarrow> utf8_encode s = s"
  by (simp add: no_surrogate_encode valid_utf8_no_surrogate)

definition base64_text_blank :: "string \<Rightarrow> bool" where
  "base64_text_blank s \<longleftrightarrow> (\<exists>bs. s = bytesToBase64 bs)"

lemma base64_text_blank_encode [simp]: "base64_text_blank s \<Longrightarrow> utf8_encode s = s"
  using base64_ascii by (auto simp: base64_text_blank_def valid_utf8_all_ascii)

lemma fingerprint_input_inj:
  assumes "valid_utf8 (req_epoch p)" and "valid_utf8 (req_epoch q)"
    and "list_all base64_text_blank (blinded_blanks p)" and "list_all base64_text_blank (blinded_blanks q)"
    and "length (blinded_blanks p) = length (blinded_blanks q)"
    and "fingerprint_input reference p = fingerprint_input reference q"
  shows "p = (q :: bundle_request)"
proof -
  have enc: "map (\<lambda>blank. CHR 0x00 # utf8_encode blank) bs = map (\<lambda>b. CHR 0x00 # b) bs"
    if "list_all base64_text_blank bs" for bs
    using that by (auto simp: list_all_iff)
  have nul: "list_all no_nul bs" if "list_all base64_text_blank bs" for bs
    using that base64_no_nul by (auto simp: list_all_iff base64_text_blank_def)
  from assms have "req_epoch p @ concat (map (\<lambda>b. CHR 0x00 # b) (blinded_blanks p))
      = req_epoch q @ concat (map (\<lambda>b. CHR 0x00 # b) (blinded_blanks q))"
    by (simp add: fingerprint_input_def enc)
  from segments_inj [OF nul [OF assms(3)] nul [OF assms(4)] assms(5) this] show ?thesis by simp
qed

lemma validated_blanks:
  assumes "validateBundleRequest rt body config = Inr req" and "0 < blankSizeBytes config"
  shows "list_all base64_text_blank (blinded_blanks req)"
  using assms(1)
  by (elim validateBundleRequest_Inr)
    (auto simp: check_blanks_Inr_iff [OF assms(2)] base64_text_blank_def list_all_iff)

subsection \<open>Balanced books\<close>

text \<open>The books balance and every epoch was counted with the configured bundle size.\<close>

definition issuer_books :: "int \<Rightarrow> db \<Rightarrow> bool" where
  "issuer_books k d \<longleftrightarrow> books_balanced d \<and> (\<forall>r \<in> set (epoch_counter d). ec_bundleSize r = k)"

lemma issuer_books_alt:
  "issuer_books k d \<longleftrightarrow>
     distinct (map ec_epoch (epoch_counter d))
     \<and> (\<forall>e r. forEpoch e d = Some r \<longrightarrow> row_balanced d r \<and> ec_bundleSize r = k)
     \<and> (\<forall>r \<in> set (issuance_record d). forEpoch (ir_epoch r) d \<noteq> None)"
  unfolding issuer_books_def books_balanced_alt
  by (cases "distinct (map ec_epoch (epoch_counter d))") (auto simp: forEpoch_iff)

lemma issuer_books_empty: "issuer_books k empty_db"
  by (simp add: issuer_books_def books_balanced_empty) (simp add: empty_db_def)

lemma forEpoch_cong: "epoch_counter d = epoch_counter d' \<Longrightarrow> forEpoch e d = forEpoch e d'"
  by (simp add: forEpoch_def)

lemma ledger_bundles_snoc:
  "issuance_record d' = issuance_record d @ [row] \<Longrightarrow>
     ledger_bundles e d' = ledger_bundles e d + (if ir_epoch row = e then ir_bundleCount row else 0)"
  by (simp add: ledger_bundles_def)

lemma ledger_bundles_none:
  assumes "issuer_books k d" and "forEpoch e d = None"
  shows "ledger_bundles e d = 0"
proof -
  have "filter (\<lambda>r. ir_epoch r = e) (issuance_record d) = []"
    using assms by (auto simp: issuer_books_alt filter_empty_conv)
  then show ?thesis by (simp add: ledger_bundles_def)
qed

text \<open>One ledger row and one bundle's worth of signatures, counted together, keep the books.\<close>

lemma books_after_issuance:
  assumes books: "issuer_books k d"
    and ledger: "issuance_record d' = issuance_record d @ [row]" "ir_epoch row = epoch" "ir_bundleCount row = 1"
    and counters: "epoch_counter d' = epoch_counter (recordSignaturesIssued now epoch k k (recordBundlePaid now epoch k d))"
  shows "issuer_books k d'"
proof -
  have fe: "forEpoch e d' = (if e = epoch
      then Some (case forEpoch epoch d of
          None \<Rightarrow> \<lparr>ec_epoch = epoch, ec_bundleSize = k, ec_bundlesPaid = 1, ec_signaturesIssued = k, ec_updatedAt = now\<rparr>
        | Some r \<Rightarrow> r\<lparr>ec_bundlesPaid := ec_bundlesPaid r + 1, ec_signaturesIssued := ec_signaturesIssued r + k, ec_updatedAt := now\<rparr>)
      else forEpoch e d)" for e
    unfolding forEpoch_cong [OF counters] by (rule counters_after_purchase)
  have lb: "ledger_bundles e d' = ledger_bundles e d + (if e = epoch then 1 else 0)" for e
    using ledger_bundles_snoc [OF ledger(1)] ledger(2,3) by auto
  have dist: "distinct (map ec_epoch (epoch_counter d'))"
    unfolding counters using books by (intro counters_distinct) (simp add: issuer_books_alt)
  have old: "forEpoch e d = Some r \<Longrightarrow> row_balanced d r \<and> ec_bundleSize r = k \<and> ec_epoch r = e" for e r
    using books unfolding issuer_books_alt by (metis forEpoch_iff)
  have rows: "row_balanced d' r \<and> ec_bundleSize r = k" if "forEpoch e d' = Some r" for e r
  proof (cases "e = epoch")
    case True
    show ?thesis
    proof (cases "forEpoch epoch d")
      case None
      with that True ledger_bundles_none [OF books None] show ?thesis
        by (auto simp: fe row_balanced_def lb)
    next
      case (Some r0)
      with that True old [OF Some] show ?thesis
        by (auto simp: fe row_balanced_def lb algebra_simps)
    qed
  next
    case False
    with that old [of e r] show ?thesis by (auto simp: fe row_balanced_def lb)
  qed
  have "forEpoch (ir_epoch r) d' \<noteq> None" if "r \<in> set (issuance_record d')" for r
    using that books ledger by (auto simp: issuer_books_alt fe)
  with dist rows show ?thesis by (simp add: issuer_books_alt)
qed

text \<open>The grant is consumed last, on a database whose other tables are as the transaction found them.\<close>

lemma record_body_consumes:
  assumes "record_body now config g request response idem d = Inr (u, d')"
  obtains d4 where "entitlement d4 = entitlement d" and "claim_rejection d4 = claim_rejection d"
    and "reconciliation_alarm d4 = reconciliation_alarm d"
    and "case gr_consume g of None \<Rightarrow> d' = d4 | Some consume \<Rightarrow> consume d4 = Inr d'"
proof -
  from assms obtain d1 where d1: "(case idem of None \<Rightarrow> Inr d
      | Some (key, fp) \<Rightarrow> insert_idempotency now (gr_reference g) key fp d) = Inr d1"
    by (auto simp: record_body_def split: sum.splits)
  let ?d4 = "recordSignaturesIssued now (req_epoch request) (int (length (blind_signatures response)))
    (int (bundleSize config)) (recordBundlePaid now (req_epoch request) (int (bundleSize config))
      (insert_issuance now (gr_reference g) (req_epoch request) d1))"
  have same: "entitlement d1 = entitlement d \<and> claim_rejection d1 = claim_rejection d
      \<and> reconciliation_alarm d1 = reconciliation_alarm d"
    using d1 by (auto simp: insert_idempotency_def split: option.splits if_splits)
  show ?thesis
    by (rule that [of ?d4])
      (use assms d1 same in \<open>auto simp: record_body_def Let_def table_simps insert_issuance_def split: option.splits sum.splits\<close>)
qed

subsection \<open>A failed request writes nothing\<close>

lemma issue_commit_Inl:
  assumes "issue_commit env g key request response d = (Inl e, d')"
  shows "d' = d"
  using assms
  by (auto simp: issue_commit_def record_issuance_def transaction_def Let_def
      split: if_splits sum.splits prod.splits)

lemma issue_Inl:
  assumes "issue env g key body (s, d) = (Inl e, s', d')"
  shows "d' = d"
  using assms by (auto simp: issue_def split: prod.splits sum.splits dest: issue_commit_Inl)

lemma issue_commit_response:
  "issue_commit env g key request response d = (Inr resp, d') \<Longrightarrow> resp = response"
  by (auto simp: issue_commit_def Let_def split: if_splits sum.splits prod.splits)

lemma issue_success:
  assumes "issue env g key body (s, d) = (Inr resp, s', d')"
  obtains request where "issue_prepare env g body s = (Inr (request, resp), s')"
    and "issue_commit env g key request resp d = (Inr resp, d')"
proof -
  from assms obtain request response where p: "issue_prepare env g body s = (Inr (request, response), s')"
    and c: "issue_commit env g key request response d = (Inr resp, d')"
    by (auto simp: issue_def split: prod.splits sum.splits)
  from issue_commit_response [OF c] p c that show ?thesis by simp
qed

subsection \<open>What a recorded issuance is\<close>

text \<open>The two counters of an epoch as the reconciliation reads them.\<close>

definition paid_and_signed :: "string \<Rightarrow> db \<Rightarrow> int \<times> int" where
  "paid_and_signed e d = (case forEpoch e d of None \<Rightarrow> (0, 0) | Some r \<Rightarrow> (ec_bundlesPaid r, ec_signaturesIssued r))"

text \<open>The ledger row, one bundle and its signatures on the counters of its epoch and of no other, and the claim of its
  idempotency key, which was free before.\<close>

definition whole_record ::
  "'s request_env \<Rightarrow> string \<Rightarrow> string option \<Rightarrow> bundle_request \<Rightarrow> bundle_response \<Rightarrow> db \<Rightarrow> db \<Rightarrow> bool" where
  "whole_record env reference key request response d d' \<longleftrightarrow>
     issuance_record d' = issuance_record d @
       [\<lparr>ir_paymentRef = reference, ir_epoch = req_epoch request, ir_bundleCount = 1, ir_timestamp = rq_dbNow env\<rparr>]
     \<and> (\<forall>e. paid_and_signed e d' = (case paid_and_signed e d of (p, n) \<Rightarrow>
          if e = req_epoch request then (p + 1, n + int (length (blind_signatures response))) else (p, n)))
     \<and> (\<forall>k. key = Some k \<longrightarrow> k \<noteq> [] \<longrightarrow> find_idempotency reference k d = None
          \<and> map_option id_requestFingerprint (find_idempotency reference k d') = Some (fingerprintRequest (rq_sha256 env) reference request))"

subsection \<open>The contract of a grant\<close>

text \<open>
  What \<open>IssuanceGrant\<close> asks of a caller: consuming the grant writes none of the tables the issuance
  itself writes, and its failure is not mistaken for a claimed idempotency key.
\<close>

locale issuance_grant =
  fixes g :: grant
  assumes consume_ledger: "gr_consume g = Some consume \<Longrightarrow> consume d = Inr d' \<Longrightarrow> issuance_record d' = issuance_record d"
    and consume_keys: "gr_consume g = Some consume \<Longrightarrow> consume d = Inr d' \<Longrightarrow> idempotency_record d' = idempotency_record d"
    and consume_counters: "gr_consume g = Some consume \<Longrightarrow> consume d = Inr d' \<Longrightarrow> epoch_counter d' = epoch_counter d"
    and consume_error: "gr_consume g = Some consume \<Longrightarrow> consume d = Inl e \<Longrightarrow> e \<noteq> UniqueViolation"
begin

lemma record_body_Inr:
  assumes "record_body now config g request response idem d = Inr (u, d')"
  shows "issuance_record d' = issuance_record d @
      [\<lparr>ir_paymentRef = gr_reference g, ir_epoch = req_epoch request, ir_bundleCount = 1, ir_timestamp = now\<rparr>]"
    and "map idempotency_key (idempotency_record d') = map idempotency_key (idempotency_record d)
      @ (case idem of None \<Rightarrow> [] | Some (key, fp) \<Rightarrow> [(gr_reference g, key)])"
    and "epoch_counter d' = epoch_counter (recordSignaturesIssued now (req_epoch request)
      (int (length (blind_signatures response))) (int (bundleSize config))
      (recordBundlePaid now (req_epoch request) (int (bundleSize config)) d))"
    and "idem = Some (key, fp) \<Longrightarrow> (gr_reference g, key) \<notin> set (map idempotency_key (idempotency_record d))"
    and "idem = Some (key, fp) \<Longrightarrow> find_idempotency (gr_reference g) key d' =
      Some \<lparr>id_paymentRef = gr_reference g, id_idempotencyKey = key, id_requestFingerprint = fp, id_createdAt = now\<rparr>"
proof -
  define d1 where "d1 = (case idem of None \<Rightarrow> d | Some (key, fp) \<Rightarrow> d\<lparr>idempotency_record := idempotency_record d @
    [\<lparr>id_paymentRef = gr_reference g, id_idempotencyKey = key, id_requestFingerprint = fp, id_createdAt = now\<rparr>]\<rparr>)"
  define d4 where "d4 = recordSignaturesIssued now (req_epoch request) (int (length (blind_signatures response)))
    (int (bundleSize config)) (recordBundlePaid now (req_epoch request) (int (bundleSize config))
      (insert_issuance now (gr_reference g) (req_epoch request) d1))"
  have fresh: "idem = Some (key, fp) \<Longrightarrow> (gr_reference g, key) \<notin> set (map idempotency_key (idempotency_record d))" for key fp
    using assms by (auto simp: record_body_def insert_idempotency_def split: if_splits)
  have "(case idem of None \<Rightarrow> Inr d
      | Some (key, fp) \<Rightarrow> insert_idempotency now (gr_reference g) key fp d) = Inr d1"
    using fresh by (auto simp: d1_def insert_idempotency_def split: option.split)
  then have d': "gr_consume g = None \<and> d' = d4 \<or> (\<exists>consume. gr_consume g = Some consume \<and> consume d4 = Inr d')"
    using assms by (auto simp: record_body_def Let_def d4_def split: option.splits sum.splits)
  then have same: "issuance_record d' = issuance_record d4" "idempotency_record d' = idempotency_record d4"
    "epoch_counter d' = epoch_counter d4"
    using consume_ledger consume_keys consume_counters by auto
  show "issuance_record d' = issuance_record d @
      [\<lparr>ir_paymentRef = gr_reference g, ir_epoch = req_epoch request, ir_bundleCount = 1, ir_timestamp = now\<rparr>]"
    unfolding same by (simp add: d4_def d1_def table_simps insert_issuance_def split: option.split prod.split)
  show "map idempotency_key (idempotency_record d') = map idempotency_key (idempotency_record d)
      @ (case idem of None \<Rightarrow> [] | Some (key, fp) \<Rightarrow> [(gr_reference g, key)])"
    unfolding same by (simp add: d4_def d1_def table_simps insert_issuance_def idempotency_key_def split: option.split prod.split)
  show "epoch_counter d' = epoch_counter (recordSignaturesIssued now (req_epoch request)
      (int (length (blind_signatures response))) (int (bundleSize config))
      (recordBundlePaid now (req_epoch request) (int (bundleSize config)) d))"
    unfolding same by (simp add: d4_def d1_def recordSignaturesIssued_def recordBundlePaid_def insert_issuance_def split: option.split prod.split)
  show "idem = Some (key, fp) \<Longrightarrow> (gr_reference g, key) \<notin> set (map idempotency_key (idempotency_record d))"
    by (rule fresh)
  show "idem = Some (key, fp) \<Longrightarrow> find_idempotency (gr_reference g) key d' =
      Some \<lparr>id_paymentRef = gr_reference g, id_idempotencyKey = key, id_requestFingerprint = fp, id_createdAt = now\<rparr>"
    using fresh [of key fp] lookup_by_None [of idempotency_key "(gr_reference g, key)" "idempotency_record d"]
    by (simp add: find_idempotency_def same(2) d4_def d1_def table_simps insert_issuance_def lookup_by_append idempotency_key_def)
qed

lemma record_body_unique:
  "record_body now config g request response idem d = Inl UniqueViolation \<longleftrightarrow>
     (\<exists>key fp. idem = Some (key, fp) \<and> (gr_reference g, key) \<in> set (map idempotency_key (idempotency_record d)))"
  using consume_error
  by (auto simp: record_body_def insert_idempotency_def Let_def split: option.splits sum.splits)

lemma record_books:
  assumes "record_body now config g request response idem d = Inr (u, d')"
    and "length (blind_signatures response) = bundleSize config" and "issuer_books (int (bundleSize config)) d"
  shows "issuer_books (int (bundleSize config)) d'"
  by (rule books_after_issuance [OF assms(3) record_body_Inr(1) [OF assms(1)], where epoch = "req_epoch request" and now = now])
    (use record_body_Inr(3) [OF assms(1)] assms(2) in simp_all)

text \<open>
  The outcomes of the commit. A success either wrote exactly one issuance, or the key had been claimed
  by a request with the same fingerprint and nothing was written.
\<close>

lemma issue_commit_Inr:
  assumes "issue_commit env g key request response d = (Inr resp, d')"
  obtains (issued) idem where "resp = response"
      and "record_body (rq_dbNow env) (rq_config env) g request response idem d = Inr ((), d')"
      and "idem = (if key \<in> {None, Some []} then None
        else Some (the key, fingerprintRequest (rq_sha256 env) (gr_reference g) request))"
    | (replay) k row where "resp = response" and "d' = d" and "key = Some k" and "k \<noteq> []"
      and "find_idempotency (gr_reference g) k d = Some row"
      and "id_requestFingerprint row = fingerprintRequest (rq_sha256 env) (gr_reference g) request"
proof (cases "key \<in> {None, Some []}")
  case True
  with assms issued show ?thesis
    by (auto simp: issue_commit_def record_issuance_def transaction_def split: sum.splits prod.splits)
next
  case False
  then obtain k where k: "key = Some k" "k \<noteq> []" by auto
  let ?idem = "Some (k, fingerprintRequest (rq_sha256 env) (gr_reference g) request)"
  show ?thesis
  proof (cases "record_body (rq_dbNow env) (rq_config env) g request response ?idem d")
    case (Inl e)
    with assms k obtain row where "resp = response" "d' = d" "find_idempotency (gr_reference g) k d = Some row"
      "id_requestFingerprint row = fingerprintRequest (rq_sha256 env) (gr_reference g) request"
      by (auto simp: issue_commit_def record_issuance_def transaction_def Let_def split: if_splits)
    with k show ?thesis by (intro replay)
  next
    case (Inr r)
    with assms k show ?thesis
      by (intro issued [of ?idem]) (auto simp: issue_commit_def record_issuance_def transaction_def Let_def split: prod.splits)
  qed
qed

lemma issue_commit_books:
  assumes "issue_commit env g key request response d = (r, d')"
    and "length (blind_signatures response) = bundleSize (rq_config env)"
    and "issuer_books (int (bundleSize (rq_config env))) d"
  shows "issuer_books (int (bundleSize (rq_config env))) d'"
proof (cases r)
  case (Inl e)
  with assms have "d' = d" by (auto dest: issue_commit_Inl)
  with assms show ?thesis by simp
next
  case (Inr resp)
  from assms(1) [unfolded Inr] show ?thesis
    by (cases rule: issue_commit_Inr) (use assms record_books in auto)
qed

lemma issue_books:
  assumes "issue env g key body (s, d) = (r, s', d')" and "issuer_books (int (bundleSize (rq_config env))) d"
  shows "issuer_books (int (bundleSize (rq_config env))) d'"
proof (cases r)
  case (Inl e)
  with assms issue_Inl show ?thesis by metis
next
  case (Inr resp)
  with assms(1) obtain request where p: "issue_prepare env g body s = (Inr (request, resp), s')"
    and c: "issue_commit env g key request resp d = (Inr resp, d')"
    by (auto elim: issue_success)
  show ?thesis by (rule issue_commit_books [OF c issue_prepare_count(1) [OF p] assms(2)])
qed

text \<open>A transaction records the whole issuance or nothing.\<close>

lemma issue_commit_whole:
  assumes "issue_commit env g key request response d = (r, d')"
  shows "d' = d \<or> r = Inr response \<and> whole_record env (gr_reference g) key request response d d'"
proof (cases r)
  case (Inl e)
  with assms issue_commit_Inl show ?thesis by blast
next
  case (Inr resp)
  from assms [unfolded Inr] show ?thesis
  proof (cases rule: issue_commit_Inr)
    case (issued idem)
    note body = record_body_Inr [OF issued(2)]
    have "paid_and_signed e d' = (case paid_and_signed e d of (p, n) \<Rightarrow>
        if e = req_epoch request then (p + 1, n + int (length (blind_signatures response))) else (p, n))" for e
      using counters_after_purchase [of e "rq_dbNow env" "req_epoch request" "int (length (blind_signatures response))"
          "int (bundleSize (rq_config env))" "rq_dbNow env" "int (bundleSize (rq_config env))" d]
      by (auto simp: paid_and_signed_def forEpoch_cong [OF body(3)] split: option.splits)
    moreover have "find_idempotency (gr_reference g) k d = None \<and>
        map_option id_requestFingerprint (find_idempotency (gr_reference g) k d') = Some (fingerprintRequest (rq_sha256 env) (gr_reference g) request)"
      if "key = Some k" "k \<noteq> []" for k
      using body(4,5) [of k] issued(3) that by (simp add: find_idempotency_def lookup_by_None)
    ultimately show ?thesis using body(1) Inr issued(1) by (simp add: whole_record_def)
  qed simp
qed

text \<open>The row a key leaves behind, and what a second request with the key then gets.\<close>

lemma issue_claims_key:
  assumes "issue env g (Some k) body (s, d) = (Inr resp, s', d')" and "k \<noteq> []"
  obtains request row where "issue_prepare env g body s = (Inr (request, resp), s')"
    and "find_idempotency (gr_reference g) k d' = Some row"
    and "id_requestFingerprint row = fingerprintRequest (rq_sha256 env) (gr_reference g) request"
    and "d' = d \<or> find_idempotency (gr_reference g) k d = None
           \<and> length (issuance_record d') = Suc (length (issuance_record d))"
proof -
  from assms obtain request where p: "issue_prepare env g body s = (Inr (request, resp), s')"
    and c: "issue_commit env g (Some k) request resp d = (Inr resp, d')"
    by (auto elim: issue_success)
  from c show ?thesis
  proof (cases rule: issue_commit_Inr)
    case (issued idem)
    with assms(2) have idem: "idem = Some (k, fingerprintRequest (rq_sha256 env) (gr_reference g) request)" by simp
    have "find_idempotency (gr_reference g) k d = None"
      using record_body_Inr(4) [OF issued(2) idem] by (simp add: find_idempotency_def lookup_by_None)
    moreover have "length (issuance_record d') = Suc (length (issuance_record d))"
      using record_body_Inr(1) [OF issued(2)] by simp
    ultimately show ?thesis
      using that [OF p record_body_Inr(5) [OF issued(2) idem]] by simp
  next
    case (replay k' row)
    with that [OF p, of row] show ?thesis by simp
  qed
qed

lemma issue_claimed:
  assumes "issue_prepare env g body s = (Inr (request, resp), s')" and "k \<noteq> []"
    and "find_idempotency (gr_reference g) k d = Some row"
  shows "issue env g (Some k) body (s, d) =
    ((if id_requestFingerprint row = fingerprintRequest (rq_sha256 env) (gr_reference g) request then Inr resp
      else Inl (IssuerException IDEMPOTENCY_CONFLICT ''idempotency key was already used for a different request'')), s', d)"
proof -
  have "(gr_reference g, k) \<in> set (map idempotency_key (idempotency_record d))"
    using assms(3) lookup_by_None [of idempotency_key "(gr_reference g, k)" "idempotency_record d"]
    by (auto simp: find_idempotency_def)
  then have "record_body now config g request resp (Some (k, fp)) d = Inl UniqueViolation" for now config fp
    using record_body_unique by blast
  with assms show ?thesis
    by (simp add: issue_def issue_commit_def record_issuance_def transaction_def Let_def isUniqueViolation_def)
qed

end

text \<open>A client that repeats a request: every attempt with the same grant and idempotency key.\<close>

fun retry ::
  "grant \<Rightarrow> string \<Rightarrow> ('s request_env \<times> jsval) list \<Rightarrow> 's \<times> db \<Rightarrow> (failure + bundle_response) list \<times> 's \<times> db"
where
  "retry g k [] sd = ([], sd)"
| "retry g k ((env, body) # attempts) sd =
     (case issue env g (Some k) body sd of (r, sd') \<Rightarrow>
        (case retry g k attempts sd' of (rs, sd'') \<Rightarrow> (r # rs, sd'')))"

context issuance_grant
begin

lemma retry_claimed:
  assumes "retry g k attempts (s, d) = (rs, s', d')" and "k \<noteq> []"
    and "find_idempotency (gr_reference g) k d = Some row"
  shows "d' = d"
  using assms
proof (induction attempts arbitrary: s rs)
  case (Cons a attempts)
  obtain env body where a: "a = (env, body)" by force
  obtain r s1 d1 where one: "issue env g (Some k) body (s, d) = (r, s1, d1)" by (metis prod_cases3)
  have "d1 = d"
  proof (cases r)
    case (Inl e)
    with one issue_Inl show ?thesis by metis
  next
    case (Inr resp)
    with one Cons.prems(2,3) show ?thesis by (auto elim: issue_claims_key)
  qed
  with one a Cons.prems Cons.IH [of s1] show ?case by (auto split: prod.splits)
qed simp

lemma retry_once:
  assumes "retry g k attempts (s, d) = (rs, s', d')" and "k \<noteq> []"
  shows "d' = d \<or> length (issuance_record d') = Suc (length (issuance_record d))"
  using assms
proof (induction attempts arbitrary: s rs)
  case (Cons a attempts)
  obtain env body where a: "a = (env, body)" by force
  obtain r s1 d1 where one: "issue env g (Some k) body (s, d) = (r, s1, d1)" by (metis prod_cases3)
  from Cons.prems a one obtain rs1 where rest: "retry g k attempts (s1, d1) = (rs1, s', d')"
    by (auto split: prod.splits)
  show ?case
  proof (cases r)
    case (Inl e)
    with one issue_Inl have "d1 = d" by metis
    with rest Cons.prems(2) Cons.IH show ?thesis by simp
  next
    case (Inr resp)
    with one Cons.prems(2) obtain row where row: "find_idempotency (gr_reference g) k d1 = Some row"
      "d1 = d \<or> length (issuance_record d1) = Suc (length (issuance_record d))"
      by (auto elim: issue_claims_key)
    with retry_claimed [OF rest Cons.prems(2) row(1)] show ?thesis by auto
  qed
qed simp

end

end
