(* ===== verification/Decimal.thy ===== *)
theory Decimal
  imports Complex_Main JsValue
begin

text \<open>
  \<open>payment/decimal.ts\<close>: exact comparison of decimal amounts. The regular expression
  \<open>^-?\d+(\.\d+)?$\<close> is the function \<open>isDecimal\<close>; \<open>scaled\<close> is the integer the source compares, and
  \<open>decimal_value\<close> is the rational number an amount denotes.
\<close>

subsection \<open>The code\<close>

definition all_digits :: "string \<Rightarrow> bool" where
  "all_digits s \<longleftrightarrow> s \<noteq> [] \<and> list_all is_digit s"

text \<open>\<open>value.replace('-', '')\<close> removes the first minus sign, wherever it is.\<close>

definition drop_minus :: "string \<Rightarrow> string" where
  "drop_minus s = remove1 (CHR ''-'') s"

text \<open>The two components that \<open>split('.')\<close> leaves for the destructuring with defaults.\<close>

definition whole_part :: "string \<Rightarrow> string" where
  "whole_part s = takeWhile (\<lambda>c. c \<noteq> CHR ''.'') s"

definition fraction_part :: "string \<Rightarrow> string" where
  "fraction_part s = takeWhile (\<lambda>c. c \<noteq> CHR ''.'') (drop 1 (dropWhile (\<lambda>c. c \<noteq> CHR ''.'') s))"

definition isDecimal :: "string \<Rightarrow> bool" where
  "isDecimal s =
     (let u = (case s of [] \<Rightarrow> [] | c # cs \<Rightarrow> if c = CHR ''-'' then cs else s);
          r = dropWhile is_digit u
      in takeWhile is_digit u \<noteq> []
         \<and> (case r of [] \<Rightarrow> True | c # cs \<Rightarrow> c = CHR ''.'' \<and> all_digits cs))"

definition padEnd :: "nat \<Rightarrow> string \<Rightarrow> string" where
  "padEnd w s = s @ replicate (w - length s) (CHR ''0'')"

definition scaled :: "string \<Rightarrow> int option" where
  "scaled s =
     (if \<not> isDecimal s then None
      else let negative = startsWith s ''-'';
               whole = whole_part (drop_minus s);
               fraction = fraction_part (drop_minus s)
           in if 18 < length fraction then None
              else let magnitude = int (read_nat (whole @ padEnd 18 fraction))
                   in Some (if negative then - magnitude else magnitude))"

definition decimalEquals :: "string \<Rightarrow> string \<Rightarrow> bool" where
  "decimalEquals l r =
     (let a = scaled l; b = scaled r in a \<noteq> None \<and> b \<noteq> None \<and> a = b)"

subsection \<open>What an amount denotes\<close>

definition fraction_digits :: "string \<Rightarrow> nat" where
  "fraction_digits s = length (fraction_part s)"

definition decimal_value :: "string \<Rightarrow> rat" where
  "decimal_value s =
     (if startsWith s ''-'' then - 1 else 1)
     * (of_nat (read_nat (whole_part (drop_minus s)))
        + of_nat (read_nat (fraction_part s)) / 10 ^ fraction_digits s)"

lemma read_nat_append: "read_nat (s @ t) = read_nat s * 10 ^ length t + read_nat t"
  by (induction t rule: rev_induct) (simp_all add: read_nat_def algebra_simps)

lemma read_nat_zeros [simp]: "read_nat (replicate n (CHR ''0'')) = 0"
  by (induction n) (simp_all add: read_nat_def digit_val_def)

lemma read_padEnd: "length s \<le> w \<Longrightarrow> read_nat (padEnd w s) = read_nat s * 10 ^ (w - length s)"
  by (simp add: padEnd_def read_nat_append)

lemma fraction_part_drop_minus:
  assumes "isDecimal s"
  shows "fraction_part (drop_minus s) = fraction_part s"
proof (cases "startsWith s ''-''")
  case True
  then obtain t where "s = CHR ''-'' # t" by (cases s) (auto simp: startsWith_def)
  then show ?thesis by (simp add: drop_minus_def fraction_part_def)
next
  case False
  have not_minus: "\<not> is_digit (CHR ''-'')" by (simp add: is_digit_def)
  have "CHR ''-'' \<notin> set s"
  proof -
    have "(case s of [] \<Rightarrow> [] | c # cs \<Rightarrow> if c = CHR ''-'' then cs else s) = s"
      using False by (cases s) (simp_all add: startsWith_def)
    then have "case dropWhile is_digit s of [] \<Rightarrow> True | c # cs \<Rightarrow> c = CHR ''.'' \<and> list_all is_digit cs"
      using assms by (cases "dropWhile is_digit s")
        (simp_all add: isDecimal_def all_digits_def Let_def del: dropWhile_eq_Nil_conv)
    then have "CHR ''-'' \<notin> set (dropWhile is_digit s)"
      using not_minus by (cases "dropWhile is_digit s")
        (auto simp: list_all_iff simp del: dropWhile_eq_Nil_conv)
    moreover have "CHR ''-'' \<notin> set (takeWhile is_digit s)"
      using not_minus by (auto dest: set_takeWhileD)
    moreover have "s = takeWhile is_digit s @ dropWhile is_digit s" by simp
    ultimately show ?thesis by (metis Un_iff set_append)
  qed
  then show ?thesis by (simp add: drop_minus_def remove1_idem)
qed

lemma scaled_value:
  assumes "isDecimal s" and "fraction_digits s \<le> 18"
  shows "\<exists>n. scaled s = Some n \<and> of_int n = decimal_value s * 10 ^ 18"
proof -
  let ?w = "read_nat (whole_part (drop_minus s))" and ?f = "read_nat (fraction_part s)"
  have len: "length (fraction_part s) \<le> 18" using assms(2) by (simp add: fraction_digits_def)
  define k where "k = length (fraction_part s)"
  have p: "(10 :: rat) ^ 18 = 10 ^ k * 10 ^ (18 - k)"
    using len by (simp add: k_def flip: power_add)
  have "of_nat (read_nat (whole_part (drop_minus s) @ padEnd 18 (fraction_part s)))
      = of_nat ?w * 10 ^ 18 + of_nat ?f * (10 :: rat) ^ (18 - k)"
    using len by (simp add: read_nat_append read_padEnd padEnd_def k_def flip: power_add)
  also have "\<dots> = (of_nat ?w + of_nat ?f / 10 ^ k) * 10 ^ 18"
    unfolding p by (simp add: distrib_right)
  finally have "of_nat (read_nat (whole_part (drop_minus s) @ padEnd 18 (fraction_part s)))
      = (of_nat ?w + of_nat ?f / 10 ^ length (fraction_part s)) * (10 ^ 18 :: rat)"
    by (simp only: k_def)
  then show ?thesis
    using assms len fraction_part_drop_minus [OF assms(1)]
    by (simp add: scaled_def Let_def decimal_value_def fraction_digits_def)
qed

lemma scaled_None: "scaled s = None \<longleftrightarrow> \<not> isDecimal s \<or> 18 < fraction_digits s"
  using fraction_part_drop_minus [of s] by (auto simp: scaled_def Let_def fraction_digits_def)

lemma decimalEquals_value:
  "decimalEquals l r \<longleftrightarrow>
     isDecimal l \<and> isDecimal r \<and> fraction_digits l \<le> 18 \<and> fraction_digits r \<le> 18
     \<and> decimal_value l = decimal_value r"
proof (cases "isDecimal l \<and> isDecimal r \<and> fraction_digits l \<le> 18 \<and> fraction_digits r \<le> 18")
  case True
  then obtain m n where m: "scaled l = Some m" "of_int m = decimal_value l * 10 ^ 18"
    and n: "scaled r = Some n" "of_int n = decimal_value r * 10 ^ 18"
    using scaled_value [of l] scaled_value [of r] by blast
  have "m = n \<longleftrightarrow> (of_int m :: rat) = of_int n" by simp
  also have "\<dots> \<longleftrightarrow> decimal_value l = decimal_value r" unfolding m(2) n(2) by simp
  finally show ?thesis using True m(1) n(1) by (simp add: decimalEquals_def)
next
  case False
  then have "scaled l = None \<or> scaled r = None" by (auto simp: scaled_None)
  with False show ?thesis by (auto simp: decimalEquals_def)
qed

end
