(* ===== verification/Claims.thy ===== *)
theory Claims
  imports Issuance Decimal
begin

text \<open>
  The paid rail: \<open>payment/payment-claim.ts\<close>, \<open>payment/claim-signing.ts\<close>, \<open>payment/claim-verifier.service.ts\<close>,
  \<open>payment/claim-rejections.service.ts\<close> and \<open>bundles/bundles.service.ts\<close>. A claim is parsed, verified under
  the proxy's key and compared with the price before anything else happens; every refusal is counted.
\<close>

subsection \<open>The claim\<close>

text \<open>Only \<open>payment_ref\<close> is known to be a string when parsing ends.\<close>

record payment_claim =
  payment_ref :: string
  amount :: jsval
  route_id :: jsval
  proxy_sig :: jsval

definition parsePaymentClaim :: "runtime \<Rightarrow> string option \<Rightarrow> failure + payment_claim" where
  "parsePaymentClaim rt header =
     (let invalid = (\<lambda>message. Inl (IssuerException CLAIM_INVALID message)) in
      if header \<in> {None, Some []} then invalid ''missing payment claim''
      else case json_parse (utf8_decode rt (base64ToBytes rt (the header))) of
        None \<Rightarrow> invalid ''payment claim is not base64url-encoded JSON''
      | Some parsed \<Rightarrow>
          if \<not> is_object parsed then invalid ''payment claim is not an object''
          else (case nonempty_string (get_prop parsed ''payment_ref'') of
                  None \<Rightarrow> invalid ''payment claim is missing payment_ref''
                | Some ref \<Rightarrow>
                    Inr \<lparr>payment_ref = ref, amount = get_prop parsed ''amount'',
                         route_id = get_prop parsed ''route_id'', proxy_sig = get_prop parsed ''proxy_sig''\<rparr>))"

definition claim_json :: "string \<Rightarrow> string \<Rightarrow> string \<Rightarrow> jsval" where
  "claim_json ref amt route =
     JObj [(''amount'', JStr amt), (''payment_ref'', JStr ref), (''route_id'', JStr route)]"

text \<open>\<open>canonicalClaimPayload({ payment_ref, amount, route_id })\<close>\<close>

definition canonicalClaimPayload :: "string \<Rightarrow> string \<Rightarrow> string \<Rightarrow> bytes" where
  "canonicalClaimPayload ref amt route = utf8_encode (json_stringify (claim_json ref amt route))"

subsection \<open>The verifier\<close>

datatype claim_failure = ClaimRejected rejection_reason string | VerifierError string

text \<open>\<open>onModuleInit\<close>: the proxy key, from the file's contents (\<open>None\<close>: unreadable), and the price.\<close>

definition load_proxy_key :: "runtime \<Rightarrow> ('sk, 'pk) ed25519 \<Rightarrow> issuer_config \<Rightarrow> string option \<Rightarrow> failure + 'pk" where
  "load_proxy_key rt C config contents =
     (let path = proxyPublicKeyPath config;
          bad = Inl (Error (''proxy public key at '' @ path @ '' is not a valid Ed25519 key''))
      in case contents of
           None \<Rightarrow> Inl (Error (''unable to read proxy public key at '' @ path))
         | Some pem \<Rightarrow>
             (case spkiPemToDer rt pem of
                Inl _ \<Rightarrow> bad
              | Inr der \<Rightarrow>
                  (case ed_import_public C der of
                     Inl _ \<Rightarrow> bad
                   | Inr pk \<Rightarrow>
                       if \<not> isDecimal (bundlePrice config)
                       then Inl (Error (''BUNDLE_PRICE must be a decimal string, got '' @ bundlePrice config))
                       else Inr pk)))"

fun require_fields :: "(string \<times> jsval) list \<Rightarrow> claim_failure + unit" where
  "require_fields [] = Inr ()"
| "require_fields ((field, value) # rest) =
     (case nonempty_string value of
        None \<Rightarrow> Inl (ClaimRejected malformed (''payment claim is missing '' @ field))
      | Some _ \<Rightarrow> require_fields rest)"

definition verify_claim ::
  "runtime \<Rightarrow> ('sk, 'pk) ed25519 \<Rightarrow> issuer_config \<Rightarrow> 'pk option \<Rightarrow> payment_claim \<Rightarrow> claim_failure + unit"
where
  "verify_claim rt C config proxyKey claim =
     (case proxyKey of
        None \<Rightarrow> Inl (VerifierError ''proxy public key not loaded'')
      | Some key \<Rightarrow>
          (case require_fields [(''amount'', amount claim), (''route_id'', route_id claim), (''proxy_sig'', proxy_sig claim)] of
             Inl e \<Rightarrow> Inl e
           | Inr _ \<Rightarrow>
               (let signature = base64ToBytes rt (bytesToBase64 (base64ToBytes rt (js_string (proxy_sig claim)))) in
                if \<not> ed_verify C key signature
                       (canonicalClaimPayload (payment_ref claim) (js_string (amount claim)) (js_string (route_id claim)))
                then Inl (ClaimRejected bad_signature ''proxy_sig does not verify under the proxy key'')
                else if \<not> decimalEquals (js_string (amount claim)) (bundlePrice config)
                then Inl (ClaimRejected amount_mismatch ''claimed amount does not match the bundle price'')
                else Inr ())))"

subsection \<open>Counting refusals\<close>

text \<open>\<open>stored\<close> is whether the statement reached the database: a failure is logged and swallowed.\<close>

definition record_rejection :: "bool \<Rightarrow> millis \<Rightarrow> rejection_reason \<Rightarrow> db \<Rightarrow> db" where
  "record_rejection stored now reason d =
     (if stored
      then d\<lparr>claim_rejection :=
               upsert cr_reason \<lparr>cr_reason = reason, cr_count = 1, cr_updatedAt = now\<rparr>
                 (\<lambda>r. r\<lparr>cr_count := cr_count r + 1, cr_updatedAt := now\<rparr>) (claim_rejection d)\<rparr>
      else d)"

definition countFor :: "rejection_reason \<Rightarrow> db \<Rightarrow> int" where
  "countFor reason d =
     (case lookup_by cr_reason reason (claim_rejection d) of None \<Rightarrow> 0 | Some r \<Rightarrow> cr_count r)"

subsection \<open>Admission and purchase\<close>

record ('sk, 'pk) claim_env =
  ce_ed25519 :: "('sk, 'pk) ed25519"
  ce_proxyKey :: "'pk option"
  ce_stored :: bool

definition admit ::
  "runtime \<Rightarrow> issuer_config \<Rightarrow> ('sk, 'pk) claim_env \<Rightarrow> millis \<Rightarrow> string option \<Rightarrow> db
     \<Rightarrow> (failure + payment_claim) \<times> db"
where
  "admit rt config cenv now claimHeader d =
     (case parsePaymentClaim rt claimHeader of
        Inl e \<Rightarrow>
          (Inl e, record_rejection (ce_stored cenv) now
                    (if claimHeader \<in> {None, Some []} then missing else malformed) d)
      | Inr claim \<Rightarrow>
          (case verify_claim rt (ce_ed25519 cenv) config (ce_proxyKey cenv) claim of
             Inl (VerifierError m) \<Rightarrow> (Inl (Error m), d)
           | Inl (ClaimRejected reason message) \<Rightarrow>
               (Inl (IssuerException CLAIM_INVALID message), record_rejection (ce_stored cenv) now reason d)
           | Inr _ \<Rightarrow> (Inr claim, d)))"

definition paid_grant :: "payment_claim \<Rightarrow> grant" where
  "paid_grant claim = \<lparr>gr_reference = payment_ref claim, gr_consume = None\<rparr>"

definition purchase ::
  "'s request_env \<Rightarrow> ('sk, 'pk) claim_env \<Rightarrow> string option \<Rightarrow> string option \<Rightarrow> jsval \<Rightarrow> 's \<times> db
     \<Rightarrow> (failure + bundle_response) \<times> 's \<times> db"
where
  "purchase env cenv claimHeader idempotencyKey body sd =
     (case admit (rq_rt env) (rq_config env) cenv (rq_queryNow env) claimHeader (snd sd) of
        (Inl e, d') \<Rightarrow> (Inl e, fst sd, d')
      | (Inr claim, d') \<Rightarrow> issue env (paid_grant claim) idempotencyKey body (fst sd, d'))"

interpretation paid: issuance_grant "paid_grant claim" for claim
  by unfold_locales (simp_all add: paid_grant_def)

subsection \<open>What admission requires\<close>

lemma require_fields_Inr:
  "require_fields fs = Inr () \<longleftrightarrow> (\<forall>(f, v) \<in> set fs. nonempty_string v \<noteq> None)"
  by (induction fs rule: require_fields.induct) (auto split: option.splits)

lemma require_fields_Inl:
  "require_fields fs = Inl e \<Longrightarrow> \<exists>f v. (f, v) \<in> set fs \<and> e = ClaimRejected malformed (''payment claim is missing '' @ f)"
  by (induction fs rule: require_fields.induct) (auto split: option.splits)

lemma verify_claim_Inr:
  "verify_claim rt C config (Some key) claim = Inr () \<longleftrightarrow>
     (\<exists>amt route sig. amount claim = JStr amt \<and> route_id claim = JStr route \<and> proxy_sig claim = JStr sig
        \<and> amt \<noteq> [] \<and> route \<noteq> [] \<and> sig \<noteq> []
        \<and> ed_verify C key (base64ToBytes rt sig) (canonicalClaimPayload (payment_ref claim) amt route)
        \<and> decimalEquals amt (bundlePrice config))"
  (is "_ \<longleftrightarrow> ?ok")
proof (cases "require_fields [(''amount'', amount claim), (''route_id'', route_id claim), (''proxy_sig'', proxy_sig claim)] = Inr ()")
  case True
  then obtain amt route sig where "amount claim = JStr amt" "route_id claim = JStr route" "proxy_sig claim = JStr sig"
    "amt \<noteq> []" "route \<noteq> []" "sig \<noteq> []"
    unfolding require_fields_Inr by auto
  with True show ?thesis
    by (simp add: verify_claim_def Let_def del: require_fields.simps)
next
  case False
  then obtain e where e: "require_fields [(''amount'', amount claim), (''route_id'', route_id claim), (''proxy_sig'', proxy_sig claim)] = Inl e"
    by (cases "require_fields [(''amount'', amount claim), (''route_id'', route_id claim), (''proxy_sig'', proxy_sig claim)]") auto
  with False have "\<not> ?ok" unfolding require_fields_Inr by auto
  with e show ?thesis by (simp add: verify_claim_def del: require_fields.simps)
qed

lemma countFor_record:
  "countFor r (record_rejection stored now reason d) = countFor r d + (if stored \<and> r = reason then 1 else 0)"
  by (auto simp: countFor_def record_rejection_def table.lookup_put split: option.splits)

lemma record_rejection_frame [table_simps]:
  "issuance_record (record_rejection stored now reason d) = issuance_record d"
  "idempotency_record (record_rejection stored now reason d) = idempotency_record d"
  "epoch_counter (record_rejection stored now reason d) = epoch_counter d"
  "reconciliation_alarm (record_rejection stored now reason d) = reconciliation_alarm d"
  "entitlement (record_rejection stored now reason d) = entitlement d"
  by (simp_all add: record_rejection_def)

lemma admit_Inr:
  "admit rt config cenv now header d = (Inr claim, d') \<longleftrightarrow>
     parsePaymentClaim rt header = Inr claim
     \<and> verify_claim rt (ce_ed25519 cenv) config (ce_proxyKey cenv) claim = Inr () \<and> d' = d"
  by (auto simp: admit_def split: sum.splits claim_failure.splits)

lemma admit_Inl:
  assumes "admit rt config cenv now header d = (Inl e, d')" and "ce_proxyKey cenv \<noteq> None"
  obtains reason message where "e = IssuerException CLAIM_INVALID message"
    and "d' = record_rejection (ce_stored cenv) now reason d"
proof (cases "parsePaymentClaim rt header")
  case (Inl f)
  then have "\<exists>message. f = IssuerException CLAIM_INVALID message"
    by (auto simp: parsePaymentClaim_def Let_def split: if_splits option.splits)
  with Inl assms(1) that show ?thesis by (auto simp: admit_def)
next
  case (Inr claim)
  have "verify_claim rt (ce_ed25519 cenv) config (ce_proxyKey cenv) claim \<noteq> Inl (VerifierError m)" for m
    using assms(2)
    by (auto simp: verify_claim_def Let_def simp del: require_fields.simps split: sum.splits if_splits dest!: require_fields_Inl)
  with Inr assms(1) that show ?thesis
    by (auto simp: admit_def split: sum.splits claim_failure.splits)
qed

text \<open>A header that base64url-encodes a JSON object is parsed as that object.\<close>

lemma parsePaymentClaim_encoded:
  assumes "json_plain (JObj kvs)" and "nonempty_string (get_prop (JObj kvs) ''payment_ref'') = Some ref"
  shows "parsePaymentClaim rt (Some (bytesToBase64url (utf8_encode (json_stringify (JObj kvs))))) =
    Inr \<lparr>payment_ref = ref, amount = get_prop (JObj kvs) ''amount'',
         route_id = get_prop (JObj kvs) ''route_id'', proxy_sig = get_prop (JObj kvs) ''proxy_sig''\<rparr>"
proof -
  obtain v where v: "v = JObj kvs" "json_plain v" using assms(1) by blast
  define w where "w = json_stringify v"
  obtain c t where "w = c # t" using v(2) unfolding w_def by (rule json_stringify_head)
  then have ne: "w \<noteq> []" by simp
  have ww: "utf8_encode w = w" "utf8_decode rt w = w" "json_parse w = Some v"
    using v(2) by (simp_all add: w_def utf8_decode_def)
  show ?thesis
    using ne assms(2) unfolding v(1) [symmetric] w_def [symmetric] ww(1)
    by (simp add: parsePaymentClaim_def Let_def ww(2,3)) (simp add: v(1))
qed

subsection \<open>What the signature covers\<close>

lemma claim_literals [simp]:
  "valid_utf8 ''amount''" "valid_utf8 ''payment_ref''" "valid_utf8 ''route_id''" "valid_utf8 ''proxy_sig''"
  by (rule valid_utf8_all_ascii, simp add: ascii_def in_range_def)+

lemma claim_json_plain: "valid_utf8 ref \<Longrightarrow> valid_utf8 amt \<Longrightarrow> valid_utf8 route \<Longrightarrow> json_plain (claim_json ref amt route)"
  by (simp add: claim_json_def)

lemma canonicalClaimPayload_inj:
  assumes "valid_utf8 ref" "valid_utf8 amt" "valid_utf8 route" and "valid_utf8 ref'" "valid_utf8 amt'" "valid_utf8 route'"
  shows "canonicalClaimPayload ref amt route = canonicalClaimPayload ref' amt' route' \<longleftrightarrow>
    ref = ref' \<and> amt = amt' \<and> route = route'"
proof
  note p = claim_json_plain [OF assms(1-3)] claim_json_plain [OF assms(4-6)]
  assume "canonicalClaimPayload ref amt route = canonicalClaimPayload ref' amt' route'"
  then have "json_stringify (claim_json ref amt route) = json_stringify (claim_json ref' amt' route')"
    by (simp only: canonicalClaimPayload_def utf8_encode_valid valid_utf8_stringify p)
  from arg_cong [OF this, of json_parse] have "claim_json ref amt route = claim_json ref' amt' route'"
    by (simp only: json_roundtrip [OF p(1)] json_roundtrip [OF p(2)] option.inject)
  then show "ref = ref' \<and> amt = amt' \<and> route = route'" by (simp add: claim_json_def)
qed simp

subsection \<open>The price stays hidden from an unsigned caller\<close>

lemma verify_claim_price_blind:
  assumes "\<not> ed_verify C key (base64ToBytes rt (js_string (proxy_sig claim)))
    (canonicalClaimPayload (payment_ref claim) (js_string (amount claim)) (js_string (route_id claim)))"
  shows "verify_claim rt C (config\<lparr>bundlePrice := p\<rparr>) (Some key) claim = verify_claim rt C config (Some key) claim"
  using assms by (simp add: verify_claim_def Let_def del: require_fields.simps split: sum.split)

subsection \<open>A purchase\<close>

lemma purchase_refused:
  assumes "purchase env cenv header key body (s, d) = (Inl e, s', d')" and "ce_proxyKey cenv \<noteq> None"
  shows "issuance_record d' = issuance_record d \<and> idempotency_record d' = idempotency_record d
    \<and> epoch_counter d' = epoch_counter d \<and> entitlement d' = entitlement d
    \<and> reconciliation_alarm d' = reconciliation_alarm d"
proof (cases "admit (rq_rt env) (rq_config env) cenv (rq_queryNow env) header d")
  case (Pair r d1)
  show ?thesis
  proof (cases r)
    case (Inl f)
    with Pair assms(1) have "d' = d1" by (simp add: purchase_def)
    with Inl Pair assms(2) show ?thesis by (auto elim!: admit_Inl simp: table_simps)
  next
    case (Inr claim)
    with Pair have "d1 = d" by (simp add: admit_Inr)
    with Inr Pair assms(1) have "d' = d" by (auto simp: purchase_def dest: issue_Inl)
    then show ?thesis by simp
  qed
qed

lemma purchase_Inr:
  assumes "purchase env cenv header key body (s, d) = (Inr resp, s', d')"
  obtains claim where "parsePaymentClaim (rq_rt env) header = Inr claim"
    and "verify_claim (rq_rt env) (ce_ed25519 cenv) (rq_config env) (ce_proxyKey cenv) claim = Inr ()"
    and "issue env (paid_grant claim) key body (s, d) = (Inr resp, s', d')"
  using assms by (auto simp: purchase_def admit_Inr split: prod.splits sum.splits)

text \<open>A purchase is refused, leaves nothing, or is recorded whole.\<close>

lemma purchase_whole:
  assumes "purchase env cenv header key body (s, d) = (r, s', d')"
  obtains (nothing) "d'\<lparr>claim_rejection := claim_rejection d\<rparr> = d"
      and "\<forall>claim. fst (admit (rq_rt env) (rq_config env) cenv (rq_queryNow env) header d) = Inr claim \<longrightarrow> d' = d"
    | (whole) claim request resp where "r = Inr resp" and "parsePaymentClaim (rq_rt env) header = Inr claim"
      and "validateBundleRequest (rq_rt env) body (rq_config env) = Inr request"
      and "whole_record env (payment_ref claim) key request resp d d'"
      and "claim_rejection d' = claim_rejection d" and "entitlement d' = entitlement d"
proof (cases "admit (rq_rt env) (rq_config env) cenv (rq_queryNow env) header d")
  case (Pair a d1)
  show ?thesis
  proof (cases a)
    case (Inl e)
    have "d1\<lparr>claim_rejection := claim_rejection d\<rparr> = d"
      using Pair by (auto simp: admit_def record_rejection_def split: sum.splits claim_failure.splits)
    with Inl Pair assms show ?thesis by - (rule nothing, simp_all add: purchase_def)
  next
    case (Inr claim)
    with Pair have claim: "parsePaymentClaim (rq_rt env) header = Inr claim" "d1 = d" by (simp_all add: admit_Inr)
    with Inr Pair assms have i: "issue env (paid_grant claim) key body (s, d) = (r, s', d')" by (simp add: purchase_def)
    show ?thesis
    proof (cases "d' = d")
      case False
      have "r \<noteq> Inl e" for e using i False by (auto dest: issue_Inl)
      then obtain resp where r: "r = Inr resp" by (cases r) auto
      from i [unfolded r] obtain request where p: "issue_prepare env (paid_grant claim) body s = (Inr (request, resp), s')"
        and c: "issue_commit env (paid_grant claim) key request resp d = (Inr resp, d')" by (rule issue_success)
      have g: "gr_reference (paid_grant claim) = payment_ref claim" "gr_consume (paid_grant claim) = None" by (simp_all add: paid_grant_def)
      from p have v: "validateBundleRequest (rq_rt env) body (rq_config env) = Inr request" by (rule issue_prepare_Inr)
      have w: "whole_record env (payment_ref claim) key request resp d d'"
        using paid.issue_commit_whole [OF c] False by (simp add: g)
      from c have "claim_rejection d' = claim_rejection d \<and> entitlement d' = entitlement d"
      proof (cases rule: paid.issue_commit_Inr)
        case (issued idem)
        show ?thesis by (rule record_body_consumes [OF issued(2)]) (simp add: g)
      qed simp
      with whole [OF r claim(1) v w] show ?thesis by simp
    qed (rule nothing, simp_all)
  qed
qed

end
