(* ===== verification/Entitlements.thy ===== *)
theory Entitlements
  imports Issuance
begin

text \<open>
  The fiat rail: \<open>entitlements/entitlements.service.ts\<close> and \<open>entitlements/receipt-validator.service.ts\<close>. A
  receipt registers a drip schedule; a due drip authorises one bundle through the shared issuance path.

  PostgreSQL compares \<open>uuid\<close> values, so a text argument is normalised to lower case before it is compared
  with the column. Its \<open>now()\<close> is an argument, in milliseconds.
\<close>

subsection \<open>Receipts and registration\<close>

definition validate_receipt :: "jsval \<Rightarrow> failure + string" where
  "validate_receipt receipt =
     (case receipt of
        JStr s \<Rightarrow>
          if trim s = [] then Inl (IssuerException RECEIPT_INVALID ''receipt must be a non-empty string'')
          else Inr (trim s)
      | _ \<Rightarrow> Inl (IssuerException RECEIPT_INVALID ''receipt must be a non-empty string''))"

record entitlement_response =
  er_entitlement_id :: string
  er_next_drip_at :: string

text \<open>\<open>INSERT ... ON CONFLICT (receipt_hash) DO NOTHING\<close>; a repeated primary key is still an error.\<close>

definition insert_entitlement :: "millis \<Rightarrow> string \<Rightarrow> string \<Rightarrow> int \<Rightarrow> db \<Rightarrow> failure + db" where
  "insert_entitlement now uuid receiptHash interval d =
     (if receiptHash \<in> set (map en_receiptHash (entitlement d)) then Inr d
      else if uuid \<in> set (map en_entitlementId (entitlement d)) then Inl UniqueViolation
      else Inr (d\<lparr>entitlement := entitlement d @
             [\<lparr>en_entitlementId = uuid, en_receiptHash = receiptHash, en_dripIntervalSeconds = interval,
               en_nextDripAt = now, en_dripsIssued = 0, en_createdAt = now\<rparr>]\<rparr>))"

definition register :: "'s request_env \<Rightarrow> jsval \<Rightarrow> db \<Rightarrow> (failure + entitlement_response) \<times> db" where
  "register env body d =
     (if \<not> is_object body
      then (Inl (IssuerException REQUEST_INVALID ''request body must be a JSON object''), d)
      else case validate_receipt (get_prop body ''receipt'') of
        Inl e \<Rightarrow> (Inl e, d)
      | Inr subscriptionId \<Rightarrow>
          (let receiptHash = rq_sha256 env (utf8_encode subscriptionId) in
           case insert_entitlement (rq_queryNow env) (rq_uuid env) receiptHash
                  (int (entitlementDripIntervalSeconds (rq_config env))) d of
             Inl e \<Rightarrow> (Inl e, d)
           | Inr d' \<Rightarrow>
               (case lookup_by en_receiptHash receiptHash (entitlement d') of
                  None \<Rightarrow> (Inl (Error ''entitlement disappeared immediately after registration''), d')
                | Some row \<Rightarrow>
                    (map_sum id (\<lambda>t. \<lparr>er_entitlement_id = en_entitlementId row, er_next_drip_at = t\<rparr>)
                       (iso_text (en_nextDripAt row)), d'))))"

subsection \<open>The schedule\<close>

definition is_hex :: "char \<Rightarrow> bool" where
  "is_hex c \<longleftrightarrow> is_digit c \<or> (97 \<le> (of_char (to_lower c) :: nat) \<and> (of_char (to_lower c) :: nat) \<le> 102)"

text \<open>\<open>/^[0-9a-f]{8}-[0-9a-f]{4}-[0-9a-f]{4}-[0-9a-f]{4}-[0-9a-f]{12}$/i\<close>\<close>

definition is_uuid :: "string \<Rightarrow> bool" where
  "is_uuid s \<longleftrightarrow>
     length s = 36
     \<and> list_all (\<lambda>i. if i \<in> {8, 13, 18, 23} then s ! i = CHR ''-'' else is_hex (s ! i)) [0..<36]"

definition uuid_value :: "string \<Rightarrow> string" where
  "uuid_value s = map to_lower s"

record drip_schedule =
  sch_id :: string
  sch_due :: bool
  sch_nextDripAt :: millis
  sch_intervalSeconds :: int

definition find_entitlement :: "string \<Rightarrow> db \<Rightarrow> entitlement_row option" where
  "find_entitlement entitlementId d = lookup_by en_entitlementId (uuid_value entitlementId) (entitlement d)"

definition schedule :: "millis \<Rightarrow> string option \<Rightarrow> db \<Rightarrow> failure + drip_schedule" where
  "schedule now entitlementId d =
     (case entitlementId of
        None \<Rightarrow> Inl (IssuerException ENTITLEMENT_UNKNOWN ''no valid entitlement was presented'')
      | Some i \<Rightarrow>
          if \<not> is_uuid i
          then Inl (IssuerException ENTITLEMENT_UNKNOWN ''no valid entitlement was presented'')
          else (case find_entitlement i d of
                  None \<Rightarrow> Inl (IssuerException ENTITLEMENT_UNKNOWN ''no such entitlement'')
                | Some row \<Rightarrow>
                    Inr \<lparr>sch_id = i, sch_due = (en_nextDripAt row \<le> now), sch_nextDripAt = en_nextDripAt row,
                         sch_intervalSeconds = en_dripIntervalSeconds row\<rparr>))"

definition drip_row :: "millis \<Rightarrow> int \<Rightarrow> entitlement_row \<Rightarrow> entitlement_row" where
  "drip_row now interval r =
     r\<lparr>en_nextDripAt := now + interval * 1000, en_dripsIssued := en_dripsIssued r + 1\<rparr>"

definition advance :: "millis \<Rightarrow> string \<Rightarrow> int \<Rightarrow> db \<Rightarrow> failure + db" where
  "advance now entitlementId interval d =
     (let hit = (\<lambda>r. en_entitlementId r = uuid_value entitlementId \<and> en_nextDripAt r \<le> now);
          affected = length (filter hit (entitlement d))
      in if affected = 0 then Inl (IssuerException NOT_DUE ''next drip was already picked up'')
         else Inr (d\<lparr>entitlement := map (\<lambda>r. if hit r then drip_row now interval r else r) (entitlement d)\<rparr>))"

definition drip_grant :: "millis \<Rightarrow> drip_schedule \<Rightarrow> grant" where
  "drip_grant now sch =
     \<lparr>gr_reference = sch_id sch, gr_consume = Some (advance now (sch_id sch) (sch_intervalSeconds sch))\<rparr>"

definition pickup ::
  "'s request_env \<Rightarrow> string option \<Rightarrow> string option \<Rightarrow> jsval \<Rightarrow> 's \<times> db
     \<Rightarrow> (failure + bundle_response) \<times> 's \<times> db"
where
  "pickup env entitlementId idempotencyKey body sd =
     (case schedule (rq_queryNow env) entitlementId (snd sd) of
        Inl e \<Rightarrow> (Inl e, sd)
      | Inr sch \<Rightarrow>
          (let replay = (case idempotencyKey of None \<Rightarrow> False | Some k \<Rightarrow> isReplay (sch_id sch) k (snd sd)) in
           if \<not> replay \<and> \<not> sch_due sch
           then (case iso_text (sch_nextDripAt sch) of
                   Inl e \<Rightarrow> (Inl e, sd)
                 | Inr t \<Rightarrow> (Inl (IssuerException NOT_DUE (''next drip is not due until '' @ t)), sd))
           else issue env (drip_grant (rq_dbNow env) sch) idempotencyKey body sd))"

interpretation drip: issuance_grant "drip_grant now sch" for now sch
  by unfold_locales (auto simp: drip_grant_def advance_def Let_def split: if_splits)

subsection \<open>Registration is idempotent in the receipt\<close>

text \<open>The keys of the entitlement table.\<close>

definition entitlements_keyed :: "db \<Rightarrow> bool" where
  "entitlements_keyed d \<longleftrightarrow>
     distinct (map en_entitlementId (entitlement d)) \<and> distinct (map en_receiptHash (entitlement d))"

text \<open>
  A schedule never runs ahead: each drip issued accounts for one interval between registration and the
  next due time.
\<close>

definition row_paced :: "entitlement_row \<Rightarrow> bool" where
  "row_paced r \<longleftrightarrow>
     0 \<le> en_dripsIssued r
     \<and> en_createdAt r + en_dripsIssued r * en_dripIntervalSeconds r * 1000 \<le> en_nextDripAt r"

definition entitlements_ok :: "db \<Rightarrow> bool" where
  "entitlements_ok d \<longleftrightarrow> entitlements_keyed d \<and> (\<forall>r \<in> set (entitlement d). row_paced r)"

lemma entitlements_ok_cong: "entitlement d = entitlement d' \<Longrightarrow> entitlements_ok d = entitlements_ok d'"
  by (simp add: entitlements_ok_def entitlements_keyed_def)

lemma insert_entitlement_ok [step_invs]:
  assumes "insert_entitlement now uuid h i d = Inr d'" and "entitlements_ok d"
  shows "entitlements_ok d'"
  using assms by (auto simp: insert_entitlement_def entitlements_ok_def entitlements_keyed_def row_paced_def split: if_splits)

lemma insert_entitlement_lookup:
  assumes "insert_entitlement now uuid h i d = Inr d'"
  shows "lookup_by en_receiptHash h (entitlement d') =
    Some (case lookup_by en_receiptHash h (entitlement d) of Some r \<Rightarrow> r
      | None \<Rightarrow> \<lparr>en_entitlementId = uuid, en_receiptHash = h, en_dripIntervalSeconds = i,
                 en_nextDripAt = now, en_dripsIssued = 0, en_createdAt = now\<rparr>)"
proof (cases "lookup_by en_receiptHash h (entitlement d)")
  case None
  then have "h \<notin> set (map en_receiptHash (entitlement d))" by (simp add: lookup_by_None)
  with assms None show ?thesis by (auto simp: insert_entitlement_def lookup_by_append split: if_splits)
next
  case (Some r)
  then have "h \<in> set (map en_receiptHash (entitlement d))" by (metis lookup_by_None option.discI)
  with assms Some show ?thesis by (simp add: insert_entitlement_def)
qed

lemma register_Inr:
  assumes "register env body d = (Inr resp, d')"
  obtains sub row where "is_object body" and "validate_receipt (get_prop body ''receipt'') = Inr sub"
    and "insert_entitlement (rq_queryNow env) (rq_uuid env) (rq_sha256 env (utf8_encode sub))
           (int (entitlementDripIntervalSeconds (rq_config env))) d = Inr d'"
    and "lookup_by en_receiptHash (rq_sha256 env (utf8_encode sub)) (entitlement d') = Some row"
    and "er_entitlement_id resp = en_entitlementId row" and "toISOString (en_nextDripAt row) = Some (er_next_drip_at resp)"
proof -
  from assms obtain sub where 1: "is_object body" "validate_receipt (get_prop body ''receipt'') = Inr sub"
    by (auto simp: register_def split: if_splits sum.splits)
  from assms 1 obtain d1 where 2: "insert_entitlement (rq_queryNow env) (rq_uuid env) (rq_sha256 env (utf8_encode sub))
           (int (entitlementDripIntervalSeconds (rq_config env))) d = Inr d1"
    by (auto simp: register_def Let_def split: sum.splits)
  from insert_entitlement_lookup [OF 2] obtain row where
    3: "lookup_by en_receiptHash (rq_sha256 env (utf8_encode sub)) (entitlement d1) = Some row" by blast
  from assms 1 2 3 show ?thesis
    by (intro that [OF 1, of row]) (auto simp: register_def Let_def iso_text_def split: option.splits)
qed

subsection \<open>A due drip is picked up once\<close>

lemma drip_keys:
  "map en_entitlementId (map (\<lambda>r. if P r then drip_row now interval r else r) rows) = map en_entitlementId rows"
  "map en_receiptHash (map (\<lambda>r. if P r then drip_row now interval r else r) rows) = map en_receiptHash rows"
  by (induction rows) (simp_all add: drip_row_def)

lemma find_entitlement_iff:
  assumes "entitlements_keyed d"
  shows "find_entitlement i d = Some row \<longleftrightarrow> row \<in> set (entitlement d) \<and> en_entitlementId row = uuid_value i"
  using find_SomeD [of "\<lambda>r. en_entitlementId r = uuid_value i" "entitlement d" row]
    find_distinct_key [of en_entitlementId "entitlement d" row "uuid_value i"] assms
  by (auto simp: find_entitlement_def lookup_by_def entitlements_keyed_def)

lemma advance_Inr:
  assumes "advance now i interval d = Inr d'" and "entitlements_keyed d"
  obtains row where "find_entitlement i d = Some row" and "en_nextDripAt row \<le> now"
    and "find_entitlement i d' = Some (drip_row now interval row)"
    and "entitlement d' = map (\<lambda>r. if r = row then drip_row now interval r else r) (entitlement d)"
proof -
  define hit where "hit = (\<lambda>r :: entitlement_row. en_entitlementId r = uuid_value i \<and> en_nextDripAt r \<le> now)"
  from assms(1) have d': "entitlement d' = map (\<lambda>r. if hit r then drip_row now interval r else r) (entitlement d)"
    and "filter hit (entitlement d) \<noteq> []"
    by (auto simp: advance_def Let_def hit_def split: if_splits)
  then obtain row where row: "row \<in> set (entitlement d)" "hit row" by (auto simp: filter_empty_conv)
  then have find: "find_entitlement i d = Some row" "en_nextDripAt row \<le> now"
    using find_entitlement_iff [OF assms(2)] by (simp_all add: hit_def)
  have only: "hit r \<longleftrightarrow> r = row" if "r \<in> set (entitlement d)" for r
    using that find_entitlement_iff [OF assms(2), of i r] find(1) row(2) by (auto simp: hit_def)
  have tab: "entitlement d' = map (\<lambda>r. if r = row then drip_row now interval r else r) (entitlement d)"
    unfolding d' by (rule map_cong [OF refl]) (simp add: only)
  have "entitlements_keyed d'"
    using assms(2) unfolding entitlements_keyed_def d' drip_keys .
  moreover have "drip_row now interval row \<in> set (entitlement d')" using row(1) by (auto simp: tab)
  moreover have "en_entitlementId (drip_row now interval row) = uuid_value i"
    using row(2) by (simp add: hit_def drip_row_def)
  ultimately have "find_entitlement i d' = Some (drip_row now interval row)"
    by (simp add: find_entitlement_iff)
  with that find tab show ?thesis by blast
qed

lemma drip_ok:
  assumes "entitlements_ok d" and "en_nextDripAt row \<le> now"
    and tab: "entitlement d' = map (\<lambda>r. if r = row then drip_row now (en_dripIntervalSeconds row) r else r) (entitlement d)"
  shows "entitlements_ok d'"
proof -
  have "row_paced (drip_row now (en_dripIntervalSeconds row) row)" if "row_paced row"
    using that assms(2) by (simp add: row_paced_def drip_row_def algebra_simps)
  then have "\<forall>r \<in> set (entitlement d'). row_paced r"
    using assms(1) by (auto simp: tab entitlements_ok_def)
  moreover have "entitlements_keyed d'"
    using assms(1) unfolding entitlements_ok_def entitlements_keyed_def tab drip_keys by simp
  ultimately show ?thesis by (simp add: entitlements_ok_def)
qed

lemma schedule_Inr:
  assumes "schedule now entitlementId d = Inr sch"
  obtains row where "entitlementId = Some (sch_id sch)" and "is_uuid (sch_id sch)"
    and "find_entitlement (sch_id sch) d = Some row" and "sch_due sch \<longleftrightarrow> en_nextDripAt row \<le> now"
    and "sch_nextDripAt sch = en_nextDripAt row" and "sch_intervalSeconds sch = en_dripIntervalSeconds row"
  using assms by (auto simp: schedule_def split: option.splits if_splits)

lemma find_entitlement_cong: "entitlement d = entitlement d' \<Longrightarrow> find_entitlement i d = find_entitlement i d'"
  by (simp add: find_entitlement_def)

lemma pickup_Inr:
  assumes "pickup env entitlementId key body (s, d) = (Inr resp, s', d')"
  obtains sch where "schedule (rq_queryNow env) entitlementId d = Inr sch"
    and "issue env (drip_grant (rq_dbNow env) sch) key body (s, d) = (Inr resp, s', d')"
    and "sch_due sch \<or> (\<exists>k. key = Some k \<and> isReplay (sch_id sch) k d)"
  using assms
  by (auto simp: pickup_def Let_def iso_text_def split: sum.splits option.splits if_splits)

text \<open>
  A pickup that returns a bundle either replayed a claimed key and wrote nothing, or consumed a drip that
  was due on the database's clock: one ledger row, and the next drip one interval from that moment.
\<close>

lemma pickup_outcome:
  assumes "pickup env entitlementId key body (s, d) = (Inr resp, s', d')" and "entitlements_ok d"
  obtains (replay) i k where "entitlementId = Some i" and "key = Some k" and "isReplay i k d" and "d' = d"
    | (issued) i row where "entitlementId = Some i" and "find_entitlement i d = Some row" and "en_nextDripAt row \<le> rq_dbNow env"
      and "find_entitlement i d' = Some (drip_row (rq_dbNow env) (en_dripIntervalSeconds row) row)"
      and "entitlement d' = map (\<lambda>r. if r = row then drip_row (rq_dbNow env) (en_dripIntervalSeconds row) r else r) (entitlement d)"
      and "issuance_record d' = issuance_record d @
        [\<lparr>ir_paymentRef = i, ir_epoch = resp_epoch resp, ir_bundleCount = 1, ir_timestamp = rq_dbNow env\<rparr>]"
proof -
  from assms(1) obtain sch where sch: "schedule (rq_queryNow env) entitlementId d = Inr sch"
    and iss: "issue env (drip_grant (rq_dbNow env) sch) key body (s, d) = (Inr resp, s', d')"
    by (rule pickup_Inr)
  let ?g = "drip_grant (rq_dbNow env) sch"
  from sch obtain row where row: "entitlementId = Some (sch_id sch)" "find_entitlement (sch_id sch) d = Some row"
    "sch_intervalSeconds sch = en_dripIntervalSeconds row"
    by (rule schedule_Inr)
  from iss obtain request where p: "issue_prepare env ?g body s = (Inr (request, resp), s')"
    and c: "issue_commit env ?g key request resp d = (Inr resp, d')"
    by (rule issue_success)
  from c show ?thesis
  proof (cases rule: drip.issue_commit_Inr)
    case (replay k r)
    then have "isReplay (sch_id sch) k d"
      by (auto simp: isReplay_def find_idempotency_def lookup_by_def drip_grant_def filter_empty_conv dest: find_SomeD)
    with replay row that(1) show ?thesis by blast
  next
    case (issued idem)
    obtain d4 where d4: "entitlement d4 = entitlement d"
      "advance (rq_dbNow env) (sch_id sch) (sch_intervalSeconds sch) d4 = Inr d'"
      using issued(2) by (rule record_body_consumes) (simp add: drip_grant_def)
    then have "entitlements_keyed d4" using assms(2) by (simp add: entitlements_ok_def entitlements_keyed_def)
    from d4(2) this obtain row' where "find_entitlement (sch_id sch) d4 = Some row'" "en_nextDripAt row' \<le> rq_dbNow env"
      "find_entitlement (sch_id sch) d' = Some (drip_row (rq_dbNow env) (sch_intervalSeconds sch) row')"
      "entitlement d' = map (\<lambda>r. if r = row' then drip_row (rq_dbNow env) (sch_intervalSeconds sch) r else r) (entitlement d4)"
      by (rule advance_Inr)
    moreover have "row' = row" using calculation(1) row(2) find_entitlement_cong [OF d4(1)] by simp
    ultimately show ?thesis
      using that(2) [OF row(1,2)] row d4(1) drip.record_body_Inr(1) [OF issued(2)] issue_prepare_count(2) [OF p]
      by (simp add: drip_grant_def)
  qed
qed

lemma pickup_ok [step_invs]:
  assumes "pickup env entitlementId key body (s, d) = (r, s', d')" and "entitlements_ok d"
  shows "entitlements_ok d'"
proof (cases r)
  case (Inl e)
  with assms have "d' = d"
    by (auto simp: pickup_def Let_def iso_text_def split: sum.splits if_splits option.splits dest: issue_Inl)
  with assms(2) show ?thesis by simp
next
  case (Inr resp)
  from assms(1) [unfolded Inr] assms(2) show ?thesis
  proof (cases rule: pickup_outcome)
    case (issued i row)
    then show ?thesis using drip_ok [OF assms(2) issued(3,5)] by simp
  qed (use assms in simp)
qed

text \<open>A pickup leaves nothing, or is recorded whole with its drip.\<close>

lemma pickup_whole:
  assumes "pickup env entitlementId key body (s, d) = (r, s', d')"
  obtains (nothing) "d' = d"
    | (whole) i interval request resp where "r = Inr resp" and "entitlementId = Some i"
      and "validateBundleRequest (rq_rt env) body (rq_config env) = Inr request"
      and "whole_record env i key request resp d d'" and "claim_rejection d' = claim_rejection d"
      and "entitlement d' = map (\<lambda>row. if en_entitlementId row = uuid_value i \<and> en_nextDripAt row \<le> rq_dbNow env
            then drip_row (rq_dbNow env) interval row else row) (entitlement d)"
proof (cases "d' = d")
  case False
  have "\<exists>resp. r = Inr resp"
    using assms False by (cases r) (auto simp: pickup_def Let_def iso_text_def split: sum.splits if_splits option.splits dest: issue_Inl)
  then obtain resp where r: "r = Inr resp" by blast
  from assms [unfolded r] obtain sch where sch: "schedule (rq_queryNow env) entitlementId d = Inr sch"
    and i: "issue env (drip_grant (rq_dbNow env) sch) key body (s, d) = (Inr resp, s', d')" by (rule pickup_Inr)
  let ?g = "drip_grant (rq_dbNow env) sch"
  from i obtain request where p: "issue_prepare env ?g body s = (Inr (request, resp), s')"
    and c: "issue_commit env ?g key request resp d = (Inr resp, d')" by (rule issue_success)
  have g: "gr_reference ?g = sch_id sch" "gr_consume ?g = Some (advance (rq_dbNow env) (sch_id sch) (sch_intervalSeconds sch))"
    by (simp_all add: drip_grant_def)
  from p have v: "validateBundleRequest (rq_rt env) body (rq_config env) = Inr request" by (rule issue_prepare_Inr)
  have w: "whole_record env (sch_id sch) key request resp d d'" using drip.issue_commit_whole [OF c] False by (simp add: g)
  have "entitlementId = Some (sch_id sch)" using sch by (rule schedule_Inr)
  moreover from c have "claim_rejection d' = claim_rejection d \<and>
      entitlement d' = map (\<lambda>row. if en_entitlementId row = uuid_value (sch_id sch) \<and> en_nextDripAt row \<le> rq_dbNow env
        then drip_row (rq_dbNow env) (sch_intervalSeconds sch) row else row) (entitlement d)"
  proof (cases rule: drip.issue_commit_Inr)
    case (issued idem)
    show ?thesis by (rule record_body_consumes [OF issued(2)]) (auto simp: g advance_def Let_def split: if_splits)
  qed (use False in simp)
  ultimately show ?thesis by (intro whole [OF r _ v w]) blast+
qed (rule nothing)

end
