(* ===== verification/Samples.thy ===== *)
theory Samples
  imports Claims Entitlements
begin

text \<open>
  One small deployment on which the witnesses of the properties run the model: a keyring with one epoch,
  two blanks of three bytes per bundle, Redis in memory, a hash that keeps its input (and so has no
  collisions) and a signer pool that echoes the blank (and so is deterministic).
\<close>

definition sample_config :: issuer_config where
  "sample_config =
     \<lparr>bundleSize = 2, blankSizeBytes = 3, signatureSizeBytes = 3, keyringPath = ''keyring.json'',
      keyringReloadSeconds = 30, rateLimitMax = 2, rateLimitWindowSeconds = 60,
      proxyPublicKeyPath = ''proxy.pub.pem'', bundlePrice = ''1.00'', reconciliationIntervalSeconds = 60,
      signingWorkers = 0, useNativeRsa = False, signingTimeoutMs = 1000, entitlementDripIntervalSeconds = 60\<rparr>"

definition sample_entry :: epoch_entry where
  "sample_entry =
     \<lparr>epoch_id = ''7'', not_before = ''1970-01-01T00:00:00.000Z'', not_after = ''1970-01-02T00:00:00.000Z'',
      alg = BLIND_SIGNATURE_SUITE, pubkey = ''AAAA'', root_sig = ''c2ln'', private_key_pkcs8_pem = ''pem''\<rparr>"

definition sample_keyring :: keyring where
  "sample_keyring = \<lparr>current_epoch = ''7'', root_public_key_spki = ''AAAA'', epochs = [sample_entry]\<rparr>"

definition sample_env :: "millis \<Rightarrow> string \<Rightarrow> mem_store request_env" where
  "sample_env now uuid =
     \<lparr>rq_rt = strict_runtime, rq_config = sample_config, rq_redis = mem_redis, rq_sha256 = (\<lambda>bs. bs),
      rq_keys = \<lparr>ks_keyring = Some sample_keyring, ks_fingerprint = None\<rparr>,
      rq_pool_sign = (\<lambda>epoch blank. Inr blank), rq_settles = [], rq_now = now, rq_signNow = now, rq_uuid = uuid,
      rq_queryNow = now, rq_dbNow = now\<rparr>"

definition sample_body :: jsval where
  "sample_body = JObj [(''epoch'', JStr ''7''), (''blinded_blanks'', JArr [JStr ''AAAA'', JStr ''BBBB''])]"

definition sample_request :: bundle_request where
  "sample_request = \<lparr>req_epoch = ''7'', blinded_blanks = [''AAAA'', ''BBBB'']\<rparr>"

definition sample_response :: bundle_response where
  "sample_response = \<lparr>resp_epoch = ''7'', blind_signatures = [''AAAA'', ''BBBB'']\<rparr>"

definition sample_grant :: grant where
  "sample_grant = \<lparr>gr_reference = ''ref'', gr_consume = None\<rparr>"

subsection \<open>What it does\<close>

lemma sample_usable:
  assumes "0 \<le> t" and "t < 86400000"
  shows "keys_usable strict_runtime \<lparr>ks_keyring = Some sample_keyring, ks_fingerprint = None\<rparr> ''7'' t = Inr (Some sample_entry)"
proof -
  have "date_parse strict_runtime (not_before sample_entry) = Some 0" "date_parse strict_runtime (not_after sample_entry) = Some 86400000"
    using epoch_days date_parse_toISOString by (simp_all add: sample_entry_def)
  moreover have "find_epoch sample_keyring ''7'' = Some sample_entry"
    by (simp add: find_epoch_def sample_keyring_def) (simp add: sample_entry_def)
  ultimately show ?thesis using assms
    by (simp add: keys_usable_def require_keyring_def usableEpoch_def)
qed

lemma sample_valid: "validateBundleRequest strict_runtime sample_body sample_config = Inr sample_request"
  by code_simp

lemma sample_signed: "signBundle settles (\<lambda>epoch blank. Inr blank) sample_request = Inr sample_response"
  by (simp add: signBundle_def signBlindedBlank_def sample_request_def sample_response_def promise_all_ok)

lemma sample_prepare:
  assumes "0 \<le> t" and "t < 86400000"
    and "allow mem_redis sample_config t u (gr_reference g) s = (Inr True, s')"
  shows "issue_prepare (sample_env t u) g sample_body s = (Inr (sample_request, sample_response), s')"
  using assms sample_usable [OF assms(1,2)] sample_valid sample_signed
  by (simp add: issue_prepare_def sample_env_def) (simp add: sample_request_def)
lemma sample_allow: "fst (allow mem_redis sample_config t u ref (\<lambda>_. [])) = Inr True"
  by (simp add: allow_def mem_redis_def sample_config_def Let_def windowMs_def)

lemma sample_keyring_ok: "keyring_ok sample_keyring"
proof -
  have "iso_time (not_before sample_entry) = Some 0" "iso_time (not_after sample_entry) = Some 86400000"
    using epoch_days by (simp_all add: iso_time_iff sample_entry_def)
  moreover have der: "''AAAA'' = bytesToBase64 [CHR 0x00, CHR 0x00, CHR 0x00]" by code_simp
  ultimately have "entry_ok sample_entry"
    by (auto simp: entry_ok_def) (simp_all add: sample_entry_def, blast)
  with der show ?thesis
    by (auto simp: keyring_ok_def sample_keyring_def intro!: exI [of _ "[CHR 0x00, CHR 0x00, CHR 0x00]"])
      (simp add: sample_entry_def)
qed

subsection \<open>A signed claim\<close>

text \<open>A signature scheme whose signature of a message is the message with a mark in front.\<close>

definition sample_ed25519 :: "(unit, unit) ed25519" where
  "sample_ed25519 =
     \<lparr>ed_import_private = (\<lambda>_. Inr ()), ed_import_public = (\<lambda>_. Inr ()), ed_public_spki = (\<lambda>_. ''spki''),
      ed_sign = (\<lambda>_ m. CHR ''s'' # m), ed_verify = (\<lambda>_ sig m. sig = CHR ''s'' # m)\<rparr>"

lemma sample_ed25519_correct: "ed25519_correct sample_ed25519 sk"
  by (simp add: ed25519_correct_def sample_ed25519_def)

definition sample_claim_env :: "(unit, unit) claim_env" where
  "sample_claim_env = \<lparr>ce_ed25519 = sample_ed25519, ce_proxyKey = Some (), ce_stored = True\<rparr>"

definition sample_header :: "string \<Rightarrow> string" where
  "sample_header amt =
     bytesToBase64url (utf8_encode (json_stringify (JObj
       [(''payment_ref'', JStr ''ref''), (''amount'', JStr amt), (''route_id'', JStr ''route''),
        (''proxy_sig'', JStr (bytesToBase64url (ed_sign sample_ed25519 () (canonicalClaimPayload ''ref'' amt ''route''))))])))"

definition sample_claim :: "string \<Rightarrow> payment_claim" where
  "sample_claim amt =
     \<lparr>payment_ref = ''ref'', amount = JStr amt, route_id = JStr ''route'',
      proxy_sig = JStr (bytesToBase64url (ed_sign sample_ed25519 () (canonicalClaimPayload ''ref'' amt ''route'')))\<rparr>"

lemma sample_literals: "valid_utf8 ''ref''" "valid_utf8 ''route''" "valid_utf8 ''1.0''" "valid_utf8 ''1.01''"
  by (rule valid_utf8_all_ascii, simp add: ascii_def in_range_def)+

lemma sample_parsed:
  assumes "valid_utf8 amt"
  shows "parsePaymentClaim rt (Some (sample_header amt)) = Inr (sample_claim amt)"
  unfolding sample_header_def
  by (subst parsePaymentClaim_encoded [where ref = "''ref''"])
    (simp_all add: sample_claim_def sample_literals assms)

lemma sample_verified:
  assumes "amt \<noteq> []"
  shows "verify_claim rt sample_ed25519 config (Some ()) (sample_claim amt) =
    (if decimalEquals amt (bundlePrice config) then Inr ()
     else Inl (ClaimRejected amount_mismatch ''claimed amount does not match the bundle price''))"
  using assms by (simp add: verify_claim_def sample_claim_def sample_ed25519_def Let_def)

lemma sample_price: "decimalEquals ''1.0'' (bundlePrice sample_config)" "\<not> decimalEquals ''1.01'' (bundlePrice sample_config)"
  by (simp_all add: decimalEquals_value sample_config_def isDecimal_def Let_def all_digits_def is_digit_def
      decimal_value_def startsWith_def whole_part_def drop_minus_def fraction_part_def fraction_digits_def
      read_nat_def digit_val_def)

lemma sample_admit:
  "admit strict_runtime sample_config sample_claim_env t (Some (sample_header ''1.0'')) d = (Inr (sample_claim ''1.0''), d)"
  using sample_parsed [OF sample_literals(3), of strict_runtime] sample_verified [of "''1.0''" strict_runtime sample_config] sample_price
  by (simp add: admit_Inr sample_claim_env_def sample_literals)

subsection \<open>Issuing\<close>

definition sample_store :: mem_store where "sample_store = (\<lambda>_. [])"

lemma sample_issue:
  assumes "0 \<le> t" and "t < 86400000" and "fst (allow mem_redis sample_config t u (gr_reference g) s) = Inr True"
  shows "issue (sample_env t u) g key sample_body (s, d) =
    (let (r, d') = issue_commit (sample_env t u) g key sample_request sample_response d
     in (r, snd (allow mem_redis sample_config t u (gr_reference g) s), d'))"
  using sample_prepare [OF assms(1,2), of u g s "snd (allow mem_redis sample_config t u (gr_reference g) s)"] assms(3)
  by (simp add: issue_def prod_eq_iff split_beta Let_def)

lemma sample_commit:
  assumes "gr_consume g = None"
  shows "\<exists>d'. issue_commit (sample_env t u) g None sample_request sample_response d = (Inr sample_response, d')"
  using assms by (simp add: issue_commit_def record_issuance_def transaction_def record_body_def Let_def)

lemma sample_commit_key:
  assumes "gr_consume g = None" and "k \<noteq> []" and "find_idempotency (gr_reference g) k d = None"
  shows "\<exists>d'. issue_commit env g (Some k) request response d = (Inr response, d')"
  using assms
  by (simp add: issue_commit_def record_issuance_def transaction_def record_body_def insert_idempotency_def
      find_idempotency_def lookup_by_None Let_def)

lemma sample_issue_ok:
  assumes "0 \<le> t" and "t < 86400000" and "gr_consume g = None"
  shows "\<exists>s' d'. issue (sample_env t u) g None sample_body (sample_store, d) = (Inr sample_response, s', d')"
  using sample_issue [OF assms(1,2), of u g sample_store None d] sample_commit [OF assms(3), of t u d]
    sample_allow [of t u "gr_reference g"]
  by (auto simp: sample_store_def)

lemma sample_purchase:
  assumes "0 \<le> t" and "t < 86400000"
  shows "\<exists>s' d'. purchase (sample_env t u) sample_claim_env (Some (sample_header ''1.0'')) None sample_body
    (sample_store, d) = (Inr sample_response, s', d')"
  using sample_issue_ok [OF assms, of "paid_grant (sample_claim ''1.0'')" u d] sample_admit [of t d]
  by (simp add: purchase_def sample_env_def paid_grant_def)

text \<open>A purchase and its replay, whatever the hash is and in whatever words the retry spells the request.\<close>

definition hashed_env :: "(bytes \<Rightarrow> string) \<Rightarrow> millis \<Rightarrow> string \<Rightarrow> mem_store request_env" where
  "hashed_env h t u = (sample_env t u)\<lparr>rq_sha256 := h\<rparr>"

lemma hashed_prepare: "issue_prepare (hashed_env h t u) g body s = issue_prepare (sample_env t u) g body s"
proof -
  have sels: "rq_rt (hashed_env h t u) = rq_rt (sample_env t u)" "rq_config (hashed_env h t u) = rq_config (sample_env t u)"
    "rq_redis (hashed_env h t u) = rq_redis (sample_env t u)" "rq_keys (hashed_env h t u) = rq_keys (sample_env t u)"
    "rq_pool_sign (hashed_env h t u) = rq_pool_sign (sample_env t u)" "rq_settles (hashed_env h t u) = rq_settles (sample_env t u)"
    "rq_now (hashed_env h t u) = rq_now (sample_env t u)"
    "rq_signNow (hashed_env h t u) = rq_signNow (sample_env t u)" "rq_uuid (hashed_env h t u) = rq_uuid (sample_env t u)"
    by (simp_all add: hashed_env_def)
  show ?thesis unfolding issue_prepare_def sels ..
qed

lemma same_request_prepare:
  assumes "validateBundleRequest (rq_rt env) body' (rq_config env) = validateBundleRequest (rq_rt env) body (rq_config env)"
  shows "issue_prepare env g body' s = issue_prepare env g body s"
  unfolding issue_prepare_def assms ..

lemma sample_replay:
  assumes "validateBundleRequest strict_runtime body' sample_config = Inr sample_request"
  obtains s1 d1 s2 row where
    "issue (hashed_env h 1 ''u'') (paid_grant (sample_claim ''1.0'')) (Some ''k'') sample_body (sample_store, empty_db) = (Inr sample_response, s1, d1)"
    "issue (hashed_env h 2 ''v'') (paid_grant (sample_claim ''1.0'')) (Some ''k'') body' (sample_store, d1) = (Inr sample_response, s2, d1)"
    "find_idempotency ''ref'' ''k'' d1 = Some row"
    "issue_prepare (hashed_env h 2 ''v'') (paid_grant (sample_claim ''1.0'')) body' sample_store = (Inr (sample_request, sample_response), s2)"
proof -
  let ?g = "paid_grant (sample_claim ''1.0'')"
  have g: "gr_consume ?g = None" "gr_reference ?g = ''ref''" by (simp_all add: paid_grant_def sample_claim_def)
  have allow: "fst (allow mem_redis sample_config t u (gr_reference ?g) sample_store) = Inr True" for t u
    using sample_allow by (simp add: sample_store_def)
  have prepare: "issue_prepare (hashed_env h t u) ?g sample_body sample_store =
      (Inr (sample_request, sample_response), snd (allow mem_redis sample_config t u (gr_reference ?g) sample_store))"
    if "0 \<le> t" "t < 86400000" for t u
    unfolding hashed_prepare by (rule sample_prepare [OF that]) (use allow [of t u] in \<open>simp add: prod_eq_iff\<close>)
  have prepare': "issue_prepare (hashed_env h 2 ''v'') ?g body' sample_store =
      (Inr (sample_request, sample_response), snd (allow mem_redis sample_config 2 ''v'' (gr_reference ?g) sample_store))"
    using same_request_prepare [of "hashed_env h 2 ''v''" body' sample_body] assms sample_valid prepare [of 2 "''v''"]
    by (simp add: hashed_env_def sample_env_def)
  have fresh: "find_idempotency (gr_reference ?g) ''k'' empty_db = None"
    by (simp add: find_idempotency_def lookup_by_def empty_db_def)
  obtain d1 where "issue_commit (hashed_env h 1 ''u'') ?g (Some ''k'') sample_request sample_response empty_db = (Inr sample_response, d1)"
    using sample_commit_key [OF g(1) _ fresh] by blast
  then have first: "issue (hashed_env h 1 ''u'') ?g (Some ''k'') sample_body (sample_store, empty_db)
      = (Inr sample_response, snd (allow mem_redis sample_config 1 ''u'' (gr_reference ?g) sample_store), d1)"
    by (simp add: issue_def prepare)
  have "''k'' \<noteq> []" by simp
  from first this obtain request row where req: "issue_prepare (hashed_env h 1 ''u'') ?g sample_body sample_store
      = (Inr (request, sample_response), snd (allow mem_redis sample_config 1 ''u'' (gr_reference ?g) sample_store))"
    and row: "find_idempotency (gr_reference ?g) ''k'' d1 = Some row"
      "id_requestFingerprint row = fingerprintRequest (rq_sha256 (hashed_env h 1 ''u'')) (gr_reference ?g) request"
    by (rule paid.issue_claims_key)
  from req have "request = sample_request" by (simp add: prepare)
  with row(2) have "id_requestFingerprint row = fingerprintRequest (rq_sha256 (hashed_env h 2 ''v'')) (gr_reference ?g) sample_request"
    by (simp add: hashed_env_def)
  with paid.issue_claimed [OF prepare' _ row(1)] have
    "issue (hashed_env h 2 ''v'') ?g (Some ''k'') body' (sample_store, d1)
      = (Inr sample_response, snd (allow mem_redis sample_config 2 ''v'' (gr_reference ?g) sample_store), d1)"
    by simp
  from that [OF first this row(1) [unfolded g(2)] prepare'] show ?thesis .
qed

subsection \<open>A subscriber\<close>

definition sample_uuid :: string where
  "sample_uuid = ''0f8fad5b-d9cb-469f-a165-70867728950e''"

definition sample_entitlement :: entitlement_row where
  "sample_entitlement =
     \<lparr>en_entitlementId = sample_uuid, en_receiptHash = ''r'', en_dripIntervalSeconds = 60, en_nextDripAt = 0,
      en_dripsIssued = 0, en_createdAt = 0\<rparr>"

definition sample_subscribed :: db where
  "sample_subscribed = empty_db\<lparr>entitlement := [sample_entitlement]\<rparr>"

lemma sample_subscribed_ok: "entitlements_ok sample_subscribed"
  by (simp add: entitlements_ok_def entitlements_keyed_def row_paced_def sample_subscribed_def sample_entitlement_def)

lemma sample_receipt: "validate_receipt (JStr '' r '') = Inr ''r''" "validate_receipt (JStr ''r'') = Inr ''r''"
    "utf8_encode ''r'' = ''r''"
  by code_simp+

lemma sample_registered:
  obtains r1 r2 d2 where
    "register (sample_env 0 sample_uuid) (JObj [(''receipt'', JStr '' r '')]) empty_db = (Inr r1, sample_subscribed)"
    "register (sample_env 9 ''other'') (JObj [(''receipt'', JStr ''r'')]) sample_subscribed = (Inr r2, d2)"
proof -
  have "register (sample_env 0 sample_uuid) (JObj [(''receipt'', JStr '' r '')]) empty_db =
      (Inr \<lparr>er_entitlement_id = sample_uuid, er_next_drip_at = ''1970-01-01T00:00:00.000Z''\<rparr>, sample_subscribed)"
    using sample_receipt epoch_days(1)
    by (simp add: register_def insert_entitlement_def sample_env_def sample_config_def empty_db_def lookup_by_def iso_text_def
        Let_def sample_subscribed_def sample_entitlement_def del: utf8_encode.simps)
  moreover have "register (sample_env 9 ''other'') (JObj [(''receipt'', JStr ''r'')]) sample_subscribed =
      (Inr \<lparr>er_entitlement_id = sample_uuid, er_next_drip_at = ''1970-01-01T00:00:00.000Z''\<rparr>, sample_subscribed)"
    using sample_receipt epoch_days(1)
    by (simp add: register_def insert_entitlement_def sample_env_def sample_config_def empty_db_def lookup_by_def iso_text_def
        Let_def sample_subscribed_def sample_entitlement_def del: utf8_encode.simps)
  ultimately show ?thesis by (rule that)
qed

lemma sample_uuid_valid: "is_uuid sample_uuid" "uuid_value sample_uuid = sample_uuid"
  by code_simp+

definition sample_schedule :: drip_schedule where
  "sample_schedule = \<lparr>sch_id = sample_uuid, sch_due = True, sch_nextDripAt = 0, sch_intervalSeconds = 60\<rparr>"

lemma sample_pickup:
  obtains s' d' where "pickup (sample_env 5000 ''u'') (Some sample_uuid) None sample_body (sample_store, sample_subscribed)
    = (Inr sample_response, s', d')"
proof -
  let ?sch = "\<lparr>sch_id = sample_uuid, sch_due = True, sch_nextDripAt = 0, sch_intervalSeconds = 60\<rparr>"
  have sch: "schedule 5000 (Some sample_uuid) sample_subscribed = Inr ?sch"
    using sample_uuid_valid
    by (simp add: schedule_def find_entitlement_def lookup_by_def sample_subscribed_def sample_entitlement_def)
  have commit: "fst (issue_commit (sample_env 5000 ''u'') (drip_grant 5000 ?sch) None sample_request sample_response sample_subscribed)
      = Inr sample_response"
    using sample_uuid_valid(2)
    by (simp add: issue_commit_def record_issuance_def transaction_def record_body_def Let_def drip_grant_def advance_def
        table_simps insert_issuance_def sample_subscribed_def sample_entitlement_def sample_env_def)
  have "issue (sample_env 5000 ''u'') (drip_grant 5000 ?sch) None sample_body (sample_store, sample_subscribed) =
      (Inr sample_response, snd (allow mem_redis sample_config 5000 ''u'' sample_uuid sample_store),
       snd (issue_commit (sample_env 5000 ''u'') (drip_grant 5000 ?sch) None sample_request sample_response sample_subscribed))"
    using sample_issue [of 5000 "''u''" "drip_grant 5000 ?sch" sample_store None sample_subscribed] sample_allow [of 5000 "''u''" sample_uuid]
      commit
    by (simp add: drip_grant_def sample_store_def split_beta Let_def)
  with sch show ?thesis by (intro that) (simp add: pickup_def sample_env_def)
qed

text \<open>What it leaves behind.\<close>

lemma sample_pickup_db:
  assumes "pickup (sample_env 5000 ''u'') (Some sample_uuid) None sample_body (sample_store, sample_subscribed) = (Inr sample_response, s', d')"
  shows "entitlement d' = [drip_row 5000 60 sample_entitlement]" and "length (issuance_record d') = 1"
proof -
  have only: "find_entitlement i sample_subscribed = Some row \<Longrightarrow> row = sample_entitlement" for i row
    by (simp add: find_entitlement_def lookup_by_def sample_subscribed_def split: if_splits)
  have "entitlement sample_subscribed = [sample_entitlement]" "issuance_record sample_subscribed = []"
    "en_dripIntervalSeconds sample_entitlement = 60"
    by (simp_all add: sample_subscribed_def sample_entitlement_def empty_db_def)
  moreover obtain i row where row: "find_entitlement i sample_subscribed = Some row"
    "entitlement d' = map (\<lambda>r. if r = row then drip_row 5000 (en_dripIntervalSeconds row) r else r) (entitlement sample_subscribed)"
    "length (issuance_record d') = Suc (length (issuance_record sample_subscribed))"
    using assms sample_subscribed_ok by (rule pickup_outcome) (simp_all add: sample_env_def)
  ultimately show "entitlement d' = [drip_row 5000 60 sample_entitlement]" "length (issuance_record d') = 1"
    by (simp_all add: only [OF row(1)])
qed

subsection \<open>A keyring file\<close>

definition signed_keyring :: keyring where
  "signed_keyring =
     \<lparr>current_epoch = ''7'', root_public_key_spki = ''AAAA'',
      epochs = [sample_entry\<lparr>root_sig := signKeyDocument sample_ed25519 sample_entry ()\<rparr>]\<rparr>"

definition sample_file :: string where
  "sample_file = json_stringify (keyring_json signed_keyring)"

lemma signed_keyring_ok: "keyring_ok signed_keyring"
proof -
  have "entry_ok sample_entry" using sample_keyring_ok by (simp add: keyring_ok_def sample_keyring_def)
  then have "entry_ok (sample_entry\<lparr>root_sig := signKeyDocument sample_ed25519 sample_entry ()\<rparr>)"
    by (simp add: entry_ok_def signKeyDocument_def sample_ed25519_def)
  then show ?thesis
    using sample_keyring_ok by (auto simp: keyring_ok_def sample_keyring_def signed_keyring_def)
qed

lemma keyring_values:
  "valid_utf8 ''7''" "valid_utf8 ''AAAA''" "valid_utf8 ''1970-01-01T00:00:00.000Z''" "valid_utf8 ''1970-01-02T00:00:00.000Z''" "valid_utf8 ''pem''"
  by (rule valid_utf8_all_ascii, simp add: ascii_def in_range_def)+

lemma sample_document_plain: "json_plain (published_json (publishedDocument sample_entry))"
proof -
  have "valid_utf8 ''c2ln''" by (rule valid_utf8_all_ascii, simp add: ascii_def in_range_def)
  then show ?thesis
    by (simp add: published_json_def publishedDocument_def sample_entry_def keyring_literals keyring_values)
qed

lemma sample_file_plain: "json_plain (keyring_json signed_keyring)"
  by (simp add: keyring_json_def entry_json_def signed_keyring_def sample_entry_def signKeyDocument_def
      keyring_literals keyring_values)

lemma sample_file_accepted: "accept_keyring strict_runtime sample_ed25519 sample_file = Inr signed_keyring"
proof -
  have "canonicalKeyDocument (sample_entry\<lparr>root_sig := x\<rparr>) = canonicalKeyDocument sample_entry" for x
    by (simp add: canonicalKeyDocument_def document_json_def)
  then have "keyring_signed strict_runtime sample_ed25519 signed_keyring"
    by (simp add: keyring_signed_def signed_keyring_def signKeyDocument_def) (simp add: sample_ed25519_def)
  then have "verifyKeyringSignatures strict_runtime sample_ed25519 signed_keyring = Inr ()"
    by (simp add: verifyKeyringSignatures_iff)
  with parseKeyring_keyring_json [OF signed_keyring_ok, of strict_runtime] sample_file_plain show ?thesis
    by (simp add: accept_keyring_def sample_file_def)
qed

lemma sample_garbage: "accept_keyring strict_runtime sample_ed25519 ''garbage'' = Inl (Error ''Unexpected token'')"
proof -
  have "json_parse ''garbage'' = None" by code_simp
  then show ?thesis by (simp add: accept_keyring_def strict_runtime_def)
qed

end
