(* ===== verification/PropertiesWire.thy ===== *)
theory PropertiesWire
  imports Samples
begin

text \<open>
  The properties of the wire formats and of what is read at the edge: base64, JSON, PEM, dates, decimal
  amounts, configuration, request bodies and keyrings. Each rests on the lemmas of its component.
\<close>

text \<open>C20. A blank is accepted as base64 exactly when it is the canonical encoding of a non-empty byte
  string, and it decodes to those bytes: no second spelling of the same bytes is let through.\<close>

theorem strict_base64_exact:
  "decodeStrictBase64 rt v = Some bs \<longleftrightarrow> v = JStr (bytesToBase64 bs) \<and> bs \<noteq> []"
  by (rule decodeStrictBase64_iff)

text \<open>C21. A request body is accepted exactly when it names a non-empty epoch and holds the configured
  number of blanks, each the canonical base64 of exactly the configured number of bytes; the request then
  carries those strings unchanged.\<close>

theorem bundle_request_exact:
  assumes "0 < blankSizeBytes config"
  shows "validateBundleRequest rt body config = Inr req \<longleftrightarrow>
    (\<exists>bss. is_object body \<and> get_prop body ''epoch'' = JStr (req_epoch req) \<and> req_epoch req \<noteq> []
       \<and> length bss = bundleSize config \<and> (\<forall>bs \<in> set bss. length bs = blankSizeBytes config)
       \<and> blinded_blanks req = map bytesToBase64 bss
       \<and> get_prop body ''blinded_blanks'' = JArr (map JStr (blinded_blanks req)))"
    (is "?accepted \<longleftrightarrow> ?shape")
proof
  assume ?accepted
  then obtain vs where v: "get_prop body ''epoch'' = JStr (req_epoch req)" "req_epoch req \<noteq> []"
      "get_prop body ''blinded_blanks'' = JArr vs" "length vs = bundleSize config"
      "check_blanks rt config 0 vs = Inr (blinded_blanks req)" "is_object body"
    by (rule validateBundleRequest_Inr)
  with check_blanks_Inr_iff [OF assms] show ?shape by fastforce
next
  assume ?shape
  then obtain bss where b: "is_object body" "get_prop body ''epoch'' = JStr (req_epoch req)" "req_epoch req \<noteq> []"
      "length bss = bundleSize config" "\<forall>bs \<in> set bss. length bs = blankSizeBytes config"
      "blinded_blanks req = map bytesToBase64 bss"
      "get_prop body ''blinded_blanks'' = JArr (map JStr (blinded_blanks req))"
    by blast
  then have "check_blanks rt config 0 (map JStr (blinded_blanks req)) = Inr (blinded_blanks req)"
    using check_blanks_Inr_iff [OF assms] by blast
  with b show ?accepted by (simp add: validateBundleRequest_def)
qed

theorem bundle_request_exact_witness:
  "0 < blankSizeBytes sample_config
   \<and> (\<exists>bss. length bss = 2 \<and> (\<forall>bs \<in> set bss. length bs = 3) \<and> blinded_blanks sample_request = map bytesToBase64 bss)"
  using bundle_request_exact [of sample_config strict_runtime sample_body sample_request] sample_valid
  by (simp add: sample_config_def) blast

text \<open>C22. Two amounts are equal for the price check exactly when both are decimal numerals with at most 18
  fraction digits and denote the same rational number.\<close>

theorem decimal_equality_exact:
  "decimalEquals l r \<longleftrightarrow>
     isDecimal l \<and> isDecimal r \<and> fraction_digits l \<le> 18 \<and> fraction_digits r \<le> 18
     \<and> decimal_value l = decimal_value r"
  by (rule decimalEquals_value)

text \<open>A JSON value written into a header as base64url is read back unchanged.\<close>

theorem header_roundtrip:
  assumes "json_plain v"
  shows "json_parse (utf8_decode rt (base64ToBytes rt (bytesToBase64url (utf8_encode (json_stringify v))))) = Some v"
  using assms by (simp add: utf8_decode_def)

theorem header_roundtrip_witness:
  "json_parse (utf8_decode strict_runtime (base64ToBytes strict_runtime
     (bytesToBase64url (utf8_encode (json_stringify (claim_json ''ref'' ''1.00'' ''route'')))))) =
   Some (claim_json ''ref'' ''1.00'' ''route'')"
  by (rule header_roundtrip) (simp add: claim_json_def valid_utf8_all_ascii ascii_def in_range_def)

text \<open>Every instant a date can hold is printed, and read back as the same instant.\<close>

theorem date_roundtrip:
  assumes "\<bar>t\<bar> \<le> maxTime"
  shows "\<exists>s. toISOString t = Some s \<and> date_parse rt s = Some t"
  using assms toISOString_range date_parse_toISOString by blast

theorem date_roundtrip_witness:
  "\<bar>86400000\<bar> \<le> maxTime \<and> (\<exists>s. toISOString 86400000 = Some s \<and> date_parse strict_runtime s = Some 86400000)"
  using date_roundtrip [of 86400000 strict_runtime] by (simp add: maxTime_def)

text \<open>A private or public key written as PEM is read back to the same DER bytes.\<close>

theorem pem_read_back:
  "pkcs8PemToDer rt (derToPkcs8Pem der) = Inr der \<and> spkiPemToDer rt (derToSpkiPem der) = Inr der"
  by (simp add: pkcs8_roundtrip spki_roundtrip)

text \<open>C25. The parser accepts the JSON of a keyring exactly when the keyring is well formed (non-empty and
  distinct epoch ids that include the current one, the signing suite, ordered ISO instants, strict base64
  keys), and then returns that keyring.\<close>

theorem keyring_parse_exact:
  "parseKeyring rt (keyring_json k) = Inr k \<longleftrightarrow> keyring_ok k"
  using parseKeyring_Inr parseKeyring_keyring_json by blast

text \<open>The bytes the root key signs determine every published field of a key document.\<close>

theorem signed_document_binding:
  fixes d e :: key_document
  assumes "document_text d" and "document_text e"
  shows "canonicalKeyDocument d = canonicalKeyDocument e \<longleftrightarrow> d = e"
  by (rule canonicalKeyDocument_inj [OF assms])

definition sample_document :: "string \<Rightarrow> key_document" where
  "sample_document until =
     \<lparr>epoch_id = ''7'', not_before = ''1970-01-01T00:00:00.000Z'', not_after = until,
      alg = BLIND_SIGNATURE_SUITE, pubkey = ''AAAA''\<rparr>"

lemma sample_document_text: "list_all ascii until \<Longrightarrow> document_text (sample_document until)"
  by (simp add: document_text_def sample_document_def BLIND_SIGNATURE_SUITE_def valid_utf8_all_ascii ascii_def in_range_def)

theorem signed_document_binding_witness:
  "canonicalKeyDocument (sample_document ''1970-01-02T00:00:00.000Z'')
     \<noteq> canonicalKeyDocument (sample_document ''2970-01-02T00:00:00.000Z'')"
  using signed_document_binding [of "sample_document ''1970-01-02T00:00:00.000Z''" "sample_document ''2970-01-02T00:00:00.000Z''"]
  by (simp add: sample_document_text ascii_def in_range_def) (simp add: sample_document_def)

text \<open>In a well-formed keyring an epoch is usable at an instant exactly when it is one of the entries
  and the instant lies in its validity window, the start included and the end excluded.\<close>

theorem usable_window:
  assumes "keyring_ok k"
  shows "usableEpoch rt k i now = Some e \<longleftrightarrow>
    e \<in> set (epochs k) \<and> epoch_id e = i
    \<and> (\<exists>from until. toISOString from = Some (not_before e) \<and> toISOString until = Some (not_after e)
                    \<and> from \<le> now \<and> now < until)"
  by (rule usableEpoch_iff [OF assms])

theorem usable_window_witness:
  "usableEpoch strict_runtime sample_keyring ''7'' 0 = Some sample_entry"
proof -
  have "toISOString 0 = Some (not_before sample_entry)" "toISOString 86400000 = Some (not_after sample_entry)"
    by (simp_all only: epoch_days sample_entry_def key_document.simps)
  then show ?thesis
    unfolding usable_window [OF sample_keyring_ok]
    by (intro conjI exI [of _ 0] exI [of _ 86400000]) (simp_all add: sample_keyring_def, simp add: sample_entry_def)
qed

text \<open>A configuration that loads has every size, limit, period and timeout at least one.\<close>

theorem config_positive:
  assumes "loadIssuerConfig rt env = Inr cfg"
  shows "config_ok cfg"
  by (rule loadIssuerConfig_positive [OF assms])

theorem config_positive_witness: "\<exists>cfg. loadIssuerConfig strict_runtime Map.empty = Inr cfg \<and> config_ok cfg"
  using config_positive [OF loadIssuerConfig_defaults [of strict_runtime]] loadIssuerConfig_defaults [of strict_runtime]
  by blast

end
