(* ===== verification/PropertiesIssuer.thy ===== *)
theory PropertiesIssuer
  imports Samples
begin

text \<open>
  The properties of the issuer's services: admission of a claim, issuance and replay, the fiat rail,
  accounting, the rate limiter, the loaded keyring and signing.
\<close>

subsection \<open>The paid rail\<close>

text \<open>C1. A purchase that returns a bundle carried a claim whose signature verifies under the proxy's key over
  exactly its reference, amount and route, and whose amount is the bundle price as a number.\<close>

theorem purchase_requires_payment:
  assumes "purchase env cenv header key body (s, d) = (Inr resp, s', d')" and "ce_proxyKey cenv = Some pk"
  shows "\<exists>claim amt route sig.
    parsePaymentClaim (rq_rt env) header = Inr claim
    \<and> amount claim = JStr amt \<and> route_id claim = JStr route \<and> proxy_sig claim = JStr sig
    \<and> ed_verify (ce_ed25519 cenv) pk (base64ToBytes (rq_rt env) sig) (canonicalClaimPayload (payment_ref claim) amt route)
    \<and> decimal_value amt = decimal_value (bundlePrice (rq_config env))"
  using assms by (elim purchase_Inr) (auto simp: verify_claim_Inr decimalEquals_value)

theorem purchase_requires_payment_witness:
  "\<exists>s' d'. purchase (sample_env 1000 ''u'') sample_claim_env (Some (sample_header ''1.0'')) None sample_body
       (sample_store, empty_db) = (Inr sample_response, s', d')
     \<and> (\<exists>claim amt. parsePaymentClaim strict_runtime (Some (sample_header ''1.0'')) = Inr claim \<and> amount claim = JStr amt
          \<and> decimal_value amt = decimal_value ''1.00'')"
proof -
  obtain s' d' where run: "purchase (sample_env 1000 ''u'') sample_claim_env (Some (sample_header ''1.0'')) None sample_body
      (sample_store, empty_db) = (Inr sample_response, s', d')"
    using sample_purchase [of 1000 "''u''" empty_db] by auto
  with purchase_requires_payment [OF run, of "()"] show ?thesis
    by (auto simp: sample_claim_env_def sample_env_def sample_config_def)
qed

text \<open>C16. A refused claim answers CLAIM_INVALID, and its only trace in the database is one more tick on the
  counter of one reason.\<close>

theorem refusal_counted_once:
  assumes "admit rt config cenv now header d = (Inl e, d')" and "ce_proxyKey cenv \<noteq> None" and "ce_stored cenv"
  shows "\<exists>reason message. e = IssuerException CLAIM_INVALID message
    \<and> (\<forall>r. countFor r d' = countFor r d + (if r = reason then 1 else 0))
    \<and> d'\<lparr>claim_rejection := claim_rejection d\<rparr> = d"
  using assms(1,2)
  by (elim admit_Inl) (use assms(3) in \<open>auto simp: countFor_record\<close>, simp add: record_rejection_def)

theorem refusal_counted_once_witness:
  "countFor missing (snd (admit strict_runtime sample_config sample_claim_env 5 None empty_db)) = 1
   \<and> (\<exists>reason message. IssuerException CLAIM_INVALID ''missing payment claim'' = IssuerException CLAIM_INVALID message
     \<and> (\<forall>r. countFor r (snd (admit strict_runtime sample_config sample_claim_env 5 None empty_db))
            = countFor r empty_db + (if r = reason then 1 else 0)))"
proof -
  have run: "admit strict_runtime sample_config sample_claim_env 5 None empty_db =
      (Inl (IssuerException CLAIM_INVALID ''missing payment claim''), record_rejection True 5 missing empty_db)"
    by (simp add: admit_def parsePaymentClaim_def sample_claim_env_def Let_def)
  from refusal_counted_once [OF run] show ?thesis
    unfolding run by (auto simp: sample_claim_env_def countFor_record) (simp add: countFor_def empty_db_def lookup_by_def)
qed

text \<open>C17. Whoever cannot sign for the proxy learns nothing about the price: the answer to a claim whose
  signature does not verify is the same under every price.\<close>

theorem price_hidden:
  assumes "parsePaymentClaim rt header = Inr claim" and "ce_proxyKey cenv = Some pk"
    and "\<not> ed_verify (ce_ed25519 cenv) pk (base64ToBytes rt (js_string (proxy_sig claim)))
      (canonicalClaimPayload (payment_ref claim) (js_string (amount claim)) (js_string (route_id claim)))"
  shows "admit rt (config\<lparr>bundlePrice := p\<rparr>) cenv now header d = admit rt config cenv now header d"
  using assms verify_claim_price_blind [OF assms(3)] by (simp add: admit_def)

definition forged_header :: string where
  "forged_header = bytesToBase64url (utf8_encode (json_stringify (JObj
     [(''payment_ref'', JStr ''ref''), (''amount'', JStr ''1.0''), (''route_id'', JStr ''route''), (''proxy_sig'', JStr ''AAAA'')])))"

theorem price_hidden_witness:
  "admit strict_runtime (sample_config\<lparr>bundlePrice := ''1.0''\<rparr>) sample_claim_env 5 (Some forged_header) empty_db
   = admit strict_runtime sample_config sample_claim_env 5 (Some forged_header) empty_db"
proof (rule price_hidden)
  show "parsePaymentClaim strict_runtime (Some forged_header) =
      Inr \<lparr>payment_ref = ''ref'', amount = JStr ''1.0'', route_id = JStr ''route'', proxy_sig = JStr ''AAAA''\<rparr>"
    unfolding forged_header_def
    by (subst parsePaymentClaim_encoded [where ref = "''ref''"]) (simp_all add: sample_literals valid_utf8_all_ascii ascii_def in_range_def)
  show "ce_proxyKey sample_claim_env = Some ()" by (simp add: sample_claim_env_def)
  have "base64ToBytes strict_runtime ''AAAA'' = [CHR 0x00, CHR 0x00, CHR 0x00]" by code_simp
  then show "\<not> ed_verify (ce_ed25519 sample_claim_env) () (base64ToBytes strict_runtime
       (js_string (proxy_sig \<lparr>payment_ref = ''ref'', amount = JStr ''1.0'', route_id = JStr ''route'', proxy_sig = JStr ''AAAA''\<rparr>)))
     (canonicalClaimPayload (payment_ref \<lparr>payment_ref = ''ref'', amount = JStr ''1.0'', route_id = JStr ''route'', proxy_sig = JStr ''AAAA''\<rparr>)
       (js_string (amount \<lparr>payment_ref = ''ref'', amount = JStr ''1.0'', route_id = JStr ''route'', proxy_sig = JStr ''AAAA''\<rparr>))
       (js_string (route_id \<lparr>payment_ref = ''ref'', amount = JStr ''1.0'', route_id = JStr ''route'', proxy_sig = JStr ''AAAA''\<rparr>)))"
    by (simp add: sample_claim_env_def sample_ed25519_def)
qed

subsection \<open>Issuance\<close>

text \<open>C5. A request is recorded whole or not at all. A purchase leaves every table but the rejection counters as they were,
  or it returns its bundle and entered the ledger row, the counters and the idempotency key of that bundle; a claim that
  was admitted and then failed left nothing at all. A pickup left nothing, or all of that and the advanced schedule.
  And a transaction that fails leaves whatever state of the database it found, however much of it had been written.\<close>

theorem request_all_or_nothing:
  "(purchase env cenv header key body (s, d) = (r, s', d') \<longrightarrow>
      (d'\<lparr>claim_rejection := claim_rejection d\<rparr> = d
         \<and> (\<forall>claim. fst (admit (rq_rt env) (rq_config env) cenv (rq_queryNow env) header d) = Inr claim \<longrightarrow> d' = d))
      \<or> (\<exists>claim request resp. r = Inr resp \<and> parsePaymentClaim (rq_rt env) header = Inr claim
            \<and> validateBundleRequest (rq_rt env) body (rq_config env) = Inr request
            \<and> whole_record env (payment_ref claim) key request resp d d'
            \<and> claim_rejection d' = claim_rejection d \<and> entitlement d' = entitlement d))
   \<and> (pickup env entitlementId key body (s, d) = (r, s', d') \<longrightarrow>
      d' = d
      \<or> (\<exists>i interval request resp. r = Inr resp \<and> entitlementId = Some i
            \<and> validateBundleRequest (rq_rt env) body (rq_config env) = Inr request
            \<and> whole_record env i key request resp d d' \<and> claim_rejection d' = claim_rejection d
            \<and> entitlement d' = map (\<lambda>row. if en_entitlementId row = uuid_value i \<and> en_nextDripAt row \<le> rq_dbNow env
                 then row\<lparr>en_nextDripAt := rq_dbNow env + interval * 1000, en_dripsIssued := en_dripsIssued row + 1\<rparr> else row) (entitlement d)))
   \<and> (issue_commit env g key q response d = (Inl e, d') \<longrightarrow> d' = d)"
proof (intro conjI impI)
  assume "purchase env cenv header key body (s, d) = (r, s', d')"
  then show "(d'\<lparr>claim_rejection := claim_rejection d\<rparr> = d
         \<and> (\<forall>claim. fst (admit (rq_rt env) (rq_config env) cenv (rq_queryNow env) header d) = Inr claim \<longrightarrow> d' = d))
      \<or> (\<exists>claim request resp. r = Inr resp \<and> parsePaymentClaim (rq_rt env) header = Inr claim
            \<and> validateBundleRequest (rq_rt env) body (rq_config env) = Inr request
            \<and> whole_record env (payment_ref claim) key request resp d d'
            \<and> claim_rejection d' = claim_rejection d \<and> entitlement d' = entitlement d)"
    by (rule purchase_whole) blast+
next
  assume "pickup env entitlementId key body (s, d) = (r, s', d')"
  then show "d' = d
      \<or> (\<exists>i interval request resp. r = Inr resp \<and> entitlementId = Some i
            \<and> validateBundleRequest (rq_rt env) body (rq_config env) = Inr request
            \<and> whole_record env i key request resp d d' \<and> claim_rejection d' = claim_rejection d
            \<and> entitlement d' = map (\<lambda>row. if en_entitlementId row = uuid_value i \<and> en_nextDripAt row \<le> rq_dbNow env
                 then row\<lparr>en_nextDripAt := rq_dbNow env + interval * 1000, en_dripsIssued := en_dripsIssued row + 1\<rparr> else row) (entitlement d))"
    by (rule pickup_whole) (auto simp: drip_row_def)
qed (rule issue_commit_Inl)

text \<open>Two pickups of one drip, both prepared while it was due. The second transaction writes the row and the counters,
  finds the drip taken and leaves what the first one left.\<close>

theorem request_all_or_nothing_witness:
  "\<exists>s' d'. pickup (sample_env 5000 ''u'') (Some sample_uuid) None sample_body (sample_store, sample_subscribed) = (Inr sample_response, s', d')
     \<and> length (issuance_record d') = 1
     \<and> issue_commit (sample_env 6000 ''v'') (drip_grant 6000 sample_schedule) None sample_request sample_response d' =
         (Inl (IssuerException NOT_DUE ''next drip was already picked up''), d')
     \<and> (\<exists>d2. record_body 6000 sample_config (sample_grant\<lparr>gr_reference := sample_uuid\<rparr>) sample_request sample_response None d' = Inr ((), d2)
          \<and> length (issuance_record d2) = 2)"
proof -
  obtain s' d' where p: "pickup (sample_env 5000 ''u'') (Some sample_uuid) None sample_body (sample_store, sample_subscribed)
      = (Inr sample_response, s', d')"
    by (rule sample_pickup)
  have ent: "entitlement d' = [drip_row 5000 60 sample_entitlement]" and led: "length (issuance_record d') = 1"
    using sample_pickup_db [OF p] by simp_all
  obtain d3 where lost: "issue_commit (sample_env 6000 ''v'') (drip_grant 6000 sample_schedule) None sample_request sample_response d' =
      (Inl (IssuerException NOT_DUE ''next drip was already picked up''), d3)"
    using sample_uuid_valid(2)
    by (simp add: issue_commit_def record_issuance_def transaction_def record_body_def Let_def drip_grant_def advance_def
        table_simps insert_issuance_def ent drip_row_def sample_entitlement_def sample_env_def sample_schedule_def)
  with request_all_or_nothing [where env = "sample_env 6000 ''v''" and g = "drip_grant 6000 sample_schedule" and key = None
      and q = sample_request and response = sample_response and d = d' and d' = d3] have "d3 = d'" by blast
  with p led lost show ?thesis
    by (auto simp: record_body_def Let_def table_simps insert_issuance_def sample_grant_def)
qed

text \<open>C6. Every signature of a returned bundle is the signer's answer to one blank of the request, in order,
  as many as a bundle has, under an epoch whose entry is in the loaded keyring and usable at that moment.\<close>

theorem issue_signs_usable_epoch:
  assumes "issue env g key body (s, d) = (Inr resp, s', d')"
  shows "\<exists>request k e. validateBundleRequest (rq_rt env) body (rq_config env) = Inr request
    \<and> ks_keyring (rq_keys env) = Some k \<and> usableEpoch (rq_rt env) k (resp_epoch resp) (rq_signNow env) = Some e
    \<and> resp_epoch resp = req_epoch request
    \<and> map (rq_pool_sign env (resp_epoch resp)) (blinded_blanks request) = map Inr (blind_signatures resp)
    \<and> length (blind_signatures resp) = bundleSize (rq_config env)"
proof -
  from assms obtain request where p: "issue_prepare env g body s = (Inr (request, resp), s')"
    by (rule issue_success)
  from p obtain e where v: "validateBundleRequest (rq_rt env) body (rq_config env) = Inr request"
    and u: "keys_usable (rq_rt env) (rq_keys env) (req_epoch request) (rq_signNow env) = Inr (Some e)"
    and b: "signBundle (rq_settles env) (rq_pool_sign env) request = Inr resp"
    by (rule issue_prepare_Inr)
  from u obtain k where "ks_keyring (rq_keys env) = Some k"
    "usableEpoch (rq_rt env) k (req_epoch request) (rq_signNow env) = Some e"
    by (auto simp: keys_usable_def require_keyring_def split: option.splits)
  with v signBundle_Inr [OF b] issue_prepare_count [OF p] show ?thesis by auto
qed

theorem issue_signs_usable_epoch_witness:
  "\<exists>k e. usableEpoch strict_runtime k (resp_epoch sample_response) 1000 = Some e
     \<and> length (blind_signatures sample_response) = bundleSize sample_config"
proof -
  obtain s' d' where run: "issue (sample_env 1000 ''u'') sample_grant None sample_body (sample_store, empty_db) = (Inr sample_response, s', d')"
    using sample_issue_ok [of 1000 sample_grant "''u''" empty_db] by (auto simp: sample_grant_def)
  from issue_signs_usable_epoch [OF run] show ?thesis by (auto simp: sample_env_def)
qed

text \<open>C2. However often a request is repeated under one reference and idempotency key, whatever bodies the
  attempts carry, the database changes at most once and then by exactly one ledger row.\<close>

theorem retries_issue_once:
  assumes "retry (paid_grant claim) k attempts (s, d) = (rs, s', d')" and "k \<noteq> []"
  shows "d' = d \<or> length (issuance_record d') = Suc (length (issuance_record d))"
  by (rule paid.retry_once [OF assms])

theorem retries_issue_once_witness:
  "\<exists>rs s' d'. retry (paid_grant (sample_claim ''1.0'')) ''k'' [(sample_env 1 ''u'', sample_body), (sample_env 2 ''v'', JNull)]
      (sample_store, empty_db) = (rs, s', d')
    \<and> (d' = empty_db \<or> length (issuance_record d') = 1)"
proof -
  obtain rs s' d' where run: "retry (paid_grant (sample_claim ''1.0'')) ''k'' [(sample_env 1 ''u'', sample_body), (sample_env 2 ''v'', JNull)]
      (sample_store, empty_db) = (rs, s', d')"
    by (metis prod_cases3)
  with retries_issue_once [OF run] show ?thesis by (auto simp: empty_db_def)
qed

text \<open>C8. A second success under the same reference and key returns the bundle of the first, byte for byte,
  and writes nothing, provided the hash does not collide on the two requests compared and the signer is deterministic.\<close>

theorem replay_returns_original:
  assumes first: "issue env1 (paid_grant claim) (Some k) body1 (s1, d1) = (Inr r1, s1', d1')" and "k \<noteq> []"
    and second: "issue env2 (paid_grant claim) (Some k) body2 (s2, d2) = (Inr r2, s2', d2')"
    and kept: "find_idempotency (payment_ref claim) k d2 = find_idempotency (payment_ref claim) k d1'"
    and same: "rq_sha256 env2 = rq_sha256 env1" "rq_pool_sign env2 = rq_pool_sign env1" "rq_config env2 = rq_config env1"
    and v1: "validateBundleRequest (rq_rt env1) body1 (rq_config env1) = Inr q1"
    and v2: "validateBundleRequest (rq_rt env2) body2 (rq_config env2) = Inr q2"
    and sha: "inj_on (rq_sha256 env1) {fingerprint_input (payment_ref claim) q1, fingerprint_input (payment_ref claim) q2}" and size: "0 < blankSizeBytes (rq_config env1)"
    and utf8: "valid_utf8 (resp_epoch r1)" "valid_utf8 (resp_epoch r2)"
  shows "r2 = r1 \<and> d2' = d2"
proof -
  note g = paid_grant_def [of claim]
  from first \<open>k \<noteq> []\<close> obtain p row1 where "issue_prepare env1 (paid_grant claim) body1 s1 = (Inr (p, r1), s1')"
    and row1: "find_idempotency (payment_ref claim) k d1' = Some row1"
      "id_requestFingerprint row1 = fingerprintRequest (rq_sha256 env1) (payment_ref claim) p"
    by (rule paid.issue_claims_key) (auto simp: g)
  with v1 have p1: "issue_prepare env1 (paid_grant claim) body1 s1 = (Inr (q1, r1), s1')"
    and fp1: "id_requestFingerprint row1 = fingerprintRequest (rq_sha256 env1) (payment_ref claim) q1"
    by (auto elim!: issue_prepare_Inr)
  from second \<open>k \<noteq> []\<close> obtain p' row2 where "issue_prepare env2 (paid_grant claim) body2 s2 = (Inr (p', r2), s2')"
    and row2: "find_idempotency (payment_ref claim) k d2' = Some row2"
      "id_requestFingerprint row2 = fingerprintRequest (rq_sha256 env2) (payment_ref claim) p'"
      "d2' = d2 \<or> find_idempotency (payment_ref claim) k d2 = None"
    by (rule paid.issue_claims_key) (auto simp: g)
  with v2 have p2: "issue_prepare env2 (paid_grant claim) body2 s2 = (Inr (q2, r2), s2')"
    and fp2: "id_requestFingerprint row2 = fingerprintRequest (rq_sha256 env2) (payment_ref claim) q2"
    by (auto elim!: issue_prepare_Inr)
  from row1 row2 kept have d2: "d2' = d2" and "row1 = row2" by auto
  with fp1 fp2 same have "rq_sha256 env1 (fingerprint_input (payment_ref claim) q1) = rq_sha256 env1 (fingerprint_input (payment_ref claim) q2)"
    by (simp add: fingerprintRequest_def)
  then have inputs: "fingerprint_input (payment_ref claim) q1 = fingerprint_input (payment_ref claim) q2"
    using sha by (auto dest: inj_onD)
  from p1 obtain e1 where b1: "signBundle (rq_settles env1) (rq_pool_sign env1) q1 = Inr r1" by (rule issue_prepare_Inr)
  from p2 obtain e2 where b2: "signBundle (rq_settles env2) (rq_pool_sign env2) q2 = Inr r2" by (rule issue_prepare_Inr)
  have "q1 = q2"
    using fingerprint_input_inj [OF _ _ validated_blanks [OF v1 size] validated_blanks [OF v2] _ inputs]
      utf8 issue_prepare_count(2) [OF p1] issue_prepare_count(2) [OF p2] size same(3)
      validateBundleRequest_count [OF v1] validateBundleRequest_count [OF v2]
    by simp
  with same(2) have "signBundle (rq_settles env1) (rq_pool_sign env1) q1 = Inr r2"
    using signBundle_settles [OF b2] \<open>q1 = q2\<close> by simp
  with b1 d2 show ?thesis by simp
qed

text \<open>A retry that spells the same request with one more field, under a digest of one byte: the sum of the bytes.\<close>

definition byte_sum :: "bytes \<Rightarrow> string" where
  "byte_sum bs = [char_of (sum_list (map of_char bs) :: nat)]"

definition retried_body :: jsval where
  "retried_body = JObj [(''note'', JStr ''retry''), (''epoch'', JStr ''7''), (''blinded_blanks'', JArr [JStr ''AAAA'', JStr ''BBBB''])]"

lemma retried_valid: "validateBundleRequest strict_runtime retried_body sample_config = Inr sample_request"
  by code_simp

theorem replay_returns_original_witness:
  "\<exists>s1 d1 s2 r. issue (hashed_env byte_sum 1 ''u'') (paid_grant (sample_claim ''1.0'')) (Some ''k'') sample_body (sample_store, empty_db) = (Inr sample_response, s1, d1)
     \<and> issue (hashed_env byte_sum 2 ''v'') (paid_grant (sample_claim ''1.0'')) (Some ''k'') retried_body (sample_store, d1) = (Inr r, s2, d1)
     \<and> r = sample_response"
proof -
  obtain s1 d1 s2 row where runs:
    "issue (hashed_env byte_sum 1 ''u'') (paid_grant (sample_claim ''1.0'')) (Some ''k'') sample_body (sample_store, empty_db) = (Inr sample_response, s1, d1)"
    "issue (hashed_env byte_sum 2 ''v'') (paid_grant (sample_claim ''1.0'')) (Some ''k'') retried_body (sample_store, d1) = (Inr sample_response, s2, d1)"
    by (rule sample_replay [OF retried_valid])
  have env: "rq_rt (hashed_env byte_sum t u) = strict_runtime" "rq_config (hashed_env byte_sum t u) = sample_config"
    "rq_sha256 (hashed_env byte_sum t u) = byte_sum" "rq_pool_sign (hashed_env byte_sum t u) = (\<lambda>epoch blank. Inr blank)" for t u
    by (simp_all add: hashed_env_def sample_env_def)
  have "valid_utf8 (resp_epoch sample_response)"
    by (simp add: sample_response_def valid_utf8_all_ascii ascii_def in_range_def)
  with replay_returns_original [OF runs(1) _ runs(2), unfolded env, OF _ refl refl refl refl sample_valid retried_valid] runs show ?thesis
    by (auto simp: sample_config_def)
qed

text \<open>C18. A claimed idempotency key with a different request behind it is refused as a conflict, and nothing
  is written; with the same fingerprint the fresh signatures are returned and nothing is written.\<close>

theorem claimed_key_outcome:
  assumes "issue_prepare env (paid_grant claim) body s = (Inr (request, resp), s')" and "k \<noteq> []"
    and "find_idempotency (payment_ref claim) k d = Some row"
  shows "issue env (paid_grant claim) (Some k) body (s, d) =
    ((if id_requestFingerprint row = fingerprintRequest (rq_sha256 env) (payment_ref claim) request then Inr resp
      else Inl (IssuerException IDEMPOTENCY_CONFLICT ''idempotency key was already used for a different request'')), s', d)"
  using paid.issue_claimed [OF assms(1,2)] assms(3) by (simp add: paid_grant_def)

theorem claimed_key_outcome_witness:
  "\<exists>d row s'. find_idempotency ''ref'' ''k'' d = Some row
     \<and> issue (hashed_env byte_sum 2 ''v'') (paid_grant (sample_claim ''1.0'')) (Some ''k'') sample_body (sample_store, d) =
       ((if id_requestFingerprint row = fingerprintRequest byte_sum ''ref'' sample_request then Inr sample_response
         else Inl (IssuerException IDEMPOTENCY_CONFLICT ''idempotency key was already used for a different request'')), s', d)"
proof -
  obtain s1 d1 s2 row where row: "find_idempotency ''ref'' ''k'' d1 = Some row"
    and p: "issue_prepare (hashed_env byte_sum 2 ''v'') (paid_grant (sample_claim ''1.0'')) sample_body sample_store = (Inr (sample_request, sample_response), s2)"
    by (rule sample_replay [OF sample_valid])
  have ref: "payment_ref (sample_claim ''1.0'') = ''ref''" and sha: "rq_sha256 (hashed_env byte_sum 2 ''v'') = byte_sum"
    by (simp_all add: sample_claim_def hashed_env_def)
  from row claimed_key_outcome [OF p, of "''k''" d1 row, unfolded ref sha] show ?thesis by blast
qed

subsection \<open>The fiat rail\<close>

text \<open>C19. A pickup that returns a bundle either replayed a claimed key and wrote nothing, or took a drip that
  was due on the database's clock inside the transaction: one ledger row, one drip more on that entitlement
  and no other, and the next drip one interval after this moment.\<close>

theorem pickup_takes_due_drip:
  assumes "pickup env entitlementId key body (s, d) = (Inr resp, s', d')" and "entitlements_ok d"
  shows "(\<exists>i k. entitlementId = Some i \<and> key = Some k \<and> isReplay i k d \<and> d' = d)
    \<or> (\<exists>i row. entitlementId = Some i \<and> find_entitlement i d = Some row \<and> en_nextDripAt row \<le> rq_dbNow env
         \<and> entitlement d' = map (\<lambda>r. if r = row then r\<lparr>en_nextDripAt := rq_dbNow env + en_dripIntervalSeconds row * 1000,
                                                        en_dripsIssued := en_dripsIssued row + 1\<rparr> else r) (entitlement d)
         \<and> issuance_record d' = issuance_record d @
             [\<lparr>ir_paymentRef = i, ir_epoch = resp_epoch resp, ir_bundleCount = 1, ir_timestamp = rq_dbNow env\<rparr>])"
  using assms
proof (cases rule: pickup_outcome)
  case (issued i row)
  have "map (\<lambda>r. if r = row then drip_row (rq_dbNow env) (en_dripIntervalSeconds row) r else r) (entitlement d)
      = map (\<lambda>r. if r = row then r\<lparr>en_nextDripAt := rq_dbNow env + en_dripIntervalSeconds row * 1000,
                                    en_dripsIssued := en_dripsIssued row + 1\<rparr> else r) (entitlement d)"
    by (auto simp: drip_row_def)
  with issued show ?thesis by (intro disjI2 exI [of _ i] exI [of _ row]) simp
qed blast

theorem pickup_takes_due_drip_witness:
  "\<exists>s' d'. pickup (sample_env 5000 ''u'') (Some sample_uuid) None sample_body (sample_store, sample_subscribed) = (Inr sample_response, s', d')
     \<and> length (issuance_record d') = 1"
proof -
  obtain s' d' where run: "pickup (sample_env 5000 ''u'') (Some sample_uuid) None sample_body (sample_store, sample_subscribed)
      = (Inr sample_response, s', d')"
    by (rule sample_pickup)
  from pickup_takes_due_drip [OF run sample_subscribed_ok] show ?thesis
    using run by (auto simp: sample_subscribed_def empty_db_def)
qed

text \<open>C11. Presenting a receipt again returns the entitlement it registered the first time and writes
  nothing, whatever white space surrounds it and whatever the configured interval has become.\<close>

theorem register_idempotent:
  assumes "register env1 body1 d = (Inr r1, d1)" and "register env2 body2 d1 = (Inr r2, d2)"
    and "validate_receipt (get_prop body1 ''receipt'') = validate_receipt (get_prop body2 ''receipt'')"
    and "rq_sha256 env1 = rq_sha256 env2"
  shows "r2 = r1 \<and> d2 = d1"
proof -
  from assms(1) obtain sub row where 1: "validate_receipt (get_prop body1 ''receipt'') = Inr sub"
    "lookup_by en_receiptHash (rq_sha256 env1 (utf8_encode sub)) (entitlement d1) = Some row"
    "er_entitlement_id r1 = en_entitlementId row" "toISOString (en_nextDripAt row) = Some (er_next_drip_at r1)"
    by (rule register_Inr)
  from assms(2) obtain sub2 row2 where 2: "validate_receipt (get_prop body2 ''receipt'') = Inr sub2"
    "insert_entitlement (rq_queryNow env2) (rq_uuid env2) (rq_sha256 env2 (utf8_encode sub2))
       (int (entitlementDripIntervalSeconds (rq_config env2))) d1 = Inr d2"
    "lookup_by en_receiptHash (rq_sha256 env2 (utf8_encode sub2)) (entitlement d2) = Some row2"
    "er_entitlement_id r2 = en_entitlementId row2" "toISOString (en_nextDripAt row2) = Some (er_next_drip_at r2)"
    by (rule register_Inr)
  from 1 2 assms(3,4) have same: "sub2 = sub" by simp
  have "rq_sha256 env2 (utf8_encode sub2) \<in> set (map en_receiptHash (entitlement d1))"
    using 1(2) same assms(4) by (metis lookup_by_None option.distinct(1))
  with 2(2) have "d2 = d1" by (simp add: insert_entitlement_def)
  with 1 2 same assms(4) show ?thesis by simp
qed

theorem register_idempotent_witness:
  "\<exists>r d1. register (sample_env 0 sample_uuid) (JObj [(''receipt'', JStr '' r '')]) empty_db = (Inr r, d1)
     \<and> register (sample_env 9 ''other'') (JObj [(''receipt'', JStr ''r'')]) d1 = (Inr r, d1)"
proof -
  obtain r1 r2 d2 where runs: "register (sample_env 0 sample_uuid) (JObj [(''receipt'', JStr '' r '')]) empty_db = (Inr r1, sample_subscribed)"
    "register (sample_env 9 ''other'') (JObj [(''receipt'', JStr ''r'')]) sample_subscribed = (Inr r2, d2)"
    by (rule sample_registered)
  have "validate_receipt (get_prop (JObj [(''receipt'', JStr '' r '')]) ''receipt'')
      = validate_receipt (get_prop (JObj [(''receipt'', JStr ''r'')]) ''receipt'')"
    by code_simp
  with register_idempotent [OF runs] have "r2 = r1 \<and> d2 = sample_subscribed" by (simp add: sample_env_def)
  with runs show ?thesis by auto
qed

end
