(* ===== verification/Polyfill.thy ===== *)
theory Polyfill
  imports Signing
begin

text \<open>
  The global patch of \<open>rsa-raw.ts\<close>: how a realm without \<open>RSA-RAW\<close> gets it. A realm is its \<open>crypto.subtle\<close> (two
  methods, over keys \<open>'k\<close> of the platform) and the module's flag \<open>installed\<close>. The patched methods answer for
  \<open>RSA-RAW\<close> themselves, with keys that only hold their PKCS#8 bytes, and hand everything else to the methods they
  found. What the platform says when it is given one of those keys is up to the platform; what OpenSSL says without a key is
  \<open>no_pkcs8\<close>.
\<close>

text \<open>The algorithm argument: a name, or an object with or without one.\<close>

datatype algorithm = AlgName string | AlgObject "string option" jsval

definition RSA_RAW :: string where "RSA_RAW = ''RSA-RAW''"

text \<open>\<open>algorithm?.name\<close>: a string has no property \<open>name\<close>.\<close>

fun object_name :: "algorithm \<Rightarrow> string option" where
  "object_name (AlgName _) = None"
| "object_name (AlgObject n _) = n"

fun algorithm_name :: "algorithm \<Rightarrow> string option" where
  "algorithm_name (AlgName n) = Some n"
| "algorithm_name (AlgObject n _) = n"

text \<open>A buffer, or a view of a part of one.\<close>

datatype buffer = Whole bytes | View bytes nat nat

fun toBuffer :: "buffer \<Rightarrow> bytes" where
  "toBuffer (View bytes offset len) = take len (drop offset bytes)"
| "toBuffer (Whole bytes) = bytes"

record import_request =
  ir_format :: string
  ir_data :: buffer
  ir_algorithm :: algorithm
  ir_extractable :: bool
  ir_usages :: "string list"

datatype 'k crypto_key =
    PlatformKey 'k
  | RawKey algorithm bool "string list" bytes

record 'k subtle =
  importKey :: "import_request \<Rightarrow> string + 'k crypto_key"
  subtle_sign :: "algorithm \<Rightarrow> 'k crypto_key \<Rightarrow> buffer \<Rightarrow> string + bytes"

record 'k realm =
  installed :: bool
  subtle :: "'k subtle"

definition rsaRawIsNative :: "'k realm \<Rightarrow> bytes \<Rightarrow> bool" where
  "rsaRawIsNative r pkcs8 =
     (case importKey (subtle r) \<lparr>ir_format = ''pkcs8'', ir_data = Whole pkcs8,
        ir_algorithm = AlgObject (Some RSA_RAW) (JStr ''SHA-384''), ir_extractable = True, ir_usages = [''sign'']\<rparr> of
        Inl _ \<Rightarrow> False | Inr _ \<Rightarrow> True)"

fun raw_pkcs8 :: "'k crypto_key \<Rightarrow> bytes option" where
  "raw_pkcs8 (RawKey _ _ _ pkcs8) = Some pkcs8"
| "raw_pkcs8 (PlatformKey _) = None"

definition patched :: "runtime \<Rightarrow> ('sk, 'pk) openssl \<Rightarrow> string \<Rightarrow> 'k subtle \<Rightarrow> 'k subtle" where
  "patched rt C no_pkcs8 real =
     \<lparr>importKey = (\<lambda>q.
        if object_name (ir_algorithm q) \<noteq> Some RSA_RAW then importKey real q
        else Inr (RawKey (ir_algorithm q) (ir_extractable q) (ir_usages q) (toBuffer (ir_data q)))),
      subtle_sign = (\<lambda>a key data.
        if algorithm_name a \<noteq> Some RSA_RAW then subtle_sign real a key data
        else (case raw_pkcs8 key of
                None \<Rightarrow> Inl no_pkcs8
              | Some pkcs8 \<Rightarrow> rawSign rt C pkcs8 (toBuffer data)))\<rparr>"

definition installRsaRawSupport :: "runtime \<Rightarrow> ('sk, 'pk) openssl \<Rightarrow> string \<Rightarrow> 'k realm \<Rightarrow> 'k realm" where
  "installRsaRawSupport rt C no_pkcs8 r =
     (if installed r then r else r\<lparr>installed := True, subtle := patched rt C no_pkcs8 (subtle r)\<rparr>)"

text \<open>The first step of \<open>selectSigningSuite\<close> with the fast path enabled, once per call.\<close>

definition prepare_realm :: "runtime \<Rightarrow> ('sk, 'pk) openssl \<Rightarrow> string \<Rightarrow> known_answer \<Rightarrow> 'k realm \<Rightarrow> 'k realm" where
  "prepare_realm rt C no_pkcs8 ka r =
     (if rsaRawIsNative r (hex_bytes (privateKeyPkcs8Hex ka)) then r else installRsaRawSupport rt C no_pkcs8 r)"

lemma prepare_once:
  assumes "\<not> installed r"
  shows "(prepare_realm rt C no_pkcs8 ka ^^ Suc n) r = prepare_realm rt C no_pkcs8 ka r"
proof (induction n)
  case (Suc n)
  have "prepare_realm rt C no_pkcs8 ka (prepare_realm rt C no_pkcs8 ka r) = prepare_realm rt C no_pkcs8 ka r"
    using assms by (simp add: prepare_realm_def installRsaRawSupport_def)
  with Suc show ?case by simp
qed simp

lemma prepared_native:
  "rsaRawIsNative r (hex_bytes (privateKeyPkcs8Hex ka)) \<Longrightarrow> prepare_realm rt C no_pkcs8 ka r = r"
  by (simp add: prepare_realm_def)

lemma prepared_patched:
  assumes "\<not> installed r" and "\<not> rsaRawIsNative r (hex_bytes (privateKeyPkcs8Hex ka))"
  shows "subtle (prepare_realm rt C no_pkcs8 ka r) = patched rt C no_pkcs8 (subtle r)"
  using assms by (simp add: prepare_realm_def installRsaRawSupport_def)

text \<open>What a realm can do after any number of preparations: every other algorithm as before, \<open>RSA-RAW\<close> by \<open>rawSign\<close>.\<close>

lemma prepared_realm:
  assumes "\<not> installed r" and "\<not> rsaRawIsNative r (hex_bytes (privateKeyPkcs8Hex ka))"
    and "r' = (prepare_realm rt C no_pkcs8 ka ^^ Suc n) r"
  shows "object_name (ir_algorithm q) \<noteq> Some RSA_RAW \<Longrightarrow> importKey (subtle r') q = importKey (subtle r) q"
    and "algorithm_name a \<noteq> Some RSA_RAW \<Longrightarrow> subtle_sign (subtle r') a key data = subtle_sign (subtle r) a key data"
    and "object_name (ir_algorithm q) = Some RSA_RAW \<Longrightarrow> algorithm_name a = Some RSA_RAW \<Longrightarrow>
      Option.bind (case importKey (subtle r') q of Inl _ \<Rightarrow> None | Inr k \<Rightarrow> Some k) (\<lambda>k. Some (subtle_sign (subtle r') a k data)) =
        Some (rawSign rt C (toBuffer (ir_data q)) (toBuffer data))"
  unfolding assms(3) prepare_once [OF assms(1)] prepared_patched [OF assms(1,2)] by (simp_all add: patched_def)

end
