(* ===== verification/Scheduler.thy ===== *)
theory Scheduler
  imports KeysService Accounting
begin

text \<open>
  \<open>accounting/reconciliation.processor.ts\<close>: the job that runs a reconciliation cycle, and the schedule every replica
  registers at its start. BullMQ is a parameter: what is relied on is that upserting a scheduler replaces the one of the
  same id and no other.
\<close>

definition SCHEDULER_ID :: string where "SCHEDULER_ID = ''reconciliation-cycle''"

record scheduled_job =
  sj_every :: int  \<comment> \<open>milliseconds\<close>
  sj_name :: string

definition cycle_job :: "issuer_config \<Rightarrow> scheduled_job" where
  "cycle_job config = \<lparr>sj_every = int (reconciliationIntervalSeconds config) * 1000, sj_name = ''cycle''\<rparr>"

definition scheduler_init :: "(string \<Rightarrow> scheduled_job \<Rightarrow> 'q \<Rightarrow> 'q) \<Rightarrow> issuer_config \<Rightarrow> 'q \<Rightarrow> 'q" where
  "scheduler_init put config q = put SCHEDULER_ID (cycle_job config) q"

definition processor_process :: "millis \<Rightarrow> db \<Rightarrow> db \<Rightarrow> db \<Rightarrow> log_line list \<times> db" where
  "processor_process now ledgerDb countersDb d =
     (case reconcile now ledgerDb countersDb d of
        (results, d') \<Rightarrow>
          (let raised = filter (\<lambda>r. rc_alarms r \<noteq> []) results in
           ([LogInfo (''reconciled '' @ show_nat (length results) @ '' epoch(s), '' @ show_nat (length raised) @ '' with divergence'')], d')))"

text \<open>Starts of replicas, in any order and number, leave one schedule: the one of the last start.\<close>

lemma starts_converge:
  assumes "\<And>i job q. schedulers (put i job q) = (schedulers q)(i \<mapsto> job)" and "configs \<noteq> []"
  shows "schedulers (fold (scheduler_init put) configs q) = (schedulers q)(SCHEDULER_ID \<mapsto> cycle_job (last configs))"
  using assms(2)
proof (induction configs arbitrary: q)
  case (Cons c cs)
  have "schedulers (scheduler_init put c q) = (schedulers q)(SCHEDULER_ID \<mapsto> cycle_job c)" by (simp only: scheduler_init_def assms(1))
  with Cons show ?case by (cases "cs = []") (simp_all add: fun_eq_iff)
qed simp

text \<open>What a run of the job logs: how many epochs it compared, and how many of them did not balance.\<close>

lemma process_logs:
  "fst (processor_process now ledgerDb countersDb d) =
     [LogInfo (''reconciled '' @ show_nat (length (all_counters countersDb)) @ '' epoch(s), ''
        @ show_nat (length (filter (\<lambda>r. \<not> row_balanced ledgerDb r) (all_counters countersDb))) @ '' with divergence'')]"
  by (simp add: processor_process_def reconcile_def Let_def filter_map comp_def rc_alarms_Nil_iff)

end
