(* ===== verification/PropertiesService.thy ===== *)
theory PropertiesService
  imports Samples Polyfill Scheduler
begin

text \<open>
  The properties of the services around issuance: reconciliation, the rate limiter, the keyring reload and
  the health report, and signing.
\<close>

subsection \<open>Reconciliation\<close>

text \<open>C23. A reconciliation cycle raises exactly the alarms the books call for: overissuance with its surplus
  where more signatures were counted than bundles paid for, underissuance where fewer, a ledger mismatch where
  the paid counter and the ledger disagree, each stamped with its epoch and amounts; whichever states of the database its
  two queries saw.\<close>

theorem reconcile_alarms_exact:
  "set (reconciliation_alarm (snd (reconcile now ledgerDb countersDb d))) = set (reconciliation_alarm d) \<union>
     {a. \<exists>r. r \<in> set (epoch_counter countersDb) \<and> al_epoch a = ec_epoch r \<and> al_raisedAt a = now
        \<and> (let expected = ec_bundlesPaid r * ec_bundleSize r; actual = ec_signaturesIssued r;
               ledger = ledger_bundles (ec_epoch r) ledgerDb
           in (al_kind a = overissuance \<and> expected < actual \<and> al_expected a = expected \<and> al_actual a = actual)
            \<or> (al_kind a = underissuance \<and> actual < expected \<and> al_expected a = expected \<and> al_actual a = actual)
            \<or> (al_kind a = ledger_mismatch \<and> ec_bundlesPaid r \<noteq> ledger \<and> al_expected a = ledger
                \<and> al_actual a = ec_bundlesPaid r))
        \<and> al_delta a = al_actual a - al_expected a}"
proof -
  have kinds: "a \<in> alarm_of now (reconcile_epoch (ledgerBundlesByEpoch ledgerDb) r) ` set (rc_alarms (reconcile_epoch (ledgerBundlesByEpoch ledgerDb) r)) \<longleftrightarrow>
      al_epoch a = ec_epoch r \<and> al_raisedAt a = now
        \<and> (let expected = ec_bundlesPaid r * ec_bundleSize r; actual = ec_signaturesIssued r;
               ledger = ledger_bundles (ec_epoch r) ledgerDb
           in (al_kind a = overissuance \<and> expected < actual \<and> al_expected a = expected \<and> al_actual a = actual)
            \<or> (al_kind a = underissuance \<and> actual < expected \<and> al_expected a = expected \<and> al_actual a = actual)
            \<or> (al_kind a = ledger_mismatch \<and> ec_bundlesPaid r \<noteq> ledger \<and> al_expected a = ledger
                \<and> al_actual a = ec_bundlesPaid r))
        \<and> al_delta a = al_actual a - al_expected a" for a :: alarm_row and r
    by (cases a) (auto simp: alarm_of_def reconcile_epoch_def Let_def ledger_get)
  show ?thesis
    unfolding reconcile_snd reconcile_fst by (auto simp: kinds [symmetric])
qed

subsection \<open>The rate limiter\<close>

text \<open>C24. On any store that behaves as Redis documents its sorted sets, a call is allowed exactly when the
  calls for that reference inside the window, this one included, do not exceed the limit; calls for other
  references do not count.\<close>

theorem limiter_sliding_window:
  assumes "sorted_set_store R members" and "members (rl_key ref) s = Map.empty" and "0 < windowMs config"
    and "calls_ok (calls @ [(ref, now, u)])"
  shows "fst (allow R config now u ref (allow_run R config calls s)) =
    Inr (Suc (length (in_window config ref now calls)) \<le> rateLimitMax config)"
  by (rule sorted_set_store.allow_sliding [OF assms])

theorem limiter_sliding_window_witness:
  "fst (allow mem_redis sample_config 3 ''c'' ''ref'' (allow_run mem_redis sample_config
      [(''ref'', 1, ''a''), (''other'', 1, ''x''), (''ref'', 2, ''b'')] sample_store)) = Inr False"
proof -
  have "calls_ok ([(''ref'', 1, ''a''), (''other'', 1, ''x''), (''ref'', 2, ''b'')] @ [(''ref'', 3, ''c'')])"
    by (simp add: calls_ok_def rl_member_def)
  from limiter_sliding_window [OF mem.sorted_set_store_axioms _ _ this, of sample_store sample_config] show ?thesis
    by (simp add: sample_store_def sample_config_def windowMs_def in_window_def)
qed

subsection \<open>The keyring in use\<close>

text \<open>C12. After boot and any number of reloads the keyring in use is the last acceptable one the file held,
  however many unreadable, malformed or wrongly signed versions came after it; a first file that is not
  acceptable stops the boot.\<close>

theorem keyring_in_use:
  assumes "inj_on sha256 {raw. Some raw \<in> fst ` set (first # files)}"
  shows "case acceptable rt C (fst first) of
      None \<Rightarrow> \<exists>e. serve_keys rt C sha256 config first files = Inl (Error e)
    | Some k \<Rightarrow> \<exists>s. serve_keys rt C sha256 config first files = Inr s
        \<and> ks_keyring s = Some (last_acceptable rt C k (map fst files)) \<and> keys_inv rt C s"
proof (cases "acceptable rt C (fst first)")
  case None
  then have "\<exists>e. reload rt C sha256 config True (fst first) (snd first) initial_keys = Inl (Error e)"
    by (auto simp: acceptable_def reload_def initial_keys_def Let_def split: option.splits sum.splits)
  with None show ?thesis by (auto simp: serve_keys_def)
next
  case (Some k)
  then obtain r raw where r: "reload rt C sha256 config True (fst first) (snd first) initial_keys = Inr r"
    and raw: "fst first = Some raw" and from0: "loaded_from rt C sha256 raw k (rr_state r)"
    by (rule serve_keys_first)
  have "raw \<in> {raw. Some raw \<in> fst ` set (first # files)}" using raw by (auto intro: rev_image_eqI)
  from poll_last [OF from0 assms this, of files config] obtain s where
    s: "poll rt C sha256 config files (rr_state r) = Inr s" "ks_keyring s = Some (last_acceptable rt C k (map fst files))"
    by auto
  have "keyring_ok k \<and> keyring_signed rt C k"
    using from0 accept_keyring_Inr [of rt C raw k] by (simp add: loaded_from_def)
  with s(2) have "keys_inv rt C s" by (simp add: keys_inv_def last_acceptable_ok)
  with Some r s show ?thesis by (simp add: serve_keys_def)
qed

theorem keyring_in_use_witness:
  "\<exists>s. serve_keys strict_runtime sample_ed25519 (\<lambda>raw. raw) sample_config (Some sample_file, 0) [(None, 1), (Some ''garbage'', 2)] = Inr s
     \<and> ks_keyring s = Some signed_keyring"
proof -
  have bad: "acceptable strict_runtime sample_ed25519 (Some ''garbage'') = None"
    by (simp add: acceptable_def sample_garbage)
  have "acceptable strict_runtime sample_ed25519 (Some sample_file) = Some signed_keyring"
    by (simp add: acceptable_Some sample_file_accepted)
  with keyring_in_use [of "\<lambda>raw. raw" "(Some sample_file, 0)" "[(None, 1), (Some ''garbage'', 2)]" strict_runtime sample_ed25519 sample_config]
  show ?thesis by (simp add: bad acceptable_def [of _ _ None]) blast
qed

text \<open>The health report is ok exactly when a purchase under the advertised epoch would find it usable,
  and it counts the seconds to that epoch's end.\<close>

theorem health_reports_usability:
  assumes "keyring_ok k" and "ks_keyring s = Some k"
  shows "\<exists>e t. currentEpoch k = Inr e \<and> toISOString t = Some (not_after e)
    \<and> health rt s now = Inr (if keys_usable rt s (current_epoch k) now = Inr None
        then ServiceUnavailable (current_epoch k) (Integer (round_seconds (t - now)))
               ''no usable epoch key; the keyring needs a rotation''
        else HealthOk (current_epoch k) (Integer (round_seconds (t - now))))"
proof -
  obtain e t where "currentEpoch k = Inr e" "toISOString t = Some (not_after e)"
    and h: "health rt s now = Inr (if usableEpoch rt k (current_epoch k) now = None
       then ServiceUnavailable (current_epoch k) (Integer (round_seconds (t - now))) ''no usable epoch key; the keyring needs a rotation''
       else HealthOk (current_epoch k) (Integer (round_seconds (t - now))))"
    by (rule health_loaded [OF assms, of rt now])
  moreover have "keys_usable rt s (current_epoch k) now = Inr None \<longleftrightarrow> usableEpoch rt k (current_epoch k) now = None"
    using assms(2) by (simp add: keys_usable_def require_keyring_def)
  ultimately show ?thesis by auto
qed

theorem health_reports_usability_witness:
  "\<exists>t. toISOString t = Some ''1970-01-02T00:00:00.000Z''
     \<and> health strict_runtime \<lparr>ks_keyring = Some sample_keyring, ks_fingerprint = None\<rparr> 1000
       = Inr (HealthOk ''7'' (Integer (round_seconds (t - 1000))))"
proof -
  have cur: "currentEpoch sample_keyring = Inr sample_entry" "current_epoch sample_keyring = ''7''"
    "not_after sample_entry = ''1970-01-02T00:00:00.000Z''"
    by (simp_all add: currentEpoch_def find_epoch_def sample_keyring_def) (simp_all add: sample_entry_def)
  from health_reports_usability [OF sample_keyring_ok, of "\<lparr>ks_keyring = Some sample_keyring, ks_fingerprint = None\<rparr>" strict_runtime 1000]
  show ?thesis using sample_usable [of 1000] cur by auto
qed

subsection \<open>Signing\<close>

text \<open>C14. However often the patch is prepared, an \<open>RSA-RAW\<close> signature leaves a realm without native support only for a
  message below the modulus, and only after encrypting it with the public key gave the message back: a faulty private
  operation never leaves the primitive. Every other algorithm does what it did before.\<close>

theorem raw_signature_checked:
  assumes "\<not> installed r" and "\<not> rsaRawIsNative r (hex_bytes (privateKeyPkcs8Hex ka))"
    and "r' = (prepare_realm rt C no_pkcs8 ka ^^ Suc n) r"
  shows "(\<forall>q a key data signature. object_name (ir_algorithm q) = Some RSA_RAW \<longrightarrow> algorithm_name a = Some RSA_RAW
      \<longrightarrow> importKey (subtle r') q = Inr key \<longrightarrow> subtle_sign (subtle r') a key data = Inr signature
      \<longrightarrow> (\<exists>sk m. createPrivateKey C (toBuffer (ir_data q)) = Inr sk \<and> modulusOf rt C (createPublicKey C sk) = Inr m
            \<and> asInteger (toBuffer data) < m \<and> publicEncrypt C (createPublicKey C sk) signature = Inr (toBuffer data)))
    \<and> (\<forall>q. object_name (ir_algorithm q) \<noteq> Some RSA_RAW \<longrightarrow> importKey (subtle r') q = importKey (subtle r) q)
    \<and> (\<forall>a key data. algorithm_name a \<noteq> Some RSA_RAW \<longrightarrow> subtle_sign (subtle r') a key data = subtle_sign (subtle r) a key data)"
proof (intro conjI allI impI)
  fix q a key data signature
  assume raw: "object_name (ir_algorithm q) = Some RSA_RAW" "algorithm_name a = Some RSA_RAW"
    and key: "importKey (subtle r') q = Inr key" and signed: "subtle_sign (subtle r') a key data = Inr signature"
  have "rawSign rt C (toBuffer (ir_data q)) (toBuffer data) = Inr signature"
    using prepared_realm(3) [OF assms raw] key signed by simp
  then show "\<exists>sk m. createPrivateKey C (toBuffer (ir_data q)) = Inr sk \<and> modulusOf rt C (createPublicKey C sk) = Inr m
      \<and> asInteger (toBuffer data) < m \<and> publicEncrypt C (createPublicKey C sk) signature = Inr (toBuffer data)"
    by (rule rawSign_Inr) blast
qed (use prepared_realm(1,2) [OF assms] in blast)+

definition toy_openssl :: "(unit, unit) openssl" where
  "toy_openssl =
     \<lparr>createPrivateKey = (\<lambda>_. Inr ()), createPublicKey = (\<lambda>_. ()), jwk_modulus = (\<lambda>_. Some ''_w''),
      privateDecrypt = (\<lambda>_ m. Inr m), publicEncrypt = (\<lambda>_ m. Inr m)\<rparr>"

text \<open>A realm that knows no algorithm.\<close>

definition bare_realm :: "unit realm" where
  "bare_realm = \<lparr>installed = False, subtle = \<lparr>importKey = (\<lambda>_. Inl ''unsupported''), subtle_sign = (\<lambda>_ _ _. Inl ''unsupported'')\<rparr>\<rparr>"

definition sample_answer :: known_answer where
  "sample_answer = \<lparr>ka_name = ''sample'', privateKeyPkcs8Hex = [], blindedMsgHex = [], blindSigHex = []\<rparr>"

theorem raw_signature_checked_witness:
  "\<exists>key. importKey (subtle (prepare_realm strict_runtime toy_openssl [] sample_answer bare_realm))
       \<lparr>ir_format = ''pkcs8'', ir_data = Whole [], ir_algorithm = AlgObject (Some RSA_RAW) JNull, ir_extractable = True, ir_usages = []\<rparr> = Inr key
     \<and> subtle_sign (subtle (prepare_realm strict_runtime toy_openssl [] sample_answer bare_realm)) (AlgName RSA_RAW) key (Whole [CHR 0x05])
       = Inr [CHR 0x05]
     \<and> (\<exists>m. modulusOf strict_runtime toy_openssl () = Inr m \<and> asInteger [CHR 0x05] < m)"
proof -
  let ?q = "\<lparr>ir_format = ''pkcs8'', ir_data = Whole [], ir_algorithm = AlgObject (Some RSA_RAW) JNull, ir_extractable = True, ir_usages = []\<rparr>"
  let ?r = "prepare_realm strict_runtime toy_openssl [] sample_answer bare_realm"
  have bare: "\<not> installed bare_realm" "\<not> rsaRawIsNative bare_realm (hex_bytes (privateKeyPkcs8Hex sample_answer))"
    by (simp_all add: bare_realm_def rsaRawIsNative_def)
  note patched = prepared_patched [OF bare, of strict_runtime toy_openssl "[]"]
  have run: "rawSign strict_runtime toy_openssl [] [CHR 0x05] = Inr [CHR 0x05]" by code_simp
  obtain key where key: "importKey (subtle ?r) ?q = Inr key" "raw_pkcs8 key = Some []"
    by (simp add: patched patched_def)
  then have signed: "subtle_sign (subtle ?r) (AlgName RSA_RAW) key (Whole [CHR 0x05]) = Inr [CHR 0x05]"
    using run by (simp add: patched patched_def)
  have "?r = (prepare_realm strict_runtime toy_openssl [] sample_answer ^^ Suc 0) bare_realm" by simp
  from raw_signature_checked [OF bare this, THEN conjunct1, rule_format, of ?q "AlgName RSA_RAW" key "Whole [CHR 0x05]" "[CHR 0x05]"] key signed
  have "\<exists>m. modulusOf strict_runtime toy_openssl () = Inr m \<and> asInteger [CHR 0x05] < m" by (auto simp: toy_openssl_def)
  with key signed show ?thesis by blast
qed

text \<open>The fast signing path is selected only when it is enabled and has reproduced the known answer; in
  every other case the slow suite signs.\<close>

theorem fast_path_proved:
  "sel_suite (selectSigningSuite L ka native) = FastSuite \<longleftrightarrow>
     native \<and> (\<exists>key sig. importPrivateKey L (hex_bytes (privateKeyPkcs8Hex ka)) = Inr key
       \<and> blindSign L FastSuite key (hex_bytes (blindedMsgHex ka)) = Inr sig \<and> bytes_hex sig = blindSigHex ka)"
  by (auto simp: selectSigningSuite_def split: sum.splits)

text \<open>A worker answers what signing on the main thread with the same suite and keys would have
  returned, so switching the pool off changes no signature.\<close>

theorem worker_agrees_with_inline:
  "worker_sign rt L selection keys i epoch blank =
     (case signInline rt L (Some selection) keys epoch blank of
        Inl e \<Rightarrow> SignError i e | Inr s \<Rightarrow> Signed i s)"
  by (rule worker_sign_inline)

end
