(* ===== verification/JsonPretty.thy ===== *)
theory JsonPretty
  imports Json
begin

text \<open>
  \<open>JSON.stringify(value, null, 2)\<close>: the indented form the rotation tool writes. It is read back like the
  compact form: white space between the tokens does not matter to the reader.
\<close>

definition line_break :: "nat \<Rightarrow> string" where
  "line_break n = CHR 0x0A # replicate (2 * n) (CHR 0x20)"

fun joined :: "string \<Rightarrow> string list \<Rightarrow> string" where
  "joined sep [] = []"
| "joined sep [x] = x"
| "joined sep (x # xs) = x @ CHR '','' # sep @ joined sep xs"

fun json_pretty :: "nat \<Rightarrow> jsval \<Rightarrow> string" where
  "json_pretty n (JArr vs) =
     (if vs = [] then ''[]''
      else CHR ''['' # line_break (Suc n) @ joined (line_break (Suc n)) (map (json_pretty (Suc n)) vs) @ line_break n @ '']'')"
| "json_pretty n (JObj kvs) =
     (let members = filter (\<lambda>(k, v). v \<noteq> JUndefined) kvs in
      if members = [] then ''{}''
      else CHR ''{'' # line_break (Suc n)
           @ joined (line_break (Suc n)) (map (\<lambda>(k, v). json_quote k @ '': '' @ json_pretty (Suc n) v) members)
           @ line_break n @ ''}'')"
| "json_pretty n v = json_stringify v"

subsection \<open>White space before a token\<close>

definition blank :: "string \<Rightarrow> bool" where
  "blank w \<longleftrightarrow> list_all json_ws w"

lemma blank_line_break [simp]: "blank (line_break n)"
  by (simp add: blank_def line_break_def json_ws_def list_all_length nth_Cons')

lemma skip_ws_blank [simp]: "blank w \<Longrightarrow> skip_ws (w @ s) = skip_ws s"
  by (induction w) (auto simp: blank_def skip_ws_def)

lemma expect_blank [simp]: "blank w \<Longrightarrow> expect c (w @ s) = expect c s"
  by (simp add: expect_def)

lemma skip_ws_length: "skip_ws s = c # r \<Longrightarrow> length r < length s"
  using skip_ws_le [of s] by simp

lemma read_value_blank [simp]: "blank w \<Longrightarrow> read_value (w @ s) = read_value s"
proof -
  assume "blank w"
  then have "skip_ws (w @ s) = skip_ws s" by simp
  moreover have "c # r = skip_ws s \<Longrightarrow> length r < length (w @ s) \<and> length r < length s" for c r
    using skip_ws_length [of s c r] by simp
  ultimately show ?thesis
    unfolding read_value.simps [of "w @ s"] read_value.simps [of s] by (auto split: list.split)
qed

lemma read_value_space [simp]: "read_value (CHR 0x20 # s) = read_value s"
  using read_value_blank [of "[CHR 0x20]" s] by (simp add: blank_def json_ws_def)

subsection \<open>Reading the indented form\<close>

lemma joined_Cons: "joined sep (x # xs) = x @ (if xs = [] then [] else CHR '','' # sep @ joined sep xs)"
  by (cases xs) auto

lemma read_items_pretty:
  assumes "vs \<noteq> []" and "blank sep" and "blank w" and "\<And>v r. v \<in> set vs \<Longrightarrow> read_value (f v @ r) = Some (v, r)"
  shows "read_items (sep @ joined sep (map f vs) @ w @ CHR '']'' # r) = Some (vs, r)"
  using assms(1,4)
proof (induction vs)
  case (Cons v vs)
  have miss: "expect (CHR '']'') (CHR '','' # x) = None" for x by simp
  show ?case
  proof (cases "vs = []")
    case True
    with Cons.prems(2) assms(2,3) show ?thesis
      by (subst read_items.simps) simp
  next
    case False
    then have "read_items (sep @ joined sep (map f vs) @ w @ CHR '']'' # r) = Some (vs, r)"
      using Cons by simp
    with False Cons.prems(2) assms(2) show ?thesis
      by (subst read_items.simps) (simp add: joined_Cons)
  qed
qed simp

lemma read_members_pretty:
  assumes "kvs \<noteq> []" and "distinct (map fst (acc @ kvs))" and "blank sep" and "blank w"
    and "\<And>kv r. kv \<in> set kvs \<Longrightarrow> valid_utf8 (fst kv) \<and> read_value (f (snd kv) @ r) = Some (snd kv, r)"
  shows "read_members acc (sep @ joined sep (map (\<lambda>(k, v). json_quote k @ '': '' @ f v) kvs) @ w @ CHR ''}'' # r) = Some (acc @ kvs, r)"
  using assms(1,2,5)
proof (induction kvs arbitrary: acc)
  case (Cons kv kvs)
  obtain k v where kv: "kv = (k, v)" by (cases kv)
  with Cons.prems have k: "valid_utf8 k" and v: "\<And>r. read_value (f v @ r) = Some (v, r)"
    and put: "obj_put acc k v = acc @ [kv]"
    by (force simp: obj_put_def)+
  show ?case
  proof (cases "kvs = []")
    case True
    with k v put kv assms(3,4) show ?thesis
      by (subst read_members.simps) (simp add: json_quote_def read_chars_quoted)
  next
    case False
    then have "read_members (acc @ [kv]) (sep @ joined sep (map (\<lambda>(k, v). json_quote k @ '': '' @ f v) kvs) @ w @ CHR ''}'' # r)
        = Some ((acc @ [kv]) @ kvs, r)"
      using Cons.IH [of "acc @ [kv]"] Cons.prems by simp
    with False k v put kv assms(3) show ?thesis
      by (subst read_members.simps) (simp add: joined_Cons json_quote_def read_chars_quoted)
  qed
qed simp

lemma json_pretty_head:
  assumes "json_plain v"
  obtains c t where "json_pretty n v = c # t" and "\<not> json_ws c" and "c \<noteq> CHR '']''" "c \<noteq> CHR ''}''"
proof (cases v)
  case (JBool b)
  with that show ?thesis by (cases b) simp_all
next
  case (JObj kvs)
  with that [of "CHR ''{''"] show ?thesis
    by (cases "filter (\<lambda>(k, v). v \<noteq> JUndefined) kvs = []") (simp_all add: Let_def)
next
  case (JArr vs)
  with that [of "CHR ''[''"] show ?thesis by (cases "vs = []") simp_all
qed (use assms that in \<open>auto simp: json_quote_def\<close>)

lemma read_value_pretty: "json_plain v \<Longrightarrow> read_value (json_pretty n v @ r) = Some (v, r)"
proof (induction v arbitrary: n r)
  case (JArr vs)
  show ?case
  proof (cases vs)
    case (Cons w ws)
    obtain c t where ct: "json_pretty (Suc n) w = c # t" "\<not> json_ws c" "c \<noteq> CHR '']''"
      using json_pretty_head [of w "Suc n"] JArr.prems Cons by (metis json_plain.simps(4) list.set_intros(1))
    have "read_items (line_break (Suc n) @ joined (line_break (Suc n)) (map (json_pretty (Suc n)) vs) @ line_break n @ CHR '']'' # r) = Some (vs, r)"
      by (rule read_items_pretty) (use JArr Cons in auto)
    then show ?thesis
      using ct by (subst read_value.simps) (simp add: Cons joined_Cons)
  qed (subst read_value.simps, simp)
next
  case (JObj kvs)
  note members = json_plain_defined [OF JObj.prems]
  show ?case
  proof (cases kvs)
    case (Cons kv kws)
    have "read_members [] (line_break (Suc n) @ joined (line_break (Suc n)) (map (\<lambda>(k, v). json_quote k @ '': '' @ json_pretty (Suc n) v) kvs)
        @ line_break n @ CHR ''}'' # r) = Some ([] @ kvs, r)"
    proof (rule read_members_pretty)
      fix kv' r'
      assume "kv' \<in> set kvs"
      with JObj.prems JObj.IH [of kv' "snd kv'" "Suc n" r']
      show "valid_utf8 (fst kv') \<and> read_value (json_pretty (Suc n) (snd kv') @ r') = Some (snd kv', r')"
        by (auto simp: snds.simps)
    qed (use JObj.prems Cons in auto)
    moreover have "kvs \<noteq> []" using Cons by simp
    moreover have "expect (CHR ''}'') (line_break (Suc n) @ joined (line_break (Suc n)) (map (\<lambda>(k, v). json_quote k @ '': '' @ json_pretty (Suc n) v) kvs) @ x) = None" for x
      by (simp add: Cons joined_Cons json_quote_def split: prod.split)
    ultimately show ?thesis
      by (subst read_value.simps) (simp add: members Let_def)
  next
    case Nil
    then show ?thesis by (subst read_value.simps) simp
  qed
next
  case (JStr s)
  then show ?case using read_value_written [of "JStr s" r] by simp
next
  case JNull
  then show ?case using read_value_written [of JNull r] by simp
next
  case (JBool b)
  then show ?case using read_value_written [of "JBool b" r] by simp
qed simp_all

lemma json_pretty_roundtrip [simp, codec_simps]:
  "json_plain v \<Longrightarrow> json_parse (json_pretty n v) = Some v"
  "json_plain v \<Longrightarrow> json_parse (json_pretty n v @ [CHR 0x0A]) = Some v"
  using read_value_pretty [of v n "[]"] read_value_pretty [of v n "[CHR 0x0A]"]
  by (simp_all add: json_parse_def skip_ws_def json_ws_def)

lemma valid_utf8_break [simp]: "valid_utf8 (line_break n)"
  by (intro valid_utf8_all_ascii) (simp add: line_break_def list_all_length nth_Cons' ascii_def in_range_def)

lemma valid_utf8_joined:
  "(\<And>x. x \<in> set xs \<Longrightarrow> valid_utf8 x) \<Longrightarrow> valid_utf8 sep \<Longrightarrow> valid_utf8 (joined sep xs)"
  by (induction sep xs rule: joined.induct) (auto simp: in_range_def intro!: valid_utf8_append)

lemma valid_utf8_pretty [simp]: "json_plain v \<Longrightarrow> valid_utf8 (json_pretty n v)"
proof (induction v arbitrary: n)
  case (JArr vs)
  have "valid_utf8 (joined (line_break (Suc n)) (map (json_pretty (Suc n)) vs))"
    using JArr by (intro valid_utf8_joined) auto
  then show ?case by (auto simp: in_range_def intro!: valid_utf8_append)
next
  case (JObj kvs)
  have "valid_utf8 (json_quote (fst kv) @ '': '' @ json_pretty (Suc n) (snd kv))" if "kv \<in> set kvs" for kv
  proof -
    from JObj.IH [of kv "snd kv"] JObj.prems that have "valid_utf8 (json_pretty (Suc n) (snd kv))"
      by (auto simp: snds.simps)
    with JObj.prems that show ?thesis
      by (auto simp: in_range_def intro!: valid_utf8_append valid_utf8_quote)
  qed
  then have "valid_utf8 (joined (line_break (Suc n)) (map (\<lambda>(k, v). json_quote k @ '': '' @ json_pretty (Suc n) v) kvs))"
    by (intro valid_utf8_joined) auto
  then show ?case
    using json_plain_defined [OF JObj.prems] by (auto simp: Let_def in_range_def intro!: valid_utf8_append)
qed (auto simp: valid_utf8_quote ascii_def in_range_def intro!: valid_utf8_all_ascii)

interpretation pretty: codec "json_pretty n" json_parse json_plain for n
  by unfold_locales simp

interpretation pretty_utf8: codec_chain "json_pretty n" json_parse json_plain
    utf8_encode "\<lambda>bs. Some (utf8_decode rt bs)" valid_utf8 for n rt
  by unfold_locales simp

end
