(* ===== verification/Http.thy ===== *)
theory Http
  imports Errors
begin

text \<open>
  What the programs of the repository see of \<open>fetch\<close>: header objects, a response with a status and a body, the
  JavaScript truth of a parsed value, and the body of the issuer's errors.
\<close>

record http_response =
  http_code :: nat
  http_body :: string

type_synonym headers = "(string \<times> string) list"

text \<open>\<open>fetch(url, { method, headers, body })\<close> over the state \<open>'w\<close> of what is behind the network: the message of a network
  failure, or the response.\<close>

type_synonym 'w fetch = "string \<Rightarrow> string \<Rightarrow> headers \<Rightarrow> string option \<Rightarrow> 'w \<Rightarrow> (string + http_response) \<times> 'w"

text \<open>\<open>{ ...a, ...b }\<close> of two header objects.\<close>

fun put_header :: "headers \<Rightarrow> string \<times> string \<Rightarrow> headers" where
  "put_header [] kv = [kv]"
| "put_header (h # hs) kv = (if fst h = fst kv then kv # hs else h # put_header hs kv)"

definition spread_headers :: "headers \<Rightarrow> headers \<Rightarrow> headers" where
  "spread_headers a b = foldl put_header a b"

definition response_ok :: "http_response \<Rightarrow> bool" where
  "response_ok r \<longleftrightarrow> 200 \<le> http_code r \<and> http_code r < 300"

text \<open>\<open>!v\<close>. A number is falsy when its mantissa is zero.\<close>

fun falsy :: "jsval \<Rightarrow> bool" where
  "falsy JUndefined = True"
| "falsy JNull = True"
| "falsy (JBool b) = (\<not> b)"
| "falsy (JStr s) = (s = [])"
| "falsy (JNum t) = list_all (\<lambda>c. c \<in> set ''-0.'') (takeWhile (\<lambda>c. c \<notin> set ''eE'') t)"
| "falsy _ = False"

text \<open>\<open>`${v}`\<close>\<close>

fun js_text :: "runtime \<Rightarrow> jsval \<Rightarrow> string" where
  "js_text rt (JStr s) = s"
| "js_text rt v = loose_text rt v"


text \<open>The body of an \<open>IssuerException\<close>: \<open>{ error: { code, message } }\<close>.\<close>

fun code_text :: "issuer_code \<Rightarrow> string" where
  "code_text REQUEST_INVALID = ''REQUEST_INVALID''"
| "code_text BUNDLE_SIZE = ''BUNDLE_SIZE''"
| "code_text BLANK_FORMAT = ''BLANK_FORMAT''"
| "code_text CLAIM_INVALID = ''CLAIM_INVALID''"
| "code_text IDEMPOTENCY_CONFLICT = ''IDEMPOTENCY_CONFLICT''"
| "code_text RATE_LIMITED = ''RATE_LIMITED''"
| "code_text WRONG_EPOCH = ''WRONG_EPOCH''"
| "code_text RECEIPT_INVALID = ''RECEIPT_INVALID''"
| "code_text ENTITLEMENT_UNKNOWN = ''ENTITLEMENT_UNKNOWN''"
| "code_text NOT_DUE = ''NOT_DUE''"

definition exception_body :: "issuer_code \<Rightarrow> string \<Rightarrow> jsval" where
  "exception_body code message = JObj [(''error'', JObj [(''code'', JStr (code_text code)), (''message'', JStr message)])]"

lemma exception_literals [simp]: "valid_utf8 ''error''" "valid_utf8 ''code''" "valid_utf8 ''message''"
  by (rule valid_utf8_all_ascii, simp add: ascii_def in_range_def)+

lemma code_text_utf8 [simp]: "valid_utf8 (code_text c)"
  by (rule valid_utf8_all_ascii, cases c) (simp_all add: ascii_def in_range_def)

lemma exception_body_plain: "valid_utf8 m \<Longrightarrow> json_plain (exception_body c m)"
  by (simp add: exception_body_def)

lemma code_text_nonempty [simp]: "code_text c \<noteq> []"
  by (cases c) simp_all

end
