(* ===== verification/Vault.thy ===== *)
theory Vault
  imports Http
begin

text \<open>
  \<open>scripts/vault-kv.ts\<close>: reading and writing one secret of Vault's KV version 2 engine. Vault's HTTP interface is
  a parameter; what the tool relies on (a write names the version it read and is refused when another write came
  in between) is the named hypothesis \<open>kv2\<close>, and \<open>mem_vault\<close> is a store in memory that has it.
\<close>

subsection \<open>The client\<close>

record vault_options =
  vault_addr :: string
  vault_token :: string
  vault_secret :: string

text \<open>Vault as the tool sees it: a GET and a POST of a URL with a token, over a state. \<open>Inl\<close> is a \<open>fetch\<close> that
  failed.\<close>

record 'v vault_api =
  vault_get :: "string \<Rightarrow> string \<Rightarrow> 'v \<Rightarrow> string + http_response"
  vault_post :: "string \<Rightarrow> string \<Rightarrow> string \<Rightarrow> 'v \<Rightarrow> (string + http_response) \<times> 'v"

definition dataUrl :: "vault_options \<Rightarrow> failure + string" where
  "dataUrl opts =
     (case split_on CHR ''/'' (dropWhile (\<lambda>c. c = CHR ''/'') (vault_secret opts)) of
        mount # rest \<Rightarrow>
          if mount = [] \<or> rest = []
          then Inl (Error (''vault secret must look like <mount>/<path>, got '' @ json_quote (vault_secret opts)))
          else Inr (rev (dropWhile (\<lambda>c. c = CHR ''/'') (rev (vault_addr opts))) @ ''/v1/'' @ mount @ ''/data/'' @ joined_with ''/'' rest)
      | [] \<Rightarrow> Inl (Error (''vault secret must look like <mount>/<path>, got '' @ json_quote (vault_secret opts))))"

definition vault_failed :: "http_response \<Rightarrow> string \<Rightarrow> failure" where
  "vault_failed r what =
     Error (''vault '' @ what @ '' failed: '' @ show_nat (http_code r) @ '' '' @ take 200 (http_body r))"

definition no_kv2_data :: "vault_options \<Rightarrow> failure" where
  "no_kv2_data opts = Error (''vault read of '' @ vault_secret opts @ '' returned no KV v2 data'')"

text \<open>The data and the text of its version number.\<close>

definition readSecret :: "runtime \<Rightarrow> 'v vault_api \<Rightarrow> vault_options \<Rightarrow> 'v \<Rightarrow> failure + jsval \<times> string" where
  "readSecret rt V opts v =
     (case dataUrl opts of
        Inl e \<Rightarrow> Inl e
      | Inr url \<Rightarrow>
          (case vault_get V url (vault_token opts) v of
             Inl m \<Rightarrow> Inl (Error m)
           | Inr r \<Rightarrow>
               if \<not> response_ok r then Inl (vault_failed r (''read of '' @ vault_secret opts))
               else (case json_parse (http_body r) of
                       None \<Rightarrow> Inl (Error (json_message rt (http_body r)))
                     | Some JNull \<Rightarrow> Inl (Error ''null is not an object'')
                     | Some body \<Rightarrow>
                         (let data = get_prop (get_prop body ''data'') ''data'';
                              version = get_prop (get_prop (get_prop body ''data'') ''metadata'') ''version''
                          in if falsy data then Inl (no_kv2_data opts)
                             else (case version of JNum n \<Rightarrow> Inr (data, n) | _ \<Rightarrow> Inl (no_kv2_data opts))))))"

definition write_body :: "jsval \<Rightarrow> string \<Rightarrow> string" where
  "write_body data cas = json_stringify (JObj [(''data'', data), (''options'', JObj [(''cas'', JNum cas)])])"

definition writeSecret :: "'v vault_api \<Rightarrow> vault_options \<Rightarrow> jsval \<Rightarrow> string \<Rightarrow> 'v \<Rightarrow> (failure + unit) \<times> 'v" where
  "writeSecret V opts data cas v =
     (case dataUrl opts of
        Inl e \<Rightarrow> (Inl e, v)
      | Inr url \<Rightarrow>
          (case vault_post V url (vault_token opts) (write_body data cas) v of
             (Inl m, v') \<Rightarrow> (Inl (Error m), v')
           | (Inr r, v') \<Rightarrow>
               (if \<not> response_ok r then Inl (vault_failed r (''write of '' @ vault_secret opts)) else Inr (), v')))"

subsection \<open>What KV version 2 promises\<close>

text \<open>
  The documented behaviour of one secret: a read returns its data and version; a write that names the current
  version replaces the data and increments the version, any other is refused and changes nothing.
\<close>

definition kv2_reads :: "'v vault_api \<Rightarrow> string \<Rightarrow> string \<Rightarrow> ('v \<Rightarrow> jsval) \<Rightarrow> ('v \<Rightarrow> nat) \<Rightarrow> bool" where
  "kv2_reads V url token data version \<longleftrightarrow>
     (\<forall>v. json_plain (data v) \<longrightarrow>
        (\<exists>r kvs. vault_get V url token v = Inr r \<and> response_ok r \<and> json_parse (http_body r) = Some (JObj kvs)
               \<and> get_prop (get_prop (JObj kvs) ''data'') ''data'' = data v
               \<and> get_prop (get_prop (get_prop (JObj kvs) ''data'') ''metadata'') ''version'' = JNum (show_nat (version v))))"

definition kv2_writes :: "'v vault_api \<Rightarrow> string \<Rightarrow> string \<Rightarrow> ('v \<Rightarrow> jsval) \<Rightarrow> ('v \<Rightarrow> nat) \<Rightarrow> bool" where
  "kv2_writes V url token data version \<longleftrightarrow>
     (\<forall>v new cas. json_plain new \<longrightarrow>
        (\<exists>r v'. vault_post V url token (write_body new (show_nat cas)) v = (Inr r, v')
              \<and> (if cas = version v then response_ok r \<and> data v' = new \<and> version v' = Suc (version v)
                 else \<not> response_ok r \<and> v' = v)))"

definition kv2 :: "'v vault_api \<Rightarrow> string \<Rightarrow> string \<Rightarrow> ('v \<Rightarrow> jsval) \<Rightarrow> ('v \<Rightarrow> nat) \<Rightarrow> bool" where
  "kv2 V url token data version \<longleftrightarrow> kv2_reads V url token data version \<and> kv2_writes V url token data version"

lemma readSecret_kv2:
  assumes "kv2 V url (vault_token opts) data version" and "dataUrl opts = Inr url"
    and "json_plain (data v)" and "\<not> falsy (data v)"
  shows "readSecret rt V opts v = Inr (data v, show_nat (version v))"
proof -
  obtain r kvs where "vault_get V url (vault_token opts) v = Inr r" "response_ok r" "json_parse (http_body r) = Some (JObj kvs)"
    "get_prop (get_prop (JObj kvs) ''data'') ''data'' = data v"
    "get_prop (get_prop (get_prop (JObj kvs) ''data'') ''metadata'') ''version'' = JNum (show_nat (version v))"
    using assms(1,3) unfolding kv2_def kv2_reads_def by blast
  then show ?thesis using assms(2,4) by (simp add: readSecret_def Let_def del: get_prop.simps)
qed

lemma writeSecret_kv2:
  assumes "kv2 V url (vault_token opts) data version" and "dataUrl opts = Inr url" and "json_plain new"
  obtains v' where "writeSecret V opts new (show_nat (version v)) v = (Inr (), v')" and "data v' = new" and "version v' = Suc (version v)"
proof -
  obtain r v' where "vault_post V url (vault_token opts) (write_body new (show_nat (version v))) v = (Inr r, v')"
    "response_ok r" "data v' = new" "version v' = Suc (version v)"
    using assms(1,3) unfolding kv2_def kv2_writes_def by metis
  then show ?thesis using that [of v'] assms(2) by (simp add: writeSecret_def)
qed

lemma writeSecret_stale:
  assumes "kv2 V url (vault_token opts) data version" and "dataUrl opts = Inr url" and "json_plain new" and "cas \<noteq> version v"
  shows "\<exists>e. writeSecret V opts new (show_nat cas) v = (Inl e, v)"
proof -
  obtain r where "vault_post V url (vault_token opts) (write_body new (show_nat cas)) v = (Inr r, v)" "\<not> response_ok r"
    using assms(1,3,4) unfolding kv2_def kv2_writes_def by metis
  then show ?thesis using assms(2) by (simp add: writeSecret_def)
qed

subsection \<open>A store in memory\<close>

definition secret_body :: "nat \<times> jsval \<Rightarrow> string" where
  "secret_body v =
     json_stringify (JObj [(''data'', JObj [(''data'', snd v), (''metadata'', JObj [(''version'', JNum (show_nat (fst v)))])])])"

definition mem_vault :: "(nat \<times> jsval) vault_api" where
  "mem_vault =
     \<lparr>vault_get = (\<lambda>url token v. Inr \<lparr>http_code = 200, http_body = secret_body v\<rparr>),
      vault_post = (\<lambda>url token body v.
        (case json_parse body of
           None \<Rightarrow> (Inr \<lparr>http_code = 400, http_body = []\<rparr>, v)
         | Some b \<Rightarrow>
             if get_prop (get_prop b ''options'') ''cas'' = JNum (show_nat (fst v))
             then (Inr \<lparr>http_code = 200, http_body = []\<rparr>, (Suc (fst v), get_prop b ''data''))
             else (Inr \<lparr>http_code = 400, http_body = []\<rparr>, v)))\<rparr>"

text \<open>Reading an object member by member, its values followed by a comma or a closing brace.\<close>

lemma read_member_last:
  assumes "valid_utf8 k" and "read_value (t @ CHR ''}'' # r) = Some (v, CHR ''}'' # r)"
  shows "read_members acc (json_quote k @ CHR '':'' # t @ CHR ''}'' # r) = Some (obj_put acc k v, r)"
  using assms by (subst read_members.simps) (simp add: json_quote_def read_chars_quoted)

lemma read_member_more:
  assumes "valid_utf8 k" and "read_value (t @ CHR '','' # r) = Some (v, CHR '','' # r)"
  shows "read_members acc (json_quote k @ CHR '':'' # t @ CHR '','' # r) = read_members (obj_put acc k v) r"
  using assms by (subst read_members.simps) (simp add: json_quote_def read_chars_quoted)

lemma read_value_object:
  assumes "read_members [] (json_quote k @ s) = Some (kvs, r)"
  shows "read_value (CHR ''{'' # json_quote k @ s) = Some (JObj kvs, r)"
  using assms by (subst read_value.simps) (simp add: json_quote_def)

lemma show_nat_head: "\<exists>c t. show_nat n = c # t \<and> is_digit c \<and> (t \<noteq> [] \<longrightarrow> c \<noteq> CHR ''0'')"
proof (induction n rule: show_nat.induct)
  case (1 n)
  show ?case
  proof (cases "n < 10")
    case False
    then obtain c t where ct: "show_nat (n div 10) = c # t" "is_digit c" "t \<noteq> [] \<longrightarrow> c \<noteq> CHR ''0''"
      using 1 by blast
    have "c \<noteq> CHR ''0''"
    proof
      assume "c = CHR ''0''"
      with ct have "read_nat (show_nat (n div 10)) = 0" by (auto simp: digit_val_def)
      with False show False by simp
    qed
    with ct False show ?thesis by (subst show_nat.simps) simp
  qed (subst show_nat.simps, simp)
qed

lemma is_digit_cases:
  assumes "is_digit c" shows "c \<in> set ''0123456789''"
proof -
  have "(of_char c :: nat) \<in> {48, 49, 50, 51, 52, 53, 54, 55, 56, 57}"
    using assms unfolding is_digit_def insert_iff empty_iff by presburger
  then have "(of_char c :: nat) \<in> of_char ` set ''0123456789''" by simp
  then show ?thesis by (simp only: inj_image_mem_iff [OF inj_of_char])
qed

lemma read_value_nat: "read_value (show_nat n @ CHR ''}'' # r) = Some (JNum (show_nat n), CHR ''}'' # r)"
proof -
  obtain c t where ct: "show_nat n = c # t" "is_digit c" "t \<noteq> [] \<longrightarrow> c \<noteq> CHR ''0''"
    using show_nat_head [of n] by blast
  have t: "list_all is_digit t" using show_nat_digits [of n] ct(1) by simp
  have ne: "c \<noteq> CHR ''{''" "c \<noteq> CHR ''[''" "c \<noteq> CHR 0x22" "c \<noteq> CHR ''t''" "c \<noteq> CHR ''f''" "c \<noteq> CHR ''n''" "c \<noteq> CHR ''-''"
    "\<not> json_ws c"
    using ct(2) by (auto simp: is_digit_def json_ws_def)
  have span: "span_digits ((c # t) @ CHR ''}'' # r) = (c # t, CHR ''}'' # r)"
    using ct(2) t by (simp add: span_digits_def takeWhile_append dropWhile_append list_all_iff) (simp add: is_digit_def)
  have "read_number ((c # t) @ CHR ''}'' # r) = Some (c # t, CHR ''}'' # r)"
    using is_digit_cases [OF ct(2)] ct(3) span by (auto simp: read_number_def)
  then show ?thesis
    using ne ct(1) by (subst read_value.simps) (simp add: skip_ws_def)
qed

lemma vault_literals [simp]:
  "valid_utf8 ''data''" "valid_utf8 ''options''" "valid_utf8 ''cas''" "valid_utf8 ''metadata''" "valid_utf8 ''version''"
  by (rule valid_utf8_all_ascii, simp add: ascii_def in_range_def)+

lemma numbered_object:
  assumes "valid_utf8 k"
  shows "read_value (json_stringify (JObj [(k, JNum (show_nat n))]) @ r) = Some (JObj [(k, JNum (show_nat n))], r)"
  using read_value_object [OF read_member_last [OF assms read_value_nat]] by (simp add: obj_put_def)

lemma stringify_pair:
  assumes "v \<noteq> JUndefined" and "w \<noteq> JUndefined"
  shows "json_stringify (JObj [(k, v), (l, w)]) @ r =
    CHR ''{'' # json_quote k @ CHR '':'' # json_stringify v @ CHR '','' # json_quote l @ CHR '':'' # json_stringify w @ CHR ''}'' # r"
  using assms by simp

lemma read_value_pair:
  assumes "json_plain v" and "valid_utf8 k" and "valid_utf8 l" and "k \<noteq> l" and "w \<noteq> JUndefined"
    and "\<And>r. read_value (json_stringify w @ r) = Some (w, r)"
  shows "read_value (json_stringify (JObj [(k, v), (l, w)]) @ r) = Some (JObj [(k, v), (l, w)], r)"
proof -
  have "v \<noteq> JUndefined" using assms(1) by auto
  moreover have "read_members [] (json_quote k @ CHR '':'' # json_stringify v @ CHR '','' # json_quote l
      @ CHR '':'' # json_stringify w @ CHR ''}'' # r) = Some ([(k, v), (l, w)], r)"
    using assms read_value_written [OF assms(1)] by (simp add: read_member_more read_member_last obj_put_def)
  ultimately show ?thesis
    using assms(5) by (subst stringify_pair) (simp_all only: read_value_object not_False_eq_True)
qed

lemma parse_write_body:
  assumes "json_plain new"
  shows "json_parse (write_body new (show_nat cas)) = Some (JObj [(''data'', new), (''options'', JObj [(''cas'', JNum (show_nat cas))])])"
  using read_value_pair [OF assms, of "''data''" "''options''" "JObj [(''cas'', JNum (show_nat cas))]" "[]"] numbered_object
  by (simp add: json_parse_def write_body_def skip_ws_def del: json_stringify.simps)

lemma parse_secret_body:
  assumes "json_plain (snd v)"
  shows "json_parse (secret_body v) =
    Some (JObj [(''data'', JObj [(''data'', snd v), (''metadata'', JObj [(''version'', JNum (show_nat (fst v)))])])])"
proof -
  let ?d = "JObj [(''data'', snd v), (''metadata'', JObj [(''version'', JNum (show_nat (fst v)))])]"
  have d: "read_value (json_stringify ?d @ r) = Some (?d, r)" for r
    using read_value_pair [OF assms] numbered_object by (simp del: json_stringify.simps)
  have "json_stringify (JObj [(''data'', ?d)]) = CHR ''{'' # json_quote ''data'' @ CHR '':'' # json_stringify ?d @ CHR ''}'' # []"
    by simp
  then have "read_value (json_stringify (JObj [(''data'', ?d)])) = Some (JObj [(''data'', ?d)], [])"
    using read_value_object [OF read_member_last [OF vault_literals(1) d]] by (simp only: obj_put_def list.map set_simps append_Nil) simp
  then show ?thesis by (simp add: json_parse_def secret_body_def skip_ws_def del: json_stringify.simps)
qed

lemma kv2_mem_vault: "kv2 mem_vault url token snd fst"
proof -
  have "kv2_reads mem_vault url token snd fst"
    by (auto simp: kv2_reads_def mem_vault_def response_ok_def parse_secret_body)
  moreover have "kv2_writes mem_vault url token snd fst"
    by (auto simp: kv2_writes_def mem_vault_def response_ok_def parse_write_body)
  ultimately show ?thesis by (simp add: kv2_def)
qed

end
