(* ===== verification/Rotation.thy ===== *)
theory Rotation
  imports KeysService JsonPretty Vault
begin

text \<open>
  \<open>scripts/rotate-epoch.ts\<close>: the rotation tool. It reads the published keyring from a
  file or from Vault, adds a fresh epoch signed by the root key, shortens the epochs that are leaving to the
  grace window, drops the expired ones and publishes the result.

  Key generation is the argument \<open>fresh\<close> (the SPKI and PKCS#8 bytes of the new pair), the clock the argument
  \<open>now\<close>. The periods are whole seconds.
\<close>

record rotate_schedule =
  epochSeconds :: int
  graceSeconds :: int

subsection \<open>The next keyring\<close>

text \<open>\<open>String(Number(current) + 1)\<close>; \<open>None\<close> when it is not a number.\<close>

definition next_epoch_id :: "runtime \<Rightarrow> string \<Rightarrow> string option" where
  "next_epoch_id rt current =
     (case js_Number rt current of
        NaN \<Rightarrow> None
      | NonInteger x \<Rightarrow> Some (loose_succ rt x)
      | Integer n \<Rightarrow> if \<bar>n\<bar> < int max_safe then Some (show_int (n + 1)) else Some (loose_succ rt (show_int n)))"

definition sealed :: "('sk, 'pk) ed25519 \<Rightarrow> 'a key_document_scheme \<Rightarrow> string \<Rightarrow> 'sk \<Rightarrow> epoch_entry" where
  "sealed C document privateKeyPem rootKey =
     (let published = \<lparr>epoch_id = epoch_id document, not_before = not_before document,
                       not_after = not_after document, alg = alg document, pubkey = pubkey document\<rparr>
      in \<lparr>epoch_id = epoch_id published, not_before = not_before published, not_after = not_after published,
          alg = alg published, pubkey = pubkey published, root_sig = signKeyDocument C published rootKey,
          private_key_pkcs8_pem = privateKeyPem\<rparr>)"

definition rootPublicKeySpki :: "runtime \<Rightarrow> ('sk, 'pk) ed25519 \<Rightarrow> string \<Rightarrow> failure + string" where
  "rootPublicKeySpki rt C rootPem =
     (case importRootSigningKey rt C rootPem of
        Inl e \<Rightarrow> Inl e | Inr signing \<Rightarrow> Inr (bytesToBase64 (ed_public_spki C signing)))"

text \<open>One outgoing epoch: \<open>Inr None\<close> when it is pruned.\<close>

definition retain_epoch ::
  "runtime \<Rightarrow> ('sk, 'pk) ed25519 \<Rightarrow> 'sk \<Rightarrow> millis \<Rightarrow> millis \<Rightarrow> epoch_entry \<Rightarrow> failure + epoch_entry option" where
  "retain_epoch rt C rootKey now graceUntil epoch =
     (case date_parse rt (not_after epoch) of
        None \<Rightarrow> Inl (Error ''Invalid time value'')
      | Some t \<Rightarrow>
          (case iso_text (min t graceUntil) of
             Inl e \<Rightarrow> Inl e
           | Inr notAfter \<Rightarrow>
               if date_ge (Some now) (date_parse rt notAfter) then Inr None
               else Inr (Some (sealed C (epoch\<lparr>not_after := notAfter\<rparr>) (private_key_pkcs8_pem epoch) rootKey))))"

definition nextKeyring ::
  "runtime \<Rightarrow> ('sk, 'pk) ed25519 \<Rightarrow> bytes \<times> bytes \<Rightarrow> keyring option \<Rightarrow> string \<Rightarrow> rotate_schedule \<Rightarrow> millis
     \<Rightarrow> failure + keyring"
where
  "nextKeyring rt C fresh existing rootPem options now =
     (case importRootSigningKey rt C rootPem of Inl e \<Rightarrow> Inl e | Inr rootKey \<Rightarrow>
      (case rootPublicKeySpki rt C rootPem of Inl e \<Rightarrow> Inl e | Inr rootPublicSpki \<Rightarrow>
      (case (case existing of None \<Rightarrow> Some ''0'' | Some k \<Rightarrow> next_epoch_id rt (current_epoch k)) of
         None \<Rightarrow> Inl (Error (''cannot derive the next epoch from ''
                   @ (case existing of None \<Rightarrow> ''undefined'' | Some k \<Rightarrow> current_epoch k)))
       | Some nextId \<Rightarrow>
      (case iso_text now of Inl e \<Rightarrow> Inl e | Inr notBefore \<Rightarrow>
      (case iso_text (now + epochSeconds options * 1000) of Inl e \<Rightarrow> Inl e | Inr notAfter \<Rightarrow>
         (let entry = sealed C \<lparr>epoch_id = nextId, not_before = notBefore, not_after = notAfter,
                                alg = BLIND_SIGNATURE_SUITE, pubkey = bytesToBase64 (fst fresh)\<rparr>
                        (derToPkcs8Pem (snd fresh)) rootKey;
              graceUntil = now + graceSeconds options * 1000
          in case map_result (retain_epoch rt C rootKey now graceUntil)
                    (case existing of None \<Rightarrow> [] | Some k \<Rightarrow> epochs k) of
               Inl e \<Rightarrow> Inl e
             | Inr retained \<Rightarrow>
                 (let k' = \<lparr>current_epoch = nextId, root_public_key_spki = rootPublicSpki,
                            epochs = entry # List.map_filter id retained\<rparr>
                  in case verifyKeyringSignatures rt C k' of Inl e \<Rightarrow> Inl e | Inr _ \<Rightarrow> Inr k')))))))"

text \<open>\<open>rotateEpoch\<close> on the contents of the keyring file (\<open>None\<close>: there is none): the keyring and the new
  contents, written to a temporary file and renamed over the old one.\<close>

definition read_keyring_text :: "runtime \<Rightarrow> string \<Rightarrow> failure + keyring" where
  "read_keyring_text rt raw =
     (case json_parse raw of None \<Rightarrow> Inl (Error (json_message rt raw)) | Some v \<Rightarrow> parseKeyring rt v)"

definition rotateEpoch ::
  "runtime \<Rightarrow> ('sk, 'pk) ed25519 \<Rightarrow> bytes \<times> bytes \<Rightarrow> string option \<Rightarrow> string \<Rightarrow> rotate_schedule \<Rightarrow> millis
     \<Rightarrow> failure + keyring \<times> string"
where
  "rotateEpoch rt C fresh contents rootPem options now =
     (case (case contents of None \<Rightarrow> Inr None | Some raw \<Rightarrow> map_sum id Some (read_keyring_text rt raw)) of
        Inl e \<Rightarrow> Inl e
      | Inr existing \<Rightarrow>
          (case nextKeyring rt C fresh existing rootPem options now of
             Inl e \<Rightarrow> Inl e
           | Inr k \<Rightarrow> Inr (k, json_pretty 0 (keyring_json k) @ [CHR 0x0A])))"

subsection \<open>In Vault\<close>

text \<open>\<open>{ ...data, [field]: value }\<close>\<close>

fun spread_put :: "jsval \<Rightarrow> string \<Rightarrow> jsval \<Rightarrow> jsval" where
  "spread_put (JObj kvs) field v = JObj (obj_put kvs field v)"
| "spread_put _ field v = JObj [(field, v)]"

definition existing_in_vault :: "runtime \<Rightarrow> jsval \<Rightarrow> failure + keyring option" where
  "existing_in_vault rt encoded =
     (if falsy encoded then Inr None
      else (case (case encoded of JStr s \<Rightarrow> Inr (base64ToBytes rt s) | _ \<Rightarrow> loose_buffer rt encoded) of
              Inl m \<Rightarrow> Inl (Error m)
            | Inr bytes \<Rightarrow> map_sum id Some (read_keyring_text rt (utf8_decode rt bytes))))"

definition encode_keyring :: "keyring \<Rightarrow> jsval" where
  "encode_keyring k = JStr (bytesToBase64 (utf8_encode (json_pretty 0 (keyring_json k))))"

definition rotateInVault ::
  "runtime \<Rightarrow> ('sk, 'pk) ed25519 \<Rightarrow> 'v vault_api \<Rightarrow> bytes \<times> bytes \<Rightarrow> vault_options \<Rightarrow> string \<Rightarrow> string
     \<Rightarrow> rotate_schedule \<Rightarrow> millis \<Rightarrow> 'v \<times> 'v \<Rightarrow> (failure + keyring) \<times> 'v"
where
  "rotateInVault rt C V fresh opts field rootPem options now vs =
     (case readSecret rt V opts (fst vs) of
        Inl e \<Rightarrow> (Inl e, snd vs)
      | Inr (data, version) \<Rightarrow>
          (case existing_in_vault rt (get_prop data field) of
             Inl e \<Rightarrow> (Inl e, snd vs)
           | Inr existing \<Rightarrow>
               (case nextKeyring rt C fresh existing rootPem options now of
                  Inl e \<Rightarrow> (Inl e, snd vs)
                | Inr k \<Rightarrow>
                    (case writeSecret V opts (spread_put data field (encode_keyring k)) version (snd vs) of
                       (Inl e, v') \<Rightarrow> (Inl e, v')
                     | (Inr _, v') \<Rightarrow> (Inr k, v')))))"


subsection \<open>A sealed entry\<close>

lemma sealed_sel [simp]:
  "epoch_id (sealed C d pem sk) = epoch_id d" "not_before (sealed C d pem sk) = not_before d"
  "not_after (sealed C d pem sk) = not_after d" "alg (sealed C d pem sk) = alg d"
  "pubkey (sealed C d pem sk) = pubkey d" "private_key_pkcs8_pem (sealed C d pem sk) = pem"
  by (simp_all add: sealed_def)

lemma canonical_sealed [simp]: "canonicalKeyDocument (sealed C d pem sk) = canonicalKeyDocument d"
  by (simp add: canonicalKeyDocument_def document_json_def)

lemma root_sig_sealed: "root_sig (sealed C d pem sk) = bytesToBase64url (ed_sign C sk (canonicalKeyDocument d))"
  by (simp add: sealed_def signKeyDocument_def canonicalKeyDocument_def document_json_def Let_def
      del: utf8_encode.simps json_stringify.simps)

lemma derToPkcs8Pem_nonempty [simp]: "derToPkcs8Pem der \<noteq> []"
  by (simp add: derToPkcs8Pem_def pem_text_def PKCS8_HEADER_def)

lemma sealed_verifies:
  assumes "ed25519_correct C sk" and "ed_import_public C (ed_public_spki C sk) = Inr pk"
  shows "ed_verify C pk (base64ToBytes rt (root_sig (sealed C d pem sk))) (canonicalKeyDocument d)"
  using assms by (auto simp: root_sig_sealed ed25519_correct_def)

lemma entry_ok_sealed:
  assumes "ed25519_correct C sk" and "epoch_id d \<noteq> []" and "pem \<noteq> []" and "alg d = BLIND_SIGNATURE_SUITE"
    and "toISOString t0 = Some (not_before d)" and "toISOString t1 = Some (not_after d)" and "t0 < t1"
    and "pubkey d = bytesToBase64 der" and "der \<noteq> []"
  shows "entry_ok (sealed C d pem sk)"
proof -
  have "ed_sign C sk m \<noteq> []" for m using assms(1) by (simp add: ed25519_correct_def)
  then have "root_sig (sealed C d pem sk) \<noteq> []" by (simp add: root_sig_sealed)
  with assms show ?thesis by (auto simp: entry_ok_def iso_time_iff)
qed

subsection \<open>An outgoing epoch\<close>

text \<open>The window of an entry whose two instants are canonical.\<close>

definition window :: "'a key_document_scheme \<Rightarrow> millis \<Rightarrow> millis \<Rightarrow> bool" where
  "window e t0 t1 \<longleftrightarrow> toISOString t0 = Some (not_before e) \<and> toISOString t1 = Some (not_after e)"

lemma entry_ok_window: "entry_ok e \<Longrightarrow> \<exists>t0 t1. window e t0 t1 \<and> t0 < t1"
  by (auto simp: entry_ok_def window_def iso_time_iff)

lemma window_unique: "window e t0 t1 \<Longrightarrow> window e u0 u1 \<Longrightarrow> t0 = u0 \<and> t1 = u1"
  by (auto simp: window_def dest: toISOString_inj)

definition shortened :: "('sk, 'pk) ed25519 \<Rightarrow> 'sk \<Rightarrow> millis \<Rightarrow> epoch_entry \<Rightarrow> epoch_entry" where
  "shortened C sk t e = sealed C (e\<lparr>not_after := the (toISOString t)\<rparr>) (private_key_pkcs8_pem e) sk"

lemma retain_epoch_outcome:
  assumes "window e t0 t1" and "\<bar>graceUntil\<bar> \<le> maxTime"
  shows "retain_epoch rt C sk now graceUntil e =
    Inr (if now < min t1 graceUntil then Some (shortened C sk (min t1 graceUntil) e) else None)"
proof -
  have "\<bar>min t1 graceUntil\<bar> \<le> maxTime"
    using assms toISOString_range [of t1] by (auto simp: window_def min_def)
  then obtain s where s: "toISOString (min t1 graceUntil) = Some s" using toISOString_range by blast
  moreover have "date_parse rt (not_after e) = Some t1"
    using assms(1) by (simp add: window_def date_parse_toISOString)
  ultimately show ?thesis
    using date_parse_toISOString [OF s, of rt] by (auto simp: retain_epoch_def iso_text_def shortened_def)
qed

lemma window_shortened:
  assumes "window e t0 t1" and "\<bar>t\<bar> \<le> maxTime"
  shows "window (shortened C sk t e) t0 t"
  using assms toISOString_range [of t] by (auto simp: window_def shortened_def)

lemma shortened_sel [simp]:
  "epoch_id (shortened C sk t e) = epoch_id e" "pubkey (shortened C sk t e) = pubkey e"
  "private_key_pkcs8_pem (shortened C sk t e) = private_key_pkcs8_pem e"
  by (simp_all add: shortened_def)


lemma entry_ok_shortened:
  assumes "entry_ok e" and "ed25519_correct C sk" and "window e t0 t1" and "t0 < t" and "\<bar>t\<bar> \<le> maxTime"
  shows "entry_ok (shortened C sk t e)"
proof -
  obtain s where s: "toISOString t = Some s" using assms(5) toISOString_range by blast
  obtain der where "der \<noteq> []" "pubkey e = bytesToBase64 der" using assms(1) by (auto simp: entry_ok_def)
  then show ?thesis unfolding shortened_def
    using assms s by (intro entry_ok_sealed [of _ _ _ _ t0 t]) (auto simp: entry_ok_def window_def)
qed

subsection \<open>The outcome of a rotation\<close>

text \<open>The instant an entry ends, and the one it ends when it leaves now.\<close>

definition ends :: "epoch_entry \<Rightarrow> millis" where
  "ends e = the (iso_time (not_after e))"

lemma ends_window: "window e t0 t1 \<Longrightarrow> ends e = t1"
  using iso_time_iff [of "not_after e" t1] by (simp add: ends_def window_def)

definition leaving :: "rotate_schedule \<Rightarrow> millis \<Rightarrow> epoch_entry \<Rightarrow> millis" where
  "leaving options now e = min (ends e) (now + graceSeconds options * 1000)"

definition fresh_epoch :: "('sk, 'pk) ed25519 \<Rightarrow> 'sk \<Rightarrow> bytes \<times> bytes \<Rightarrow> string \<Rightarrow> rotate_schedule \<Rightarrow> millis \<Rightarrow> epoch_entry" where
  "fresh_epoch C sk fresh nextId options now =
     sealed C \<lparr>epoch_id = nextId, not_before = the (toISOString now),
               not_after = the (toISOString (now + epochSeconds options * 1000)),
               alg = BLIND_SIGNATURE_SUITE, pubkey = bytesToBase64 (fst fresh)\<rparr>
       (derToPkcs8Pem (snd fresh)) sk"

definition rotated ::
  "('sk, 'pk) ed25519 \<Rightarrow> 'sk \<Rightarrow> bytes \<times> bytes \<Rightarrow> string \<Rightarrow> epoch_entry list \<Rightarrow> rotate_schedule \<Rightarrow> millis \<Rightarrow> keyring" where
  "rotated C sk fresh nextId es options now =
     \<lparr>current_epoch = nextId, root_public_key_spki = bytesToBase64 (ed_public_spki C sk),
      epochs = fresh_epoch C sk fresh nextId options now
               # map (\<lambda>e. shortened C sk (leaving options now e) e) (filter (\<lambda>e. now < leaving options now e) es)\<rparr>"

definition schedule_fits :: "rotate_schedule \<Rightarrow> millis \<Rightarrow> bool" where
  "schedule_fits options now \<longleftrightarrow>
     \<bar>now\<bar> \<le> maxTime \<and> \<bar>now + epochSeconds options * 1000\<bar> \<le> maxTime \<and> \<bar>now + graceSeconds options * 1000\<bar> \<le> maxTime"

abbreviation (input) next_of :: "runtime \<Rightarrow> keyring option \<Rightarrow> string option" where
  "next_of rt existing \<equiv> (case existing of None \<Rightarrow> Some ''0'' | Some k \<Rightarrow> next_epoch_id rt (current_epoch k))"

abbreviation (input) entries_of :: "keyring option \<Rightarrow> epoch_entry list" where
  "entries_of existing \<equiv> (case existing of None \<Rightarrow> [] | Some k \<Rightarrow> epochs k)"

lemma retain_all:
  assumes "\<forall>e \<in> set es. entry_ok e" and "schedule_fits options now"
  shows "map_result (retain_epoch rt C sk now (now + graceSeconds options * 1000)) es =
    Inr (map (\<lambda>e. if now < leaving options now e then Some (shortened C sk (leaving options now e) e) else None) es)"
proof (rule map_result_cong_Inr)
  fix e assume "e \<in> set es"
  then obtain t0 t1 where w: "window e t0 t1" using assms(1) entry_ok_window by blast
  then show "retain_epoch rt C sk now (now + graceSeconds options * 1000) e =
      Inr (if now < leaving options now e then Some (shortened C sk (leaving options now e) e) else None)"
    using retain_epoch_outcome [OF w, of "now + graceSeconds options * 1000" rt C sk now] assms(2)
    by (simp only: leaving_def ends_window [OF w] schedule_fits_def simp_thms)
qed

lemma map_filter_if: "List.map_filter id (map (\<lambda>x. if P x then Some (f x) else None) xs) = map f (filter P xs)"
  by (induction xs) (auto simp: List.map_filter_simps)

lemma rotated_signed:
  assumes "ed25519_correct C sk" shows "keyring_signed rt C (rotated C sk fresh nextId es options now)"
proof -
  obtain pk where pk: "ed_import_public C (ed_public_spki C sk) = Inr pk"
    using assms by (auto simp: ed25519_correct_def)
  then show ?thesis
    by (auto simp: keyring_signed_def rotated_def fresh_epoch_def shortened_def sealed_verifies [OF assms pk])
qed

lemma nextKeyring_rotated:
  assumes "importRootSigningKey rt C rootPem = Inr sk" and "ed25519_correct C sk"
    and "next_of rt existing = Some nextId" and "\<forall>e \<in> set (entries_of existing). entry_ok e" and "schedule_fits options now"
  shows "nextKeyring rt C fresh existing rootPem options now =
    Inr (rotated C sk fresh nextId (entries_of existing) options now)"
proof -
  obtain a b where ab: "toISOString now = Some a" "toISOString (now + epochSeconds options * 1000) = Some b"
    using assms(5) toISOString_range unfolding schedule_fits_def by meson
  have "verifyKeyringSignatures rt C (rotated C sk fresh nextId (entries_of existing) options now) = Inr ()"
    using rotated_signed [OF assms(2)] by (simp add: verifyKeyringSignatures_iff)
  then show ?thesis
    using assms(1,3) ab retain_all [OF assms(4,5), of rt C sk]
    by (simp add: nextKeyring_def rootPublicKeySpki_def iso_text_def Let_def map_filter_if rotated_def fresh_epoch_def)
qed


lemma window_fresh:
  assumes "schedule_fits options now"
  shows "window (fresh_epoch C sk fresh nextId options now) now (now + epochSeconds options * 1000)"
  using assms toISOString_range [of now] toISOString_range [of "now + epochSeconds options * 1000"]
  by (auto simp: window_def fresh_epoch_def schedule_fits_def)

lemma window_leaving:
  assumes "entry_ok e" and "schedule_fits options now"
  obtains t0 where "window e t0 (ends e)" and "window (shortened C sk (leaving options now e) e) t0 (leaving options now e)"
    and "\<bar>leaving options now e\<bar> \<le> maxTime"
proof -
  obtain t0 t1 where w: "window e t0 t1" using assms(1) entry_ok_window by blast
  then have "\<bar>t1\<bar> \<le> maxTime" using toISOString_range [of t1] by (auto simp: window_def)
  then have "\<bar>leaving options now e\<bar> \<le> maxTime"
    using assms(2) by (simp add: leaving_def ends_window [OF w] schedule_fits_def min_def)
  then show ?thesis using w by (intro that [of t0]) (simp_all add: window_shortened ends_window [OF w])
qed

text \<open>A keyring that may be rotated: its epochs have begun and the next id is free.\<close>

definition rotatable :: "keyring option \<Rightarrow> string \<Rightarrow> millis \<Rightarrow> bool" where
  "rotatable existing nextId now \<longleftrightarrow>
     (case existing of
        None \<Rightarrow> nextId = ''0''
      | Some k \<Rightarrow>
          keyring_ok k \<and> nextId \<notin> set (map epoch_id (epochs k))
          \<and> (\<exists>n. current_epoch k = show_nat n \<and> n < max_safe \<and> nextId = show_nat (Suc n))
          \<and> (\<forall>e \<in> set (epochs k). \<exists>t0 t1. window e t0 t1 \<and> t0 \<le> now))"

lemma rotatable_next: "rotatable existing nextId now \<Longrightarrow> next_of rt existing = Some nextId"
  by (auto simp: rotatable_def next_epoch_id_def show_int_def nat_add_distrib split: option.splits)

lemma rotatable_entries: "rotatable existing nextId now \<Longrightarrow> \<forall>e \<in> set (entries_of existing). entry_ok e"
  by (auto simp: rotatable_def keyring_ok_def split: option.splits)

lemma rotatable_begun:
  "rotatable existing nextId now \<Longrightarrow> e \<in> set (entries_of existing) \<Longrightarrow> \<exists>t0 t1. window e t0 t1 \<and> t0 \<le> now"
  by (cases existing) (auto simp: rotatable_def)

lemma rotatable_ids:
  assumes "rotatable existing nextId now"
  shows "distinct (map epoch_id (entries_of existing))" and "nextId \<notin> set (map epoch_id (entries_of existing))"
    and "nextId \<noteq> []"
  using assms by (auto simp: rotatable_def keyring_ok_def split: option.splits)

lemma fresh_epoch_ok:
  assumes "schedule_fits options now" and "0 < epochSeconds options" and "ed25519_correct C sk" and "fst fresh \<noteq> []" and "nextId \<noteq> []"
  shows "entry_ok (fresh_epoch C sk fresh nextId options now)"
proof -
  let ?d = "\<lparr>epoch_id = nextId, not_before = the (toISOString now),
               not_after = the (toISOString (now + epochSeconds options * 1000)),
               alg = BLIND_SIGNATURE_SUITE, pubkey = bytesToBase64 (fst fresh)\<rparr>"
  have "toISOString now = Some (not_before ?d)" "toISOString (now + epochSeconds options * 1000) = Some (not_after ?d)"
    using assms(1) toISOString_range [of now] toISOString_range [of "now + epochSeconds options * 1000"]
    by (auto simp: schedule_fits_def)
  then show ?thesis
    unfolding fresh_epoch_def using assms by (intro entry_ok_sealed [of _ _ _ _ now "now + epochSeconds options * 1000"]) simp_all
qed

lemma shortened_ok:
  assumes "rotatable existing nextId now" and "schedule_fits options now" and "ed25519_correct C sk"
    and "e \<in> set (entries_of existing)" and "now < leaving options now e"
  shows "entry_ok (shortened C sk (leaving options now e) e)"
proof -
  have e: "entry_ok e" using rotatable_entries [OF assms(1)] assms(4) by blast
  obtain t0 where t0: "window e t0 (ends e)" "\<bar>leaving options now e\<bar> \<le> maxTime"
    by (rule window_leaving [OF e assms(2), of C sk])
  moreover have "t0 \<le> now"
    using rotatable_begun [OF assms(1,4)] window_unique [OF t0(1)] by blast
  ultimately show ?thesis using entry_ok_shortened [OF e assms(3)] assms(5) by simp
qed

lemma rotated_ok:
  assumes "rotatable existing nextId now" and "schedule_fits options now" and "0 < epochSeconds options"
    and "ed25519_correct C sk" and "fst fresh \<noteq> []"
  shows "keyring_ok (rotated C sk fresh nextId (entries_of existing) options now)"
proof -
  define es where "es = entries_of existing"
  have ids: "distinct (map epoch_id es)" "nextId \<notin> epoch_id ` set es" "nextId \<noteq> []"
    using rotatable_ids [OF assms(1)] by (simp_all add: es_def)
  have "\<forall>e \<in> set es. now < leaving options now e \<longrightarrow> entry_ok (shortened C sk (leaving options now e) e)"
    using shortened_ok [OF assms(1,2,4)] by (simp add: es_def)
  moreover have "entry_ok (fresh_epoch C sk fresh nextId options now)"
    using assms ids(3) by (intro fresh_epoch_ok) simp_all
  moreover have "ed_public_spki C sk \<noteq> []" using assms(4) by (simp add: ed25519_correct_def)
  moreover have "epoch_id (fresh_epoch C sk fresh nextId options now) = nextId" by (simp add: fresh_epoch_def)
  moreover have "distinct (map epoch_id (filter (\<lambda>e. now < leaving options now e) es))"
    using ids(1) by (rule distinct_map_filter)
  ultimately show ?thesis
    using ids unfolding es_def [symmetric]
    by (auto simp: keyring_ok_def rotated_def comp_def)
qed


subsection \<open>What the issuer may sign after a rotation\<close>

text \<open>
  The epochs of the old keyring, seen from the rotation on: an epoch is usable under the new keyring exactly
  while it was usable under the old one and the grace window is open.
\<close>

lemma usable_window_iff:
  assumes "keyring_ok k"
  shows "(\<exists>e. usableEpoch rt k i t = Some e \<and> P e) \<longleftrightarrow>
    (\<exists>e \<in> set (epochs k). epoch_id e = i \<and> P e \<and> (\<exists>t0 t1. window e t0 t1 \<and> t0 \<le> t \<and> t < t1))"
  using usableEpoch_iff [OF assms, of rt i t] by (auto simp: window_def)

lemma rotated_usable_old:
  assumes "rotatable (Some k) nextId now" and "schedule_fits options now" and "keyring_ok (rotated C sk fresh nextId (epochs k) options now)"
    and "now \<le> t" and "i \<noteq> nextId"
  shows "(\<exists>e'. usableEpoch rt (rotated C sk fresh nextId (epochs k) options now) i t = Some e'
            \<and> pubkey e' = pub \<and> private_key_pkcs8_pem e' = pem) \<longleftrightarrow>
    (\<exists>e. usableEpoch rt k i t = Some e \<and> pubkey e = pub \<and> private_key_pkcs8_pem e = pem)
    \<and> t < now + graceSeconds options * 1000"
proof -
  have k: "keyring_ok k" using assms(1) by (simp add: rotatable_def)
  let ?s = "\<lambda>e. shortened C sk (leaving options now e) e"
  have member: "(now < leaving options now e \<and> (\<exists>t0 t1. window (?s e) t0 t1 \<and> t0 \<le> t \<and> t < t1)) \<longleftrightarrow>
      (\<exists>t0 t1. window e t0 t1 \<and> t0 \<le> t \<and> t < t1) \<and> t < now + graceSeconds options * 1000"
    if "e \<in> set (epochs k)" for e
  proof -
    have "entry_ok e" using k that by (simp add: keyring_ok_def)
    then obtain t0 where w: "window e t0 (ends e)" "window (?s e) t0 (leaving options now e)"
      using window_leaving [OF _ assms(2)] by metis
    then have "(\<exists>t0 t1. window (?s e) t0 t1 \<and> t0 \<le> t \<and> t < t1) \<longleftrightarrow> t0 \<le> t \<and> t < leaving options now e"
      "(\<exists>t0 t1. window e t0 t1 \<and> t0 \<le> t \<and> t < t1) \<longleftrightarrow> t0 \<le> t \<and> t < ends e"
      using window_unique by blast+
    then show ?thesis using assms(4) by (auto simp: leaving_def)
  qed
  have "epoch_id (fresh_epoch C sk fresh nextId options now) = nextId" by (simp add: fresh_epoch_def)
  then have "(\<exists>e'. usableEpoch rt (rotated C sk fresh nextId (epochs k) options now) i t = Some e'
            \<and> pubkey e' = pub \<and> private_key_pkcs8_pem e' = pem) \<longleftrightarrow>
    (\<exists>e \<in> set (epochs k). epoch_id e = i \<and> pubkey e = pub \<and> private_key_pkcs8_pem e = pem
        \<and> now < leaving options now e \<and> (\<exists>t0 t1. window (?s e) t0 t1 \<and> t0 \<le> t \<and> t < t1))"
    unfolding usable_window_iff [OF assms(3), of rt i t "\<lambda>e. pubkey e = pub \<and> private_key_pkcs8_pem e = pem"]
    using assms(5) by (auto simp: rotated_def)
  also have "\<dots> \<longleftrightarrow> (\<exists>e \<in> set (epochs k). epoch_id e = i \<and> pubkey e = pub \<and> private_key_pkcs8_pem e = pem
        \<and> (\<exists>t0 t1. window e t0 t1 \<and> t0 \<le> t \<and> t < t1)) \<and> t < now + graceSeconds options * 1000"
    using member by blast
  finally show ?thesis
    unfolding usable_window_iff [OF k, of rt i t "\<lambda>e. pubkey e = pub \<and> private_key_pkcs8_pem e = pem"] by blast
qed

lemma rotated_usable_fresh:
  assumes "schedule_fits options now" and "keyring_ok (rotated C sk fresh nextId es options now)"
  shows "usableEpoch rt (rotated C sk fresh nextId es options now) nextId t =
    (if now \<le> t \<and> t < now + epochSeconds options * 1000 then Some (fresh_epoch C sk fresh nextId options now) else None)"
proof -
  let ?k = "rotated C sk fresh nextId es options now" and ?e = "fresh_epoch C sk fresh nextId options now"
  have "epoch_id ?e = nextId" "?e \<in> set (epochs ?k)" by (simp_all add: fresh_epoch_def rotated_def)
  then have "find_epoch ?k nextId = Some ?e" using find_epoch_iff [OF assms(2)] by blast
  moreover have "date_parse rt (not_before ?e) = Some now" "date_parse rt (not_after ?e) = Some (now + epochSeconds options * 1000)"
    using window_fresh [OF assms(1), of C sk fresh nextId] by (simp_all add: window_def date_parse_toISOString)
  ultimately show ?thesis by (simp add: usableEpoch_def)
qed


subsection \<open>The published text\<close>

lemma pad_digits_ascii: "list_all ascii (pad_digits w n)"
  by (induction w n rule: pad_digits.induct) (simp_all add: ascii_digit)

lemma toISOString_utf8: "toISOString t = Some s \<Longrightarrow> valid_utf8 s"
  using pad_digits_ascii
  by (intro valid_utf8_all_ascii)
    (auto simp: toISOString_def Let_def year_text_def rest_text_def ascii_def in_range_def split: if_splits)

lemma join_lines_ascii: "\<forall>l \<in> set ls. list_all ascii l \<Longrightarrow> list_all ascii (join_lines ls)"
  by (induction ls rule: join_lines.induct) (auto simp: newline_def ascii_def in_range_def)

lemma chunks64_ascii: "list_all ascii s \<Longrightarrow> l \<in> set (chunks64 s) \<Longrightarrow> list_all ascii l"
proof (induction s rule: chunks64.induct)
  case (1 s)
  then show ?case
    by (simp add: chunks64.simps [of s] list_all_iff split: if_splits) (meson in_set_dropD in_set_takeD)
qed

lemma derToPkcs8Pem_utf8 [simp]: "valid_utf8 (derToPkcs8Pem der)"
proof -
  have "list_all ascii PKCS8_HEADER" "list_all ascii PKCS8_FOOTER" "list_all ascii newline"
    by (simp_all add: PKCS8_HEADER_def PKCS8_FOOTER_def newline_def ascii_def in_range_def)
  moreover have "list_all ascii (join_lines (chunks64 (bytesToBase64 der)))"
    using chunks64_ascii [OF base64_ascii] by (intro join_lines_ascii) blast
  ultimately show ?thesis
    by (intro valid_utf8_all_ascii) (simp add: derToPkcs8Pem_def pem_text_def)
qed

text \<open>The texts of an entry that are not fixed by \<^const>\<open>entry_ok\<close> to be ASCII.\<close>

definition entry_text :: "epoch_entry \<Rightarrow> bool" where
  "entry_text e \<longleftrightarrow> valid_utf8 (epoch_id e) \<and> valid_utf8 (private_key_pkcs8_pem e)"

lemma entry_json_plain:
  assumes "entry_text e" and "window e t0 t1" and "alg e = BLIND_SIGNATURE_SUITE" and "pubkey e = bytesToBase64 der"
    and "root_sig e = bytesToBase64url sig"
  shows "json_plain (entry_json e)"
  using assms toISOString_utf8 [of t0 "not_before e"] toISOString_utf8 [of t1 "not_after e"]
  by (simp add: entry_json_def entry_text_def window_def keyring_literals)

lemma rotated_plain:
  assumes "\<forall>e \<in> set es. entry_ok e \<and> entry_text e" and "valid_utf8 nextId" and "schedule_fits options now"
  shows "json_plain (keyring_json (rotated C sk fresh nextId es options now))"
proof -
  let ?k = "rotated C sk fresh nextId es options now"
  have "json_plain (entry_json (fresh_epoch C sk fresh nextId options now))"
    using assms(2) by (intro entry_json_plain [OF _ window_fresh [OF assms(3)]])
      (simp_all add: entry_text_def fresh_epoch_def root_sig_sealed)
  moreover have "json_plain (entry_json (shortened C sk (leaving options now e) e))" if "e \<in> set es" for e
  proof -
    have e: "entry_ok e" "entry_text e" using assms(1) that by blast+
    obtain t0 where "window (shortened C sk (leaving options now e) e) t0 (leaving options now e)"
      by (rule window_leaving [OF e(1) assms(3), of C sk])
    moreover obtain der where "pubkey e = bytesToBase64 der" "alg e = BLIND_SIGNATURE_SUITE"
      using e(1) by (auto simp: entry_ok_def)
    ultimately show ?thesis
      using e(2) by (intro entry_json_plain) (simp_all add: entry_text_def, simp_all add: shortened_def root_sig_sealed)
  qed
  ultimately have "json_plain (entry_json e)" if "e \<in> set (epochs ?k)" for e
    using that by (auto simp: rotated_def)
  moreover have "current_epoch ?k = nextId" "root_public_key_spki ?k = bytesToBase64 (ed_public_spki C sk)"
    by (simp_all add: rotated_def)
  ultimately show ?thesis using assms(2) by (auto simp: keyring_json_def keyring_literals)
qed

lemma parseKeyring_json_inv:
  assumes "parseKeyring rt (keyring_json k) = Inr k'"
  shows "k' = k"
proof -
  have fields: "get_prop (keyring_json k) ''current_epoch'' = JStr (current_epoch k)"
    "get_prop (keyring_json k) ''root_public_key_spki'' = JStr (root_public_key_spki k)"
    "get_prop (keyring_json k) ''epochs'' = JArr (map entry_json (epochs k))"
    by (simp_all add: keyring_json_def)
  have entry: "entry_of (entry_json e) = e" for e by (simp add: entry_of_def entry_json_def)
  have "map_result (\<lambda>(index, entry). parseEpoch rt entry index) (enumerate n (map entry_json es)) = Inr es' \<Longrightarrow> es' = es" for n es es'
    by (induction es arbitrary: n es') (auto simp: entry dest: parseEpoch_Inr(2) split: sum.splits)
  with assms show ?thesis
    by (cases k') (auto simp: parseKeyring_def fields split: if_splits option.splits sum.splits)
qed

lemma accept_keyring_written:
  assumes "json_parse raw = Some (keyring_json k)" and "keyring_ok k" and "keyring_signed rt C k"
  shows "accept_keyring rt C raw = Inr k"
  using assms parseKeyring_keyring_json [OF assms(2), of rt] verifyKeyringSignatures_iff [of rt C k]
  by (simp add: accept_keyring_def)


text \<open>The whole rotation of a keyring file, from the text that was there to the text that replaces it.\<close>

lemma rotateEpoch_rotated:
  assumes "case contents of None \<Rightarrow> existing = None | Some raw \<Rightarrow> \<exists>k. existing = Some k \<and> read_keyring_text rt raw = Inr k"
    and "importRootSigningKey rt C rootPem = Inr sk" and "ed25519_correct C sk"
    and "rotatable existing nextId now" and "schedule_fits options now"
  shows "rotateEpoch rt C fresh contents rootPem options now =
    (let k = rotated C sk fresh nextId (entries_of existing) options now
     in Inr (k, json_pretty 0 (keyring_json k) @ [CHR 0x0A]))"
proof -
  have "(case contents of None \<Rightarrow> Inr None | Some raw \<Rightarrow> map_sum id Some (read_keyring_text rt raw)) = Inr existing"
    using assms(1) by (auto split: option.splits)
  then show ?thesis
    using nextKeyring_rotated [OF assms(2,3) rotatable_next [OF assms(4)] rotatable_entries [OF assms(4)] assms(5)]
    by (simp add: rotateEpoch_def Let_def)
qed

lemma rotatable_utf8: "rotatable existing nextId now \<Longrightarrow> valid_utf8 nextId"
  by (auto simp: rotatable_def in_range_def split: option.splits)

lemma rotatable_plain:
  assumes "rotatable existing nextId now" and "\<forall>e \<in> set (entries_of existing). entry_text e" and "schedule_fits options now"
  shows "json_plain (keyring_json (rotated C sk fresh nextId (entries_of existing) options now))"
  using assms rotatable_entries [OF assms(1)] rotatable_utf8 [OF assms(1)] by (intro rotated_plain) blast+

lemma rotation_accepted:
  assumes "rotatable existing nextId now" and "schedule_fits options now" and "0 < epochSeconds options"
    and "ed25519_correct C sk" and "fst fresh \<noteq> []" and "\<forall>e \<in> set (entries_of existing). entry_text e"
  defines "k \<equiv> rotated C sk fresh nextId (entries_of existing) options now"
  shows "accept_keyring rt C (json_pretty 0 (keyring_json k) @ [CHR 0x0A]) = Inr k"
    and "read_keyring_text rt (utf8_decode rt (base64ToBytes rt (js_string (encode_keyring k)))) = Inr k"
proof -
  have "keyring_ok k" unfolding k_def by (rule rotated_ok [OF assms(1-5)])
  moreover have "json_plain (keyring_json k)"
    unfolding k_def using rotatable_plain [OF assms(1,6,2)] .
  ultimately have k: "keyring_ok k" "keyring_signed rt C k" "json_plain (keyring_json k)"
    using rotated_signed [OF assms(4)] by (simp_all add: k_def)
  then show "accept_keyring rt C (json_pretty 0 (keyring_json k) @ [CHR 0x0A]) = Inr k"
    by (intro accept_keyring_written) simp_all
  show "read_keyring_text rt (utf8_decode rt (base64ToBytes rt (js_string (encode_keyring k)))) = Inr k"
    using k parseKeyring_keyring_json [OF k(1), of rt] pretty_utf8.chain_dec_enc [OF k(3), of rt 0]
    by (simp add: read_keyring_text_def encode_keyring_def)
qed


subsection \<open>Rotating in Vault\<close>

abbreviation (input) replace_member :: "'k \<Rightarrow> 'v \<Rightarrow> 'k \<times> 'v \<Rightarrow> 'k \<times> 'v" where
  "replace_member k v \<equiv> \<lambda>(k', v'). if k' = k then (k', v) else (k', v')"

lemma map_of_replace:
  "map_of (map (replace_member k v) kvs) l = (if l = k \<and> k \<in> fst ` set kvs then Some v else map_of kvs l)"
proof (induction kvs)
  case (Cons kv kvs)
  then show ?case by (cases kv; cases "l = k"; cases "fst kv = l"; cases "fst kv = k") simp_all
qed simp

lemma map_of_put: "map_of (obj_put kvs k v) = (map_of kvs)(k \<mapsto> v)"
proof (rule ext)
  fix l
  show "map_of (obj_put kvs k v) l = ((map_of kvs)(k \<mapsto> v)) l"
  proof (cases "k \<in> fst ` set kvs")
    case True
    then have "map_of (obj_put kvs k v) l = map_of (map (replace_member k v) kvs) l" by (simp add: obj_put_def)
    with True show ?thesis unfolding map_of_replace by simp
  next
    case False
    then have "map_of (obj_put kvs k v) l = map_of (kvs @ [(k, v)]) l" by (simp add: obj_put_def)
    moreover have "map_of kvs k = None" using False by (simp add: map_of_eq_None_iff)
    ultimately show ?thesis by (simp add: map_add_def split: option.split)
  qed
qed

lemma get_prop_put: "get_prop (JObj (obj_put kvs k v)) l = (if l = k then v else get_prop (JObj kvs) l)"
  by (simp add: map_of_put)

lemma put_plain:
  assumes "json_plain (JObj kvs)" and "valid_utf8 k" and "json_plain v"
  shows "json_plain (JObj (obj_put kvs k v))"
proof (cases "k \<in> fst ` set kvs")
  case True
  then have "obj_put kvs k v = map (replace_member k v) kvs" by (simp add: obj_put_def)
  moreover have "map fst (map (replace_member k v) kvs) = map fst kvs" by (induction kvs) auto
  moreover have "valid_utf8 (fst (replace_member k v kv)) \<and> json_plain (snd (replace_member k v kv))" if "kv \<in> set kvs" for kv
    using assms that by (cases kv) auto
  ultimately show ?thesis using assms(1) by (simp only: json_plain.simps set_map ball_simps) blast
next
  case False
  then have "obj_put kvs k v = kvs @ [(k, v)]" by (simp add: obj_put_def)
  with False assms show ?thesis by simp
qed

lemma rotateInVault_outcome:
  assumes "kv2 V url (vault_token opts) data version" and "dataUrl opts = Inr url"
    and "data v = JObj kvs" and "json_plain (data v)" and "valid_utf8 field"
    and "existing_in_vault rt (get_prop (data v) field) = Inr existing"
    and "nextKeyring rt C fresh existing rootPem options now = Inr k"
  shows "version w = version v \<Longrightarrow>
      \<exists>w'. rotateInVault rt C V fresh opts field rootPem options now (v, w) = (Inr k, w')
         \<and> data w' = JObj (obj_put kvs field (encode_keyring k)) \<and> version w' = Suc (version v)" (is "_ \<Longrightarrow> ?fresh")
    and "version w \<noteq> version v \<Longrightarrow>
      \<exists>e. rotateInVault rt C V fresh opts field rootPem options now (v, w) = (Inl e, w)" (is "_ \<Longrightarrow> ?stale")
proof -
  let ?new = "JObj (obj_put kvs field (encode_keyring k))"
  have read: "readSecret rt V opts v = Inr (data v, show_nat (version v))"
    using assms(3) by (intro readSecret_kv2 [OF assms(1,2,4)]) simp
  have new: "json_plain ?new"
    using assms(3-5) by (intro put_plain) (simp_all add: encode_keyring_def)
  have step: "rotateInVault rt C V fresh opts field rootPem options now (v, w) =
      (case writeSecret V opts ?new (show_nat (version v)) w of (Inl e, v') \<Rightarrow> (Inl e, v') | (Inr _, v') \<Rightarrow> (Inr k, v'))"
    using read assms(3,6,7) by (simp add: rotateInVault_def)
  { assume "version w = version v"
    then show ?fresh using writeSecret_kv2 [OF assms(1,2) new, of w] step by fastforce }
  { assume "version w \<noteq> version v"
    then show ?stale using writeSecret_stale [OF assms(1,2) new, of "version v" w] step by fastforce }
qed


lemma existing_in_vault_written:
  assumes "read_keyring_text rt (utf8_decode rt (base64ToBytes rt (js_string (encode_keyring k)))) = Inr k"
  shows "existing_in_vault rt (encode_keyring k) = Inr (Some k)"
proof -
  have "json_parse [] = None" by (simp add: json_parse_def read_value.simps skip_ws_def)
  then have "read_keyring_text rt (utf8_decode rt []) \<noteq> Inr k" by (simp add: read_keyring_text_def utf8_decode_def)
  with assms have "utf8_encode (json_pretty 0 (keyring_json k)) \<noteq> []" by (auto simp: encode_keyring_def)
  with assms show ?thesis by (simp add: existing_in_vault_def encode_keyring_def)
qed

end
