(* ===== verification/RotationFiles.thy ===== *)
theory RotationFiles
  imports Rotation Claims
begin

text \<open>
  The rotation tool and the development keys on disk: the file half of \<open>scripts/rotate-epoch.ts\<close> and
  \<open>scripts/generate-dev-keys.ts\<close>.

  The file system is a map from paths to contents; directories are implied. A tool runs a list of operations, and
  \<open>fs_seen\<close> is what anyone else may see of the file system while it runs, or after it was killed: a write goes
  through every prefix of the new contents, a rename is one step.
\<close>

type_synonym files = "string \<rightharpoonup> string"

datatype fs_op = Mkdir string | WriteFile string string | Rename string string

fun fs_apply :: "fs_op \<Rightarrow> files \<Rightarrow> files" where
  "fs_apply (Mkdir d) f = f"
| "fs_apply (WriteFile p c) f = f(p \<mapsto> c)"
| "fs_apply (Rename p q) f = (f(q := f p))(p := None)"

fun fs_during :: "fs_op \<Rightarrow> files \<Rightarrow> files set" where
  "fs_during (Mkdir d) f = {f}"
| "fs_during (WriteFile p c) f = insert f ((\<lambda>n. f(p \<mapsto> take n c)) ` {0..length c})"
| "fs_during (Rename p q) f = {f}"

definition fs_run :: "fs_op list \<Rightarrow> files \<Rightarrow> files" where
  "fs_run ops f = foldl (\<lambda>f op. fs_apply op f) f ops"

fun fs_seen :: "fs_op list \<Rightarrow> files \<Rightarrow> files set" where
  "fs_seen [] f = {f}"
| "fs_seen (op # ops) f = fs_during op f \<union> fs_seen ops (fs_apply op f)"

subsection \<open>Writing and rotating\<close>

definition fs_dirname :: "string \<Rightarrow> string" where
  "fs_dirname path = rev (drop 1 (dropWhile (\<lambda>c. c \<noteq> CHR ''/'') (rev path)))"

definition temporary_path :: "string \<Rightarrow> string" where
  "temporary_path path = path @ ''.tmp''"

definition writeAtomically :: "string \<Rightarrow> string \<Rightarrow> fs_op list" where
  "writeAtomically path contents =
     [Mkdir (fs_dirname path), WriteFile (temporary_path path) contents, Rename (temporary_path path) path]"

record rotate_options =
  ro_keyringPath :: string
  ro_rootKeyPath :: string
  ro_schedule :: rotate_schedule

text \<open>\<open>rotateEpoch\<close> on the disk: the keyring, and the operations that publish it.\<close>

definition rotate_file ::
  "runtime \<Rightarrow> ('sk, 'pk) ed25519 \<Rightarrow> bytes \<times> bytes \<Rightarrow> rotate_options \<Rightarrow> millis \<Rightarrow> files \<Rightarrow> failure + keyring \<times> fs_op list" where
  "rotate_file rt C fresh opts now f =
     (case (case f (ro_keyringPath opts) of None \<Rightarrow> Inr None | Some raw \<Rightarrow> map_sum id Some (read_keyring_text rt raw)) of
        Inl e \<Rightarrow> Inl e
      | Inr existing \<Rightarrow>
          (case f (ro_rootKeyPath opts) of
             None \<Rightarrow> Inl (Error ''ENOENT: no such file or directory'')
           | Some rootPem \<Rightarrow>
               (case nextKeyring rt C fresh existing rootPem (ro_schedule opts) now of
                  Inl e \<Rightarrow> Inl e
                | Inr k \<Rightarrow> Inr (k, writeAtomically (ro_keyringPath opts) (json_pretty 0 (keyring_json k) @ [CHR 0x0A])))))"

definition generateRootKey :: "bytes \<Rightarrow> string \<Rightarrow> fs_op list" where
  "generateRootKey pkcs8 path = writeAtomically path (derToPkcs8Pem pkcs8)"

subsection \<open>Development keys\<close>

text \<open>The bytes of the key pairs one run of the tool generates.\<close>

record dev_pairs =
  dp_root_pkcs8 :: bytes
  dp_epoch :: "bytes \<times> bytes"
  dp_proxy_pkcs8 :: bytes
  dp_proxy_spki :: bytes

definition KEYS_DIR :: "string \<Rightarrow> string" where "KEYS_DIR repo = repo @ ''/config/keys''"
definition DEV_KEYRING :: "string \<Rightarrow> string" where "DEV_KEYRING repo = KEYS_DIR repo @ ''/keyring.json''"
definition DEV_ROOT_KEY :: "string \<Rightarrow> string" where "DEV_ROOT_KEY repo = KEYS_DIR repo @ ''/root.pem''"
definition DEV_PROXY_KEY_PEM :: "string \<Rightarrow> string" where "DEV_PROXY_KEY_PEM repo = KEYS_DIR repo @ ''/proxy.pem''"
definition DEV_PROXY_PUBLIC_PEM :: "string \<Rightarrow> string" where
  "DEV_PROXY_PUBLIC_PEM repo = KEYS_DIR repo @ ''/proxy.pub.pem''"

definition dev_schedule :: rotate_schedule where
  "dev_schedule = \<lparr>epochSeconds = 30 * 86400, graceSeconds = 86400\<rparr>"

definition generateDevKeys ::
  "runtime \<Rightarrow> ('sk, 'pk) ed25519 \<Rightarrow> dev_pairs \<Rightarrow> string \<Rightarrow> millis \<Rightarrow> files \<Rightarrow> (failure + unit) \<times> files" where
  "generateDevKeys rt C pairs repo now f =
     (let f1 = fs_run (Mkdir (fs_dirname (DEV_KEYRING repo)) # generateRootKey (dp_root_pkcs8 pairs) (DEV_ROOT_KEY repo)) f
      in case rotate_file rt C (dp_epoch pairs)
                \<lparr>ro_keyringPath = DEV_KEYRING repo, ro_rootKeyPath = DEV_ROOT_KEY repo, ro_schedule = dev_schedule\<rparr> now f1 of
           Inl e \<Rightarrow> (Inl e, f1)
         | Inr (_, ops) \<Rightarrow>
             (Inr (), fs_run (ops @ [WriteFile (DEV_PROXY_KEY_PEM repo) (derToPkcs8Pem (dp_proxy_pkcs8 pairs)),
                                     WriteFile (DEV_PROXY_PUBLIC_PEM repo) (derToSpkiPem (dp_proxy_spki pairs))]) f1))"

definition ensureDevKeys ::
  "runtime \<Rightarrow> ('sk, 'pk) ed25519 \<Rightarrow> dev_pairs \<Rightarrow> string \<Rightarrow> millis \<Rightarrow> bool \<Rightarrow> files \<Rightarrow> (failure + bool) \<times> files" where
  "ensureDevKeys rt C pairs repo now force f =
     (let present = list_all (\<lambda>p. f (p repo) \<noteq> None) [DEV_KEYRING, DEV_ROOT_KEY, DEV_PROXY_KEY_PEM, DEV_PROXY_PUBLIC_PEM]
      in if \<not> force \<and> present then (Inr False, f)
         else (case generateDevKeys rt C pairs repo now f of
                 (Inl e, f') \<Rightarrow> (Inl e, f') | (Inr _, f') \<Rightarrow> (Inr True, f')))"

subsection \<open>What a reader sees\<close>

lemma temporary_path_neq [simp]: "temporary_path p \<noteq> p" "p \<noteq> temporary_path p"
  by (simp_all add: temporary_path_def)

text \<open>An atomic write: at the path itself, only the old contents and the whole new contents are ever seen; no other
  file but the temporary one changes.\<close>

lemma writeAtomically_seen:
  assumes "g \<in> fs_seen (writeAtomically path c) f"
  shows "g path = f path \<or> g path = Some c" and "q \<notin> {path, temporary_path path} \<Longrightarrow> g q = f q"
proof -
  have "g path = f path \<or> g path = Some c" if "g \<in> {f, f(temporary_path path \<mapsto> c), fs_run (writeAtomically path c) f}"
    using that by (auto simp: fs_run_def writeAtomically_def)
  with assms show "g path = f path \<or> g path = Some c" by (auto simp: writeAtomically_def)
  show "g q = f q" if "q \<notin> {path, temporary_path path}" using assms that by (auto simp: writeAtomically_def)
qed

lemma writeAtomically_run: "fs_run (writeAtomically path c) f = (f(path \<mapsto> c))(temporary_path path := None)"
  by (simp add: fs_run_def writeAtomically_def fun_upd_twist)

lemma fs_run_append [simp]: "fs_run (xs @ ys) f = fs_run ys (fs_run xs f)"
  by (simp add: fs_run_def)

lemma rotate_file_rotates:
  assumes "f (ro_rootKeyPath opts) = Some rootPem"
    and "rotateEpoch rt C fresh (f (ro_keyringPath opts)) rootPem (ro_schedule opts) now = Inr (k, written)"
  shows "rotate_file rt C fresh opts now f = Inr (k, writeAtomically (ro_keyringPath opts) written)"
  using assms by (auto simp: rotate_file_def rotateEpoch_def split: sum.splits option.splits)

lemma rotate_file_outcome:
  assumes "f (ro_rootKeyPath opts) = Some rootPem" and "rotate_file rt C fresh opts now f = Inr (k, ops)"
  obtains written where "rotateEpoch rt C fresh (f (ro_keyringPath opts)) rootPem (ro_schedule opts) now = Inr (k, written)"
    and "ops = writeAtomically (ro_keyringPath opts) written"
  using assms by (auto simp: rotate_file_def rotateEpoch_def split: sum.splits option.splits)

lemma dev_paths_distinct [simp]:
  "DEV_KEYRING r \<noteq> DEV_ROOT_KEY r" "DEV_KEYRING r \<noteq> DEV_PROXY_KEY_PEM r" "DEV_KEYRING r \<noteq> DEV_PROXY_PUBLIC_PEM r"
  "DEV_ROOT_KEY r \<noteq> DEV_PROXY_KEY_PEM r" "DEV_ROOT_KEY r \<noteq> DEV_PROXY_PUBLIC_PEM r" "DEV_PROXY_KEY_PEM r \<noteq> DEV_PROXY_PUBLIC_PEM r"
  "DEV_ROOT_KEY r \<noteq> DEV_KEYRING r"
  "DEV_KEYRING r \<noteq> temporary_path (DEV_ROOT_KEY r)" "DEV_ROOT_KEY r \<noteq> temporary_path (DEV_KEYRING r)"
  by (simp_all add: DEV_KEYRING_def DEV_ROOT_KEY_def DEV_PROXY_KEY_PEM_def DEV_PROXY_PUBLIC_PEM_def KEYS_DIR_def temporary_path_def)

text \<open>The files after the tool ran, given that the rotation it contains succeeds.\<close>

lemma generateDevKeys_files:
  assumes "rotateEpoch rt C (dp_epoch pairs) (f (DEV_KEYRING repo)) (derToPkcs8Pem (dp_root_pkcs8 pairs)) dev_schedule now = Inr (k, written)"
  obtains g where "generateDevKeys rt C pairs repo now f = (Inr (), g)"
    and "g (DEV_KEYRING repo) = Some written" and "g (DEV_ROOT_KEY repo) = Some (derToPkcs8Pem (dp_root_pkcs8 pairs))"
    and "g (DEV_PROXY_KEY_PEM repo) = Some (derToPkcs8Pem (dp_proxy_pkcs8 pairs))"
    and "g (DEV_PROXY_PUBLIC_PEM repo) = Some (derToSpkiPem (dp_proxy_spki pairs))"
proof -
  let ?opts = "\<lparr>ro_keyringPath = DEV_KEYRING repo, ro_rootKeyPath = DEV_ROOT_KEY repo, ro_schedule = dev_schedule\<rparr>"
  define f1 where "f1 = fs_run (Mkdir (fs_dirname (DEV_KEYRING repo)) # generateRootKey (dp_root_pkcs8 pairs) (DEV_ROOT_KEY repo)) f"
  have f1: "f1 = (f(DEV_ROOT_KEY repo \<mapsto> derToPkcs8Pem (dp_root_pkcs8 pairs)))(temporary_path (DEV_ROOT_KEY repo) := None)"
    using writeAtomically_run [of "DEV_ROOT_KEY repo" "derToPkcs8Pem (dp_root_pkcs8 pairs)" f]
    by (simp add: f1_def generateRootKey_def fs_run_def)
  have "rotate_file rt C (dp_epoch pairs) ?opts now f1 = Inr (k, writeAtomically (DEV_KEYRING repo) written)"
    using rotate_file_rotates [of f1 ?opts "derToPkcs8Pem (dp_root_pkcs8 pairs)"] assms by (simp add: f1)
  then have "generateDevKeys rt C pairs repo now f = (Inr (), fs_run (writeAtomically (DEV_KEYRING repo) written
      @ [WriteFile (DEV_PROXY_KEY_PEM repo) (derToPkcs8Pem (dp_proxy_pkcs8 pairs)),
         WriteFile (DEV_PROXY_PUBLIC_PEM repo) (derToSpkiPem (dp_proxy_spki pairs))]) f1)"
    by (simp add: generateDevKeys_def Let_def flip: f1_def)
  then show ?thesis
    by (rule that) (simp_all add: writeAtomically_run fs_run_def [of "[_, _]"] f1)
qed

end
