(* ===== verification/HarnessClaim.thy ===== *)
theory HarnessClaim
  imports Claims Http
begin

text \<open>
  The buyer harness, \<open>packages/buyer-harness/src\<close>: \<open>claim.ts\<close> and \<open>payment.ts\<close>. The harness builds the proxy's
  payment claim with its own code, so that it can judge an issuer; that the two sides agree is a theorem here.

  The random bytes of a stubbed receipt are arguments.
\<close>

datatype harness_error =
    IssuerRequestError string "nat option" jsval
  | PaymentRequiredError string
  | HarnessTypeError string
  | HarnessError string  \<comment> \<open>any other \<open>Error\<close>, by its message\<close>

subsection \<open>The claim\<close>

record claim_fields =
  cf_payment_ref :: string
  cf_amount :: string
  cf_route_id :: string

definition harness_canonicalClaimPayload :: "claim_fields \<Rightarrow> bytes" where
  "harness_canonicalClaimPayload f =
     utf8_encode (json_stringify (JObj
       [(''amount'', JStr (cf_amount f)), (''payment_ref'', JStr (cf_payment_ref f)), (''route_id'', JStr (cf_route_id f))]))"

definition importProxySigningKey :: "runtime \<Rightarrow> ('sk, 'pk) ed25519 \<Rightarrow> string \<Rightarrow> harness_error + 'sk" where
  "importProxySigningKey rt C pem =
     (let body = trim pem in
      if \<not> startsWith body PKCS8_HEADER \<or> \<not> endsWith body PKCS8_FOOTER
      then Inl (HarnessError ''expected an unencrypted PKCS#8 private key PEM'')
      else let der = base64ToBytes rt (remove_ws (drop (length PKCS8_HEADER)
                       (take (length body - length PKCS8_FOOTER) body)))
           in case ed_import_private C der of Inl m \<Rightarrow> Inl (HarnessError m) | Inr k \<Rightarrow> Inr k)"

definition signPaymentClaim :: "('sk, 'pk) ed25519 \<Rightarrow> claim_fields \<Rightarrow> 'sk \<Rightarrow> string" where
  "signPaymentClaim C f signingKey =
     (let signature = ed_sign C signingKey (harness_canonicalClaimPayload f)
      in bytesToBase64url (utf8_encode (json_stringify (JObj
           [(''payment_ref'', JStr (cf_payment_ref f)), (''amount'', JStr (cf_amount f)),
            (''route_id'', JStr (cf_route_id f)), (''proxy_sig'', JStr (bytesToBase64url signature))]))))"

definition encodePaymentClaim :: "string \<Rightarrow> string" where
  "encodePaymentClaim paymentRef =
     bytesToBase64url (utf8_encode (json_stringify (JObj [(''payment_ref'', JStr paymentRef)])))"

subsection \<open>Payment providers\<close>

definition PAYMENT_RECEIPT_HEADER :: string where "PAYMENT_RECEIPT_HEADER = ''x-payment''"

record payment_provider =
  pp_name :: string
  pp_initialHeaders :: headers
  pp_pay :: "jsval \<Rightarrow> harness_error + headers"

definition StubClaimProvider :: "string \<Rightarrow> payment_provider" where
  "StubClaimProvider claimHeaderValue =
     \<lparr>pp_name = ''stub-claim'', pp_initialHeaders = [(''x-payment-claim'', claimHeaderValue)],
      pp_pay = (\<lambda>_. Inl (PaymentRequiredError
        ''issuer returned 402 but --payment stub-claim cannot pay; use --payment stub-receipt behind a proxy''))\<rparr>"

definition StubReceiptProvider :: "string \<Rightarrow> string \<Rightarrow> payment_provider" where
  "StubReceiptProvider payer txHash =
     \<lparr>pp_name = ''stub-receipt'', pp_initialHeaders = [],
      pp_pay = (\<lambda>requirement. Inr
        [(PAYMENT_RECEIPT_HEADER, bytesToBase64url (utf8_encode (json_stringify (JObj
            [(''payer'', JStr payer), (''tx_hash'', JStr txHash), (''amount'', get_prop requirement ''amount''),
             (''route_id'', get_prop requirement ''route_id''), (''nonce'', get_prop requirement ''nonce'')]))))])\<rparr>"

definition NoPaymentProvider :: payment_provider where
  "NoPaymentProvider =
     \<lparr>pp_name = ''none'', pp_initialHeaders = [],
      pp_pay = (\<lambda>_. Inl (PaymentRequiredError ''payment required, and --payment none was requested''))\<rparr>"

definition parsePaymentRequirement :: "jsval \<Rightarrow> jsval" where
  "parsePaymentRequirement body =
     (if \<not> is_object body then JObj []
      else let payment = get_prop body ''payment'' in if is_object payment then payment else JObj [])"

definition createStubClaimProvider ::
  "runtime \<Rightarrow> ('sk, 'pk) ed25519 \<Rightarrow> claim_fields \<Rightarrow> string \<Rightarrow> harness_error + payment_provider" where
  "createStubClaimProvider rt C f proxySigningKeyPem =
     (case importProxySigningKey rt C proxySigningKeyPem of
        Inl e \<Rightarrow> Inl e | Inr key \<Rightarrow> Inr (StubClaimProvider (signPaymentClaim C f key)))"

subsection \<open>What the issuer makes of a claim\<close>

lemma payload_agrees:
  "harness_canonicalClaimPayload f = canonicalClaimPayload (cf_payment_ref f) (cf_amount f) (cf_route_id f)"
  by (simp add: harness_canonicalClaimPayload_def canonicalClaimPayload_def claim_json_def)

text \<open>The texts of a claim a buyer can name: not empty, and free of lone surrogates.\<close>

definition claim_texts :: "claim_fields \<Rightarrow> bool" where
  "claim_texts f \<longleftrightarrow>
     cf_payment_ref f \<noteq> [] \<and> cf_amount f \<noteq> [] \<and> cf_route_id f \<noteq> []
     \<and> valid_utf8 (cf_payment_ref f) \<and> valid_utf8 (cf_amount f) \<and> valid_utf8 (cf_route_id f)"

lemma signed_claim_parsed:
  assumes "claim_texts f"
  shows "parsePaymentClaim rt (Some (signPaymentClaim C f sk)) =
    Inr \<lparr>payment_ref = cf_payment_ref f, amount = JStr (cf_amount f), route_id = JStr (cf_route_id f),
         proxy_sig = JStr (bytesToBase64url (ed_sign C sk (harness_canonicalClaimPayload f)))\<rparr>"
  unfolding signPaymentClaim_def Let_def
  by (subst parsePaymentClaim_encoded [where ref = "cf_payment_ref f"]) (use assms in \<open>simp_all add: claim_texts_def\<close>)

lemma signed_claim_verifies:
  assumes "claim_texts f" and "\<forall>m. ed_sign C sk m \<noteq> [] \<and> ed_verify C pk (ed_sign C sk m) m"
  shows "verify_claim rt C config (Some pk)
      \<lparr>payment_ref = cf_payment_ref f, amount = JStr (cf_amount f), route_id = JStr (cf_route_id f),
       proxy_sig = JStr (bytesToBase64url (ed_sign C sk (harness_canonicalClaimPayload f)))\<rparr> = Inr ()
    \<longleftrightarrow> decimalEquals (cf_amount f) (bundlePrice config)"
  using assms by (simp add: verify_claim_Inr claim_texts_def payload_agrees)

end
