(* ===== verification/HarnessClient.thy ===== *)
theory HarnessClient
  imports HarnessClaim
begin

text \<open>
  \<open>client.ts\<close> of the buyer harness: request, 402, pay once, retry. The network is the argument \<open>fetch\<close> over a state
  \<open>'w\<close>. Next to its result a call returns the trace of what it did, requests sent and payments made, in order.
\<close>

datatype payment_flow = direct | retry_402

datatype client_event = Sent headers | Paid jsval

record 'w client_options =
  co_rt :: runtime
  co_baseUrl :: string
  co_idempotencyKey :: "string option"
  co_payment :: payment_provider
  co_fetch :: "'w fetch"

text \<open>\<open>Object.keys(v).length\<close> of an object or array.\<close>

fun key_count :: "jsval \<Rightarrow> nat" where
  "key_count (JObj kvs) = length kvs"
| "key_count (JArr vs) = length vs"
| "key_count _ = 0"

record init =
  in_method :: string
  in_headers :: headers
  in_body :: "string option"

definition base_url :: "'w client_options \<Rightarrow> string" where
  "base_url opts = rev (dropWhile (\<lambda>c. c = CHR ''/'') (rev (co_baseUrl opts)))"

definition send :: "'w client_options \<Rightarrow> string \<Rightarrow> init \<Rightarrow> headers \<Rightarrow> 'w \<Rightarrow> (harness_error + http_response) \<times> 'w" where
  "send opts path i extra w =
     (case co_fetch opts (in_method i) (base_url opts @ path) (spread_headers (in_headers i) extra) (in_body i) w of
        (Inl cause, w') \<Rightarrow> (Inl (IssuerRequestError (path @ '' unreachable: '' @ cause) None JUndefined), w')
      | (Inr r, w') \<Rightarrow> (Inr r, w'))"

definition readJson :: "runtime \<Rightarrow> http_response \<Rightarrow> harness_error + jsval" where
  "readJson rt r =
     (case json_parse (http_body r) of
        None \<Rightarrow> Inl (IssuerRequestError (''response was not valid JSON: '' @ json_message rt (http_body r)) None JUndefined)
      | Some v \<Rightarrow> Inr v)"

definition readJsonOrNull :: "http_response \<Rightarrow> jsval" where
  "readJsonOrNull r = (case json_parse (http_body r) of None \<Rightarrow> JNull | Some v \<Rightarrow> v)"

text \<open>Code and message of an error body.\<close>

definition errorFrom :: "jsval \<Rightarrow> jsval \<times> jsval" where
  "errorFrom body = (let error = get_prop body ''error'' in (get_prop error ''code'', get_prop error ''message''))"

definition returned :: "runtime \<Rightarrow> string \<Rightarrow> nat \<Rightarrow> jsval \<Rightarrow> harness_error" where
  "returned rt path status body =
     (let (code, message) = errorFrom body
      in IssuerRequestError
           (path @ '' returned '' @ show_nat status
             @ (if falsy code then [] else CHR '' '' # js_text rt code)
             @ (if falsy message then [] else '': '' @ js_text rt message))
           (Some status) code)"

definition finish :: "runtime \<Rightarrow> string \<Rightarrow> http_response \<Rightarrow> harness_error + http_response" where
  "finish rt path r = (if response_ok r then Inr r else Inl (returned rt path (http_code r) (readJsonOrNull r)))"

definition request_flow ::
  "'w client_options \<Rightarrow> string \<Rightarrow> init \<Rightarrow> payment_flow \<times> 'w
     \<Rightarrow> (harness_error + http_response) \<times> client_event list \<times> payment_flow \<times> 'w"
where
  "request_flow opts path i fw =
     (let P = co_payment opts; rt = co_rt opts; first = pp_initialHeaders P in
      case send opts path i first (snd fw) of
        (Inl e, w1) \<Rightarrow> (Inl e, [Sent first], fst fw, w1)
      | (Inr r1, w1) \<Rightarrow>
          if http_code r1 \<noteq> 402 then (finish rt path r1, [Sent first], fst fw, w1)
          else
            (let requirement = parsePaymentRequirement (readJsonOrNull r1) in
             if key_count requirement = 0
             then (Inl (returned rt path 402 (readJsonOrNull r1)), [Sent first], fst fw, w1)
             else (case pp_pay P requirement of
                     Inl e \<Rightarrow> (Inl e, [Sent first, Paid requirement], retry_402, w1)
                   | Inr extra \<Rightarrow>
                       (case send opts path i extra w1 of
                          (Inl e, w2) \<Rightarrow> (Inl e, [Sent first, Paid requirement, Sent extra], retry_402, w2)
                        | (Inr r2, w2) \<Rightarrow>
                            (if http_code r2 = 402
                             then Inl (IssuerRequestError (path @ '' still returned 402 after paying with '' @ pp_name P) (Some 402) JUndefined)
                             else finish rt path r2,
                             [Sent first, Paid requirement, Sent extra], retry_402, w2)))))"

definition get_init :: init where
  "get_init = \<lparr>in_method = ''GET'', in_headers = [], in_body = None\<rparr>"

definition keyDocument ::
  "'w client_options \<Rightarrow> payment_flow \<times> 'w \<Rightarrow> (harness_error + jsval) \<times> client_event list \<times> payment_flow \<times> 'w" where
  "keyDocument opts fw =
     (case request_flow opts ''/v1/keys/current'' get_init fw of
        (Inl e, tr, fw') \<Rightarrow> (Inl e, tr, fw')
      | (Inr r, tr, fw') \<Rightarrow> (readJson (co_rt opts) r, tr, fw'))"

definition bundle_init :: "'w client_options \<Rightarrow> jsval \<Rightarrow> string list \<Rightarrow> init" where
  "bundle_init opts epoch blanks =
     \<lparr>in_method = ''POST'',
      in_headers = (''content-type'', ''application/json'')
        # (case co_idempotencyKey opts of None \<Rightarrow> [] | Some k \<Rightarrow> if k = [] then [] else [(''idempotency-key'', k)]),
      in_body = Some (json_stringify (JObj [(''epoch'', epoch), (''blinded_blanks'', JArr (map JStr blanks))]))\<rparr>"

definition client_purchaseBundle ::
  "'w client_options \<Rightarrow> jsval \<Rightarrow> string list \<Rightarrow> payment_flow \<times> 'w
     \<Rightarrow> (harness_error + jsval) \<times> client_event list \<times> payment_flow \<times> 'w" where
  "client_purchaseBundle opts epoch blanks fw =
     (case request_flow opts ''/v1/bundles'' (bundle_init opts epoch blanks) fw of
        (Inl e, tr, fw') \<Rightarrow> (Inl e, tr, fw')
      | (Inr r, tr, fw') \<Rightarrow> (readJson (co_rt opts) r, tr, fw'))"

subsection \<open>At most one payment\<close>

fun is_paid :: "client_event \<Rightarrow> bool" where
  "is_paid (Paid _) = True"
| "is_paid (Sent _) = False"

text \<open>The traces of one request: one request, or a payment between two.\<close>

lemma request_trace:
  assumes "request_flow opts path i (f, w) = (r, tr, f', w')"
  obtains (unpaid) "tr = [Sent (pp_initialHeaders (co_payment opts))]" and "f' = f"
  | (failed) r1 w1 q e where "send opts path i (pp_initialHeaders (co_payment opts)) w = (Inr r1, w1)" and "http_code r1 = 402"
      and "q = parsePaymentRequirement (readJsonOrNull r1)" and "key_count q \<noteq> 0"
      and "pp_pay (co_payment opts) q = Inl e" and "r = Inl e" and "w' = w1"
      and "tr = [Sent (pp_initialHeaders (co_payment opts)), Paid q]"
  | (paid) r1 w1 q extra where "send opts path i (pp_initialHeaders (co_payment opts)) w = (Inr r1, w1)" and "http_code r1 = 402"
      and "q = parsePaymentRequirement (readJsonOrNull r1)" and "key_count q \<noteq> 0" and "f' = retry_402"
      and "pp_pay (co_payment opts) q = Inr extra"
      and "tr = [Sent (pp_initialHeaders (co_payment opts)), Paid q, Sent extra]"
      and "snd (send opts path i extra w1) = w'"
  using assms
  by (simp add: request_flow_def Let_def split: prod.splits sum.splits if_splits)

lemma request_pays_once:
  assumes "request_flow opts path i fw = (r, tr, fw')"
  shows "length (filter is_paid tr) \<le> 1"
proof -
  obtain f w f' w' where "request_flow opts path i (f, w) = (r, tr, f', w')" using assms by (metis prod.exhaust)
  then show ?thesis by (cases rule: request_trace) simp_all
qed

end
