(* ===== verification/Server.thy ===== *)
theory Server
  imports Claims Entitlements Http
begin

text \<open>
  The issuer as a web server: the controllers (\<open>bundles.controller.ts\<close>, \<open>entitlements.controller.ts\<close>,
  \<open>keys.controller.ts\<close>, \<open>health.controller.ts\<close>), which pass headers and body to the services and whose results
  become responses.

  What Nest does around them is the record \<open>nest\<close>: matching a request to a route, parsing the body, and answering
  with what a handler returned or threw. \<open>nest_documented\<close> collects what its documentation and that of the body
  parser promise.
\<close>

subsection \<open>The JSON of the services' results\<close>

definition response_json :: "bundle_response \<Rightarrow> jsval" where
  "response_json resp = JObj [(''epoch'', JStr (resp_epoch resp)), (''blind_signatures'', JArr (map JStr (blind_signatures resp)))]"

definition entitlement_json :: "entitlement_response \<Rightarrow> jsval" where
  "entitlement_json r = JObj [(''entitlement_id'', JStr (er_entitlement_id r)), (''next_drip_at'', JStr (er_next_drip_at r))]"

text \<open>A number in a JSON text; what is not finite is written as \<open>null\<close>.\<close>

fun number_json :: "jsnumber \<Rightarrow> jsval" where
  "number_json NaN = JNull"
| "number_json (NonInteger t) = (if t \<in> {''Infinity'', ''-Infinity''} then JNull else JNum t)"
| "number_json (Integer i) = JNum (show_int i)"

definition health_json :: "string \<Rightarrow> string \<Rightarrow> jsnumber \<Rightarrow> (string \<times> jsval) list" where
  "health_json status epoch expires =
     [(''status'', JStr status), (''epoch'', JStr epoch), (''expires_in_seconds'', number_json expires)]"

subsection \<open>Routes and handlers\<close>

definition IDEMPOTENCY_KEY_HEADER :: string where "IDEMPOTENCY_KEY_HEADER = ''idempotency-key''"

definition PAYMENT_CLAIM_HEADER :: string where "PAYMENT_CLAIM_HEADER = ''x-payment-claim''"

definition ENTITLEMENT_HEADER :: string where "ENTITLEMENT_HEADER = ''x-entitlement''"

datatype route = PostBundles | PostEntitlements | PostPickup | GetCurrentKey | GetHealth

fun route_path :: "route \<Rightarrow> string \<times> string" where
  "route_path PostBundles = (''POST'', ''/v1/bundles'')"
| "route_path PostEntitlements = (''POST'', ''/v1/entitlements'')"
| "route_path PostPickup = (''POST'', ''/v1/entitlements/pickup'')"
| "route_path GetCurrentKey = (''GET'', ''/v1/keys/current'')"
| "route_path GetHealth = (''GET'', ''/healthz'')"

text \<open>\<open>@Headers(name)\<close>: the header of that name, whose names arrive in lower case.\<close>

definition lower_headers :: "headers \<Rightarrow> headers" where
  "lower_headers hs = map (\<lambda>(k, v). (map to_lower k, v)) hs"

definition header_value :: "string \<Rightarrow> headers \<Rightarrow> string option" where
  "header_value name hs = map_of (lower_headers hs) name"

datatype handled = Returned jsval | Threw failure | Unavailable jsval

fun handled_with :: "('a \<Rightarrow> jsval) \<Rightarrow> failure + 'a \<Rightarrow> handled" where
  "handled_with f (Inl e) = Threw e"
| "handled_with f (Inr x) = Returned (f x)"

definition bundles_controller_purchase ::
  "'s request_env \<Rightarrow> ('sk, 'pk) claim_env \<Rightarrow> headers \<Rightarrow> jsval \<Rightarrow> 's \<times> db \<Rightarrow> handled \<times> 's \<times> db" where
  "bundles_controller_purchase env cenv hs body sd =
     (case purchase env cenv (header_value PAYMENT_CLAIM_HEADER hs) (header_value IDEMPOTENCY_KEY_HEADER hs) body sd of
        (r, sd') \<Rightarrow> (handled_with response_json r, sd'))"

definition entitlements_controller_register :: "'s request_env \<Rightarrow> jsval \<Rightarrow> 's \<times> db \<Rightarrow> handled \<times> 's \<times> db" where
  "entitlements_controller_register env body sd =
     (case register env body (snd sd) of (r, d') \<Rightarrow> (handled_with entitlement_json r, fst sd, d'))"

definition entitlements_controller_pickup ::
  "'s request_env \<Rightarrow> headers \<Rightarrow> jsval \<Rightarrow> 's \<times> db \<Rightarrow> handled \<times> 's \<times> db" where
  "entitlements_controller_pickup env hs body sd =
     (case pickup env (header_value ENTITLEMENT_HEADER hs) (header_value IDEMPOTENCY_KEY_HEADER hs) body sd of
        (r, sd') \<Rightarrow> (handled_with response_json r, sd'))"

definition keys_controller_current :: "'s request_env \<Rightarrow> handled" where
  "keys_controller_current env = handled_with published_json (keys_current (rq_keys env))"

definition health_controller_health :: "'s request_env \<Rightarrow> handled" where
  "health_controller_health env =
     (case health (rq_rt env) (rq_keys env) (rq_signNow env) of
        Inl e \<Rightarrow> Threw e
      | Inr (HealthOk epoch expires) \<Rightarrow> Returned (JObj (health_json ''ok'' epoch expires))
      | Inr (ServiceUnavailable epoch expires reason) \<Rightarrow>
          Unavailable (JObj (health_json ''degraded'' epoch expires @ [(''reason'', JStr reason)])))"

fun handle ::
  "'s request_env \<Rightarrow> ('sk, 'pk) claim_env \<Rightarrow> route \<Rightarrow> headers \<Rightarrow> jsval \<Rightarrow> 's \<times> db \<Rightarrow> handled \<times> 's \<times> db" where
  "handle env cenv PostBundles hs body sd = bundles_controller_purchase env cenv hs body sd"
| "handle env cenv PostEntitlements hs body sd = entitlements_controller_register env body sd"
| "handle env cenv PostPickup hs body sd = entitlements_controller_pickup env hs body sd"
| "handle env cenv GetCurrentKey hs body sd = (keys_controller_current env, sd)"
| "handle env cenv GetHealth hs body sd = (health_controller_health env, sd)"

subsection \<open>The framework\<close>

record nest =
  nest_match :: "string \<Rightarrow> string \<Rightarrow> route option"
  nest_parse :: "headers \<Rightarrow> string option \<Rightarrow> jsval option"  \<comment> \<open>\<open>None\<close>: the body parser refuses the body\<close>
  nest_created :: "string \<Rightarrow> nat"  \<comment> \<open>the status of a handler that returned\<close>
  nest_exception :: "failure \<Rightarrow> http_response"
  nest_unavailable :: "jsval \<Rightarrow> http_response"
  nest_refused :: http_response
  nest_missing :: http_response

fun nest_reply :: "nest \<Rightarrow> string \<Rightarrow> handled \<Rightarrow> http_response" where
  "nest_reply N meth (Returned v) = \<lparr>http_code = nest_created N meth, http_body = json_stringify v\<rparr>"
| "nest_reply N meth (Threw e) = nest_exception N e"
| "nest_reply N meth (Unavailable v) = nest_unavailable N v"

text \<open>The state behind the server, and the number of requests it has handled: request \<open>n\<close> runs in the world \<open>envs n\<close>.\<close>

record 's issuer_world =
  iw_store :: 's
  iw_db :: db
  iw_requests :: nat

definition serve ::
  "nest \<Rightarrow> (nat \<Rightarrow> 's request_env) \<Rightarrow> ('sk, 'pk) claim_env \<Rightarrow> string \<Rightarrow> string \<Rightarrow> headers \<Rightarrow> string option
     \<Rightarrow> 's issuer_world \<Rightarrow> http_response \<times> 's issuer_world"
where
  "serve N envs cenv meth path hs body w =
     (let w1 = w\<lparr>iw_requests := Suc (iw_requests w)\<rparr> in
      case nest_parse N hs body of
        None \<Rightarrow> (nest_refused N, w1)
      | Some b \<Rightarrow>
          (case nest_match N meth path of
             None \<Rightarrow> (nest_missing N, w1)
           | Some r \<Rightarrow>
               (case handle (envs (iw_requests w)) cenv r hs b (iw_store w, iw_db w) of
                  (h, s', d') \<Rightarrow> (nest_reply N meth h, w1\<lparr>iw_store := s', iw_db := d'\<rparr>))))"

text \<open>The server behind its address: a URL of another origin does not reach it.\<close>

definition issuer_fetch ::
  "nest \<Rightarrow> (nat \<Rightarrow> 's request_env) \<Rightarrow> ('sk, 'pk) claim_env \<Rightarrow> string \<Rightarrow> 's issuer_world fetch" where
  "issuer_fetch N envs cenv origin meth url hs body w =
     (if startsWith url origin
      then (case serve N envs cenv meth (drop (length origin) url) hs body w of (r, w') \<Rightarrow> (Inr r, w'))
      else (Inl ''Unable to connect'', w))"

text \<open>
  What is documented: a declared path matches its route; a JSON object of at most 100 kB is parsed, and a request
  without a body is not refused; a handler that returns is answered with 201 for \<open>POST\<close> and 200 for \<open>GET\<close>; an
  \<open>HttpException\<close> is answered with its status and its body, anything else that is thrown with 500.
\<close>

definition nest_documented :: "nest \<Rightarrow> bool" where
  "nest_documented N \<longleftrightarrow>
     (\<forall>r. nest_match N (fst (route_path r)) (snd (route_path r)) = Some r)
     \<and> (\<forall>hs kvs. json_plain (JObj kvs) \<longrightarrow> length (json_stringify (JObj kvs)) \<le> 102400
          \<longrightarrow> header_value ''content-type'' hs = Some ''application/json''
          \<longrightarrow> nest_parse N hs (Some (json_stringify (JObj kvs))) = Some (JObj kvs))
     \<and> (\<forall>hs. nest_parse N hs None \<noteq> None)
     \<and> nest_created N ''POST'' = 201 \<and> nest_created N ''GET'' = 200
     \<and> (\<forall>c m. nest_exception N (IssuerException c m) =
          \<lparr>http_code = STATUS c, http_body = json_stringify (exception_body c m)\<rparr>)
     \<and> (\<forall>e. http_code (nest_exception N e) = http_status e)
     \<and> (\<forall>v. nest_unavailable N v = \<lparr>http_code = 503, http_body = json_stringify v\<rparr>)"

subsection \<open>What a request gets\<close>

lemma status_not_ok: "http_status e < 200 \<or> 300 \<le> http_status e"
proof (cases e)
  case (IssuerException c m)
  then show ?thesis by (cases c) simp_all
qed simp_all

lemma serve_post:
  assumes "nest_documented N" and "fst (route_path r) = ''POST''"
    and "json_plain (JObj kvs)" and "length (json_stringify (JObj kvs)) \<le> 102400"
    and "header_value ''content-type'' hs = Some ''application/json''"
    and "handle (envs (iw_requests w)) cenv r hs (JObj kvs) (iw_store w, iw_db w) = (h, s', d')"
  shows "serve N envs cenv ''POST'' (snd (route_path r)) hs (Some (json_stringify (JObj kvs))) w =
    (nest_reply N ''POST'' h, \<lparr>iw_store = s', iw_db = d', iw_requests = Suc (iw_requests w)\<rparr>)"
proof -
  have "nest_match N (fst (route_path r)) (snd (route_path r)) = Some r"
    using assms(1) by (simp add: nest_documented_def)
  then have "nest_match N ''POST'' (snd (route_path r)) = Some r" using assms(2) by simp
  moreover have "nest_parse N hs (Some (json_stringify (JObj kvs))) = Some (JObj kvs)"
    using assms(1,3,4,5) by (simp add: nest_documented_def del: json_stringify.simps json_plain.simps)
  ultimately show ?thesis
    using assms(6) by (simp add: serve_def Let_def del: json_stringify.simps)
qed

lemma serve_get:
  assumes "nest_documented N" and "fst (route_path r) = ''GET''"
  obtains h b where "handle (envs (iw_requests w)) cenv r hs b (iw_store w, iw_db w) = (h, iw_store w, iw_db w)"
    and "serve N envs cenv ''GET'' (snd (route_path r)) hs None w =
      (nest_reply N ''GET'' h, w\<lparr>iw_requests := Suc (iw_requests w)\<rparr>)"
proof -
  have "nest_match N (fst (route_path r)) (snd (route_path r)) = Some r"
    using assms(1) by (simp add: nest_documented_def)
  then have "nest_match N ''GET'' (snd (route_path r)) = Some r" using assms(2) by simp
  moreover obtain b where "nest_parse N hs None = Some b" using assms(1) by (fastforce simp: nest_documented_def)
  ultimately show ?thesis
    using assms(2) by (intro that [of b "fst (handle (envs (iw_requests w)) cenv r hs b (iw_store w, iw_db w))"])
      (cases r; simp add: serve_def)+
qed

text \<open>A response is 201 exactly when the handler returned; its body is then the JSON of what it returned.\<close>

lemma reply_created:
  assumes "nest_documented N"
  shows "http_code (nest_reply N ''POST'' h) = 201 \<longleftrightarrow> (\<exists>v. h = Returned v)"
proof (cases h)
  case (Threw e)
  with assms status_not_ok [of e] show ?thesis by (auto simp: nest_documented_def)
qed (use assms in \<open>simp_all add: nest_documented_def\<close>)

lemma reply_success:
  assumes "nest_documented N" and "200 \<le> http_code (nest_reply N ''POST'' h)" and "http_code (nest_reply N ''POST'' h) < 300"
  shows "\<exists>v. h = Returned v"
proof (cases h)
  case (Threw e)
  with assms status_not_ok [of e] show ?thesis by (auto simp: nest_documented_def)
qed (use assms in \<open>auto simp: nest_documented_def\<close>)

lemma handled_with_Returned: "handled_with f r = Returned v \<longleftrightarrow> (\<exists>x. r = Inr x \<and> v = f x)"
  by (cases r) auto

end
