(* ===== verification/FakeProxy.thy ===== *)
theory FakeProxy
  imports HarnessClient Server
begin

text \<open>
  \<open>testing/fake-proxy.ts\<close> of the buyer harness, the stand-in for the paying proxy: it asks \<open>/v1/bundles\<close> to be paid
  for, and forwards a paid request to the issuer with a claim of its own. The issuer is the argument \<open>issuer\<close>,
  any \<open>fetch\<close>; the random identifiers are the argument \<open>uuid\<close>, the \<open>n\<close>-th one the proxy draws being \<open>uuid n\<close>; what
  Bun answers when a handler throws is \<open>fp_crash\<close>.
\<close>

record proxy_options =
  fp_issuerUrl :: string
  fp_signingKeyPem :: string
  fp_amount :: "string option"
  fp_routeId :: "string option"
  fp_crash :: http_response

record 'w proxy_world =
  pw_issuer :: 'w
  pw_settled :: "string list"
  pw_drawn :: nat

text \<open>The path and the authority of an absolute URL that \<open>new URL\<close> leaves as it is (no dot segments, nothing to escape).\<close>

definition after_scheme :: "string \<Rightarrow> string" where
  "after_scheme url = drop 2 (dropWhile (\<lambda>c. c \<noteq> CHR ''/'') url)"

definition url_host :: "string \<Rightarrow> string" where
  "url_host url = takeWhile (\<lambda>c. c \<noteq> CHR ''/'') (after_scheme url)"

definition pathname :: "string \<Rightarrow> string" where
  "pathname url = takeWhile (\<lambda>c. c \<noteq> CHR ''?'' \<and> c \<noteq> CHR ''#'') (dropWhile (\<lambda>c. c \<noteq> CHR ''/'') (after_scheme url))"

definition strip_slashes :: "string \<Rightarrow> string" where
  "strip_slashes url = rev (dropWhile (\<lambda>c. c = CHR ''/'') (rev url))"

definition proxy_amount :: "proxy_options \<Rightarrow> string" where
  "proxy_amount opts = (case fp_amount opts of None \<Rightarrow> ''1.00'' | Some a \<Rightarrow> a)"

definition proxy_route :: "proxy_options \<Rightarrow> string" where
  "proxy_route opts = (case fp_routeId opts of None \<Rightarrow> ''route-1'' | Some r \<Rightarrow> r)"

definition forward ::
  "proxy_options \<Rightarrow> 'w fetch \<Rightarrow> string \<Rightarrow> string \<Rightarrow> headers \<Rightarrow> string option \<Rightarrow> headers \<Rightarrow> 'w proxy_world
     \<Rightarrow> http_response \<times> 'w proxy_world"
where
  "forward opts issuer meth path hs body extra w =
     (let base = strip_slashes (fp_issuerUrl opts);
          sent = spread_headers (put_header (lower_headers hs) (''host'', url_host base)) extra
      in case issuer meth (base @ path) sent body (pw_issuer w) of
           (Inl _, i) \<Rightarrow> (fp_crash opts, w\<lparr>pw_issuer := i\<rparr>)
         | (Inr r, i) \<Rightarrow> (r, w\<lparr>pw_issuer := i\<rparr>))"

definition requirement_json :: "proxy_options \<Rightarrow> string \<Rightarrow> jsval" where
  "requirement_json opts nonce =
     JObj [(''amount'', JStr (proxy_amount opts)), (''asset'', JStr ''ANYONE''), (''chain'', JStr ''sepolia''),
           (''recipient'', JStr ''0x000000000000000000000000000000000000dEaD''),
           (''route_id'', JStr (proxy_route opts)), (''nonce'', JStr nonce)]"

definition payment_required_json :: "proxy_options \<Rightarrow> string \<Rightarrow> jsval" where
  "payment_required_json opts nonce =
     JObj [(''error'', JObj [(''code'', JStr ''PAYMENT_REQUIRED''), (''message'', JStr ''pay for this bundle, then retry'')]),
           (''payment'', requirement_json opts nonce)]"

definition proxy_claim :: "proxy_options \<Rightarrow> string \<Rightarrow> claim_fields" where
  "proxy_claim opts ref = \<lparr>cf_payment_ref = ref, cf_amount = proxy_amount opts, cf_route_id = proxy_route opts\<rparr>"

definition minted :: "string \<Rightarrow> string" where
  "minted uuid = ''proxy-'' @ uuid"

definition proxy_serve ::
  "runtime \<Rightarrow> ('sk, 'pk) ed25519 \<Rightarrow> (nat \<Rightarrow> string) \<Rightarrow> proxy_options \<Rightarrow> 'w fetch
     \<Rightarrow> string \<Rightarrow> string \<Rightarrow> headers \<Rightarrow> string option \<Rightarrow> 'w proxy_world \<Rightarrow> http_response \<times> 'w proxy_world"
where
  "proxy_serve rt C uuid opts issuer meth path hs body w =
     (let bodyText = (if meth = ''GET'' then None else Some (case body of None \<Rightarrow> [] | Some t \<Rightarrow> t)) in
      if path \<noteq> ''/v1/bundles'' then forward opts issuer meth path hs bodyText [] w
      else if header_value PAYMENT_RECEIPT_HEADER hs \<in> {None, Some []}
      then (\<lparr>http_code = 402, http_body = json_stringify (payment_required_json opts (uuid (pw_drawn w)))\<rparr>,
            w\<lparr>pw_drawn := Suc (pw_drawn w)\<rparr>)
      else
        (let paymentRef = minted (uuid (pw_drawn w));
             w1 = w\<lparr>pw_drawn := Suc (pw_drawn w), pw_settled := pw_settled w @ [paymentRef]\<rparr>
         in case importProxySigningKey rt C (fp_signingKeyPem opts) of
              Inl _ \<Rightarrow> (fp_crash opts, w1)
            | Inr key \<Rightarrow>
                forward opts issuer meth path hs bodyText
                  [(''x-payment-claim'', signPaymentClaim C (proxy_claim opts paymentRef) key)] w1))"

definition proxy_fetch ::
  "runtime \<Rightarrow> ('sk, 'pk) ed25519 \<Rightarrow> (nat \<Rightarrow> string) \<Rightarrow> proxy_options \<Rightarrow> 'w fetch \<Rightarrow> 'w proxy_world fetch" where
  "proxy_fetch rt C uuid opts issuer meth url hs body w =
     (case proxy_serve rt C uuid opts issuer meth (pathname url) hs body w of (r, w') \<Rightarrow> (Inr r, w'))"

subsection \<open>Header objects\<close>

lemma map_of_put_header: "map_of (put_header hs kv) = (map_of hs)(fst kv \<mapsto> snd kv)"
proof (induction hs)
  case (Cons h hs)
  then show ?case by (cases h; cases "fst h = fst kv") (simp_all add: fun_eq_iff)
qed simp

lemma map_of_spread: "map_of (spread_headers a b) = foldl (\<lambda>m kv. m(fst kv \<mapsto> snd kv)) (map_of a) b"
  unfolding spread_headers_def by (induction b arbitrary: a) (simp_all add: map_of_put_header)

text \<open>Header names that are in lower case already are found as they are.\<close>

definition lower_names :: "headers \<Rightarrow> bool" where
  "lower_names hs \<longleftrightarrow> (\<forall>h \<in> set hs. map to_lower (fst h) = fst h)"

lemma lower_headers_id: "lower_names hs \<Longrightarrow> lower_headers hs = hs"
  by (induction hs) (auto simp: lower_headers_def lower_names_def)

lemma lower_names_put: "lower_names hs \<Longrightarrow> map to_lower (fst kv) = fst kv \<Longrightarrow> lower_names (put_header hs kv)"
  by (induction hs) (simp_all add: lower_names_def)

lemma lower_names_spread: "lower_names a \<Longrightarrow> lower_names b \<Longrightarrow> lower_names (spread_headers a b)"
  unfolding spread_headers_def
proof (induction b arbitrary: a)
  case (Cons kv b)
  have "map to_lower (fst kv) = fst kv" "lower_names b" using Cons.prems(2) by (simp_all add: lower_names_def)
  with Cons.IH [OF lower_names_put [OF Cons.prems(1)]] show ?case by simp
qed simp

lemma header_value_lower: "lower_names hs \<Longrightarrow> header_value name hs = map_of hs name"
  by (simp add: header_value_def lower_headers_id)

subsection \<open>Addresses\<close>

definition plain_origin :: "string \<Rightarrow> bool" where
  "plain_origin base \<longleftrightarrow>
     (\<exists>scheme host. base = scheme @ ''://'' @ host \<and> CHR ''/'' \<notin> set scheme \<and> CHR ''/'' \<notin> set host)"

lemma pathname_plain:
  assumes "plain_origin base" and "CHR ''?'' \<notin> set path" and "CHR ''#'' \<notin> set path"
  shows "pathname (base @ CHR ''/'' # path) = CHR ''/'' # path"
proof -
  obtain scheme host where base: "base = scheme @ ''://'' @ host" "CHR ''/'' \<notin> set scheme" "CHR ''/'' \<notin> set host"
    using assms(1) by (auto simp: plain_origin_def)
  have skip: "dropWhile (\<lambda>c. c \<noteq> CHR ''/'') (xs @ CHR ''/'' # ys) = CHR ''/'' # ys" if "CHR ''/'' \<notin> set xs" for xs ys
    using that by (subst dropWhile_append2) auto
  have "after_scheme (base @ CHR ''/'' # path) = host @ CHR ''/'' # path"
    using skip [of "scheme @ '':''" "CHR ''/'' # host @ CHR ''/'' # path"] base by (simp add: after_scheme_def)
  moreover have "takeWhile (\<lambda>c. c \<noteq> CHR ''?'' \<and> c \<noteq> CHR ''#'') path = path"
    using assms(2,3) by (auto simp: takeWhile_eq_all_conv)
  ultimately show ?thesis using skip [OF base(3), of path] by (simp add: pathname_def)
qed

subsection \<open>A request that is paid for at the proxy\<close>

definition proxy_texts :: "proxy_options \<Rightarrow> string \<Rightarrow> bool" where
  "proxy_texts opts u \<longleftrightarrow>
     valid_utf8 u \<and> proxy_amount opts \<noteq> [] \<and> proxy_route opts \<noteq> []
     \<and> valid_utf8 (proxy_amount opts) \<and> valid_utf8 (proxy_route opts)"

lemma proxy_literals:
  "valid_utf8 ''error''" "valid_utf8 ''code''" "valid_utf8 ''message''" "valid_utf8 ''payment''" "valid_utf8 ''PAYMENT_REQUIRED''"
  "valid_utf8 ''pay for this bundle, then retry''" "valid_utf8 ''amount''" "valid_utf8 ''asset''" "valid_utf8 ''ANYONE''"
  "valid_utf8 ''chain''" "valid_utf8 ''sepolia''" "valid_utf8 ''recipient''" "valid_utf8 ''route_id''" "valid_utf8 ''nonce''"
  "valid_utf8 ''0x000000000000000000000000000000000000dEaD''" "valid_utf8 ''proxy-''"
  by (rule valid_utf8_all_ascii, simp add: ascii_def in_range_def)+

lemma payment_required_plain:
  "proxy_texts opts u \<Longrightarrow> json_plain (payment_required_json opts u)"
  by (simp add: payment_required_json_def requirement_json_def proxy_texts_def proxy_literals)

lemma requirement_read:
  assumes "proxy_texts opts u" and "http_body r = json_stringify (payment_required_json opts u)"
  shows "parsePaymentRequirement (readJsonOrNull r) = requirement_json opts u"
proof -
  have "readJsonOrNull r = payment_required_json opts u"
    using payment_required_plain [OF assms(1)] by (simp add: readJsonOrNull_def assms(2))
  then show ?thesis
    by (simp add: parsePaymentRequirement_def payment_required_json_def requirement_json_def)
qed

text \<open>The receipt the harness answers with, and the headers the issuer then sees.\<close>

definition stub_receipt :: "string \<Rightarrow> string \<Rightarrow> jsval \<Rightarrow> string" where
  "stub_receipt payer tx q = bytesToBase64url (utf8_encode (json_stringify (JObj
     [(''payer'', JStr payer), (''tx_hash'', JStr tx), (''amount'', get_prop q ''amount''),
      (''route_id'', get_prop q ''route_id''), (''nonce'', get_prop q ''nonce'')])))"

definition forwarded_headers :: "proxy_options \<Rightarrow> headers \<Rightarrow> string \<Rightarrow> string \<Rightarrow> headers" where
  "forwarded_headers opts hs receipt claim =
     spread_headers (put_header (lower_headers (spread_headers hs [(PAYMENT_RECEIPT_HEADER, receipt)]))
       (''host'', url_host (strip_slashes (fp_issuerUrl opts)))) [(''x-payment-claim'', claim)]"

lemma stub_receipt_nonempty: "stub_receipt payer tx q \<noteq> []"
proof -
  have "utf8_encode (c # cs) \<noteq> []" for c cs by (simp split: option.split)
  then show ?thesis by (simp add: stub_receipt_def del: utf8_encode.simps)
qed

lemma sent_headers:
  assumes "lower_names hs" and "map_of hs PAYMENT_RECEIPT_HEADER = None"
  shows "header_value PAYMENT_RECEIPT_HEADER (spread_headers hs []) = None"
    and "header_value PAYMENT_RECEIPT_HEADER (spread_headers hs [(PAYMENT_RECEIPT_HEADER, receipt)]) = Some receipt"
    and "header_value name (forwarded_headers opts hs receipt claim) =
      ((map_of hs)(PAYMENT_RECEIPT_HEADER \<mapsto> receipt, ''host'' \<mapsto> url_host (strip_slashes (fp_issuerUrl opts)),
         ''x-payment-claim'' \<mapsto> claim)) name"
proof -
  have paid: "lower_names (spread_headers hs [(PAYMENT_RECEIPT_HEADER, receipt)])"
    by (intro lower_names_spread assms(1)) (simp add: lower_names_def PAYMENT_RECEIPT_HEADER_def to_lower_def)
  have "lower_names (forwarded_headers opts hs receipt claim)"
    unfolding forwarded_headers_def lower_headers_id [OF paid]
    by (intro lower_names_spread lower_names_put paid) (simp_all add: lower_names_def to_lower_def)
  then show "header_value name (forwarded_headers opts hs receipt claim) =
      ((map_of hs)(PAYMENT_RECEIPT_HEADER \<mapsto> receipt, ''host'' \<mapsto> url_host (strip_slashes (fp_issuerUrl opts)),
         ''x-payment-claim'' \<mapsto> claim)) name"
    unfolding header_value_lower [OF \<open>lower_names (forwarded_headers opts hs receipt claim)\<close>]
    by (simp add: forwarded_headers_def lower_headers_id [OF paid] map_of_spread map_of_put_header)
  show "header_value PAYMENT_RECEIPT_HEADER (spread_headers hs [(PAYMENT_RECEIPT_HEADER, receipt)]) = Some receipt"
    by (simp add: header_value_lower [OF paid] map_of_spread)
  show "header_value PAYMENT_RECEIPT_HEADER (spread_headers hs []) = None"
    using assms by (simp add: spread_headers_def header_value_lower)
qed

lemma proxied_request:
  assumes "co_fetch opts = proxy_fetch rt C uuid popts issuer" and "co_payment opts = StubReceiptProvider payer tx"
    and "plain_origin (base_url opts)" and "importProxySigningKey rt C (fp_signingKeyPem popts) = Inr sk"
    and "in_method i = ''POST''" and "in_body i = Some b" and "lower_names (in_headers i)"
    and "map_of (in_headers i) PAYMENT_RECEIPT_HEADER = None" and "proxy_texts popts (uuid (pw_drawn w))"
    and "q = requirement_json popts (uuid (pw_drawn w))" and "ref = minted (uuid (Suc (pw_drawn w)))"
    and "issuer ''POST'' (strip_slashes (fp_issuerUrl popts) @ ''/v1/bundles'')
          (forwarded_headers popts (in_headers i) (stub_receipt payer tx q) (signPaymentClaim C (proxy_claim popts ref) sk))
          (Some b) (pw_issuer w) = (Inr r, j)"
  shows "request_flow opts ''/v1/bundles'' i (f, w) =
    (if http_code r = 402
     then Inl (IssuerRequestError (''/v1/bundles'' @ '' still returned 402 after paying with '' @ ''stub-receipt'') (Some 402) JUndefined)
     else finish (co_rt opts) ''/v1/bundles'' r,
     [Sent [], Paid q, Sent [(PAYMENT_RECEIPT_HEADER, stub_receipt payer tx q)]], retry_402,
     \<lparr>pw_issuer = j, pw_settled = pw_settled w @ [ref], pw_drawn = Suc (Suc (pw_drawn w))\<rparr>)"
proof -
  let ?n = "pw_drawn w" and ?receipt = "stub_receipt payer tx q" and ?hs = "in_headers i"
  let ?ask = "\<lparr>http_code = 402, http_body = json_stringify (payment_required_json popts (uuid ?n))\<rparr>"
  have path: "pathname (base_url opts @ ''/v1/bundles'') = ''/v1/bundles''"
    using pathname_plain [OF assms(3), of "''v1/bundles''"] by simp
  have first: "send opts ''/v1/bundles'' i [] w = (Inr ?ask, w\<lparr>pw_drawn := Suc ?n\<rparr>)"
    by (simp add: send_def assms(1) proxy_fetch_def path proxy_serve_def sent_headers(1) [OF assms(7,8)] Let_def
        del: json_stringify.simps)
  have "send opts ''/v1/bundles'' i [(PAYMENT_RECEIPT_HEADER, ?receipt)] (w\<lparr>pw_drawn := Suc ?n\<rparr>) =
    (Inr r, \<lparr>pw_issuer = j, pw_settled = pw_settled w @ [ref], pw_drawn = Suc (Suc ?n)\<rparr>)"
    using assms(12)
    by (simp add: send_def assms(1,4-6) proxy_fetch_def path proxy_serve_def sent_headers(2) [OF assms(7,8)] Let_def
        stub_receipt_nonempty forward_def forwarded_headers_def assms(11) del: json_stringify.simps)
  moreover have "parsePaymentRequirement (readJsonOrNull ?ask) = q"
    unfolding assms(10) by (rule requirement_read [OF assms(9)]) simp
  moreover have "key_count q = 6" by (simp add: assms(10) requirement_json_def)
  moreover have "pp_pay (StubReceiptProvider payer tx) q = Inr [(PAYMENT_RECEIPT_HEADER, ?receipt)]"
    "pp_initialHeaders (StubReceiptProvider payer tx) = []" "pp_name (StubReceiptProvider payer tx) = ''stub-receipt''"
    by (simp_all add: StubReceiptProvider_def stub_receipt_def)
  ultimately show ?thesis using first by (simp add: request_flow_def assms(2) Let_def del: json_stringify.simps)
qed

subsection \<open>A purchase through the proxy\<close>

text \<open>What the buyer, the proxy and the issuer agree on: the addresses, the proxy's key and the price.\<close>

record ('s, 'sk, 'pk) sandbox =
  sb_rt :: runtime
  sb_client :: "'s issuer_world proxy_world client_options"
  sb_proxy :: proxy_options
  sb_nest :: nest
  sb_envs :: "nat \<Rightarrow> 's request_env"
  sb_claims :: "('sk, 'pk) claim_env"
  sb_uuid :: "nat \<Rightarrow> string"
  sb_payer :: string
  sb_tx :: string

definition sandbox_wired :: "('s, 'sk, 'pk) sandbox \<Rightarrow> bool" where
  "sandbox_wired b \<longleftrightarrow>
     nest_documented (sb_nest b)
     \<and> co_fetch (sb_client b) = proxy_fetch (sb_rt b) (ce_ed25519 (sb_claims b)) (sb_uuid b) (sb_proxy b)
         (issuer_fetch (sb_nest b) (sb_envs b) (sb_claims b) (strip_slashes (fp_issuerUrl (sb_proxy b))))
     \<and> co_payment (sb_client b) = StubReceiptProvider (sb_payer b) (sb_tx b)
     \<and> plain_origin (base_url (sb_client b))
     \<and> (\<exists>sk pk. importProxySigningKey (sb_rt b) (ce_ed25519 (sb_claims b)) (fp_signingKeyPem (sb_proxy b)) = Inr sk \<and> ce_proxyKey (sb_claims b) = Some pk
          \<and> (\<forall>m. ed_sign (ce_ed25519 (sb_claims b)) sk m \<noteq> []
               \<and> ed_verify (ce_ed25519 (sb_claims b)) pk (ed_sign (ce_ed25519 (sb_claims b)) sk m) m))
     \<and> (\<forall>n. proxy_texts (sb_proxy b) (sb_uuid b n))
     \<and> (\<forall>n. decimalEquals (proxy_amount (sb_proxy b)) (bundlePrice (rq_config (sb_envs b n))))
     \<and> (\<forall>n. \<exists>holds. blank_signer (rq_pool_sign (sb_envs b n)) holds)"

definition bundle_body :: "string \<Rightarrow> string list \<Rightarrow> jsval" where
  "bundle_body epoch blanks = JObj [(''epoch'', JStr epoch), (''blinded_blanks'', JArr (map JStr blanks))]"

definition reference_grant :: "string \<Rightarrow> grant" where
  "reference_grant ref = \<lparr>gr_reference = ref, gr_consume = None\<rparr>"

definition sent_key :: "string option \<Rightarrow> string option" where
  "sent_key key = (if key = Some [] then None else key)"

lemma proxy_claim_texts: "proxy_texts popts u \<Longrightarrow> claim_texts (proxy_claim popts (minted u))"
  using valid_utf8_append [OF proxy_literals(16), of u]
  by (simp add: claim_texts_def proxy_claim_def proxy_texts_def minted_def)

lemma proxy_purchase_issues:
  assumes "claim_texts (proxy_claim popts ref)" and "ce_proxyKey cenv = Some pk"
    and "\<forall>m. ed_sign (ce_ed25519 cenv) sk m \<noteq> [] \<and> ed_verify (ce_ed25519 cenv) pk (ed_sign (ce_ed25519 cenv) sk m) m"
    and "decimalEquals (proxy_amount popts) (bundlePrice (rq_config env))"
  shows "purchase env cenv (Some (signPaymentClaim (ce_ed25519 cenv) (proxy_claim popts ref) sk)) key body (s, d) =
    issue env (reference_grant ref) key body (s, d)"
proof -
  let ?f = "proxy_claim popts ref"
  have "cf_amount ?f = proxy_amount popts" "cf_payment_ref ?f = ref" by (simp_all add: proxy_claim_def)
  with signed_claim_verifies [OF assms(1,3), of "rq_rt env" "rq_config env"] assms(4) show ?thesis
    by (simp add: purchase_def admit_def signed_claim_parsed [OF assms(1)] assms(2) paid_grant_def reference_grant_def)
qed

lemma bundle_init_sent:
  "in_method (bundle_init opts (JStr epoch) blanks) = ''POST''"
  "in_body (bundle_init opts (JStr epoch) blanks) = Some (json_stringify (bundle_body epoch blanks))"
  "lower_names (in_headers (bundle_init opts (JStr epoch) blanks))"
  "map_of (in_headers (bundle_init opts (JStr epoch) blanks)) PAYMENT_RECEIPT_HEADER = None"
  "map_of (in_headers (bundle_init opts (JStr epoch) blanks)) ''content-type'' = Some ''application/json''"
  "map_of (in_headers (bundle_init opts (JStr epoch) blanks)) IDEMPOTENCY_KEY_HEADER = sent_key (co_idempotencyKey opts)"
  by (cases "co_idempotencyKey opts"; simp add: bundle_init_def bundle_body_def lower_names_def to_lower_def
      PAYMENT_RECEIPT_HEADER_def IDEMPOTENCY_KEY_HEADER_def sent_key_def del: json_stringify.simps)+

lemma forwarded_purchase_headers:
  assumes "hs = in_headers (bundle_init opts (JStr epoch) blanks)"
  shows "header_value ''content-type'' (forwarded_headers popts hs receipt claim) = Some ''application/json''"
    and "header_value PAYMENT_CLAIM_HEADER (forwarded_headers popts hs receipt claim) = Some claim"
    and "header_value IDEMPOTENCY_KEY_HEADER (forwarded_headers popts hs receipt claim) = sent_key (co_idempotencyKey opts)"
  using bundle_init_sent(5,6) [of opts epoch blanks]
  by (simp_all add: assms sent_headers(3) [OF bundle_init_sent(3,4)] PAYMENT_RECEIPT_HEADER_def PAYMENT_CLAIM_HEADER_def
      IDEMPOTENCY_KEY_HEADER_def)

text \<open>What the buyer makes of the issuer's answer to the paid request.\<close>

lemma response_plain:
  assumes "issue env g key (bundle_body epoch blanks) (s, d) = (Inr resp, s', d')" and "valid_utf8 epoch"
    and "blank_signer (rq_pool_sign env) holds"
  shows "json_plain (response_json resp)"
proof -
  obtain request where p: "issue_prepare env g (bundle_body epoch blanks) s = (Inr (request, resp), s')"
    using assms(1) by (rule issue_success)
  then obtain e where v: "validateBundleRequest (rq_rt env) (bundle_body epoch blanks) (rq_config env) = Inr request"
    and b: "signBundle (rq_settles env) (rq_pool_sign env) request = Inr resp"
    by (rule issue_prepare_Inr)
  have "valid_utf8 x" if "x \<in> set (blind_signatures resp)" for x
    using blank_signer.bundle_signed(2) [OF assms(3) b that] by auto
  moreover have "resp_epoch resp = epoch"
    using v by (elim validateBundleRequest_Inr) (simp add: signBundle_Inr(1) [OF b] bundle_body_def)
  moreover have "valid_utf8 ''epoch''" "valid_utf8 ''blind_signatures''"
    by (rule valid_utf8_all_ascii, simp add: ascii_def in_range_def)+
  ultimately show ?thesis using assms(2) by (simp add: response_json_def)
qed

lemma finished_answer:
  assumes "nest_documented N"
  shows "\<exists>msg code. (if http_code (nest_exception N e) = 402 then Inl (IssuerRequestError m (Some 402) JUndefined)
      else finish rt path (nest_exception N e)) = Inl (IssuerRequestError msg (Some (http_status e)) code)"
proof -
  have "http_code (nest_exception N e) = http_status e" using assms by (simp add: nest_documented_def)
  with status_not_ok [of e] show ?thesis
    by (auto simp: finish_def response_ok_def returned_def split: prod.split)
qed

text \<open>The issuer's side of a paid request that the proxy forwards.\<close>

lemma sandbox_forwarded:
  assumes "nest_documented N" and "proxy_texts popts u" and "ref = minted u" and "ce_proxyKey cenv = Some pk"
    and "\<forall>m. ed_sign (ce_ed25519 cenv) sk m \<noteq> [] \<and> ed_verify (ce_ed25519 cenv) pk (ed_sign (ce_ed25519 cenv) sk m) m"
    and "decimalEquals (proxy_amount popts) (bundlePrice (rq_config (envs (iw_requests i))))"
    and "json_plain (bundle_body epoch blanks)" and "length (json_stringify (bundle_body epoch blanks)) \<le> 102400"
    and "issue (envs (iw_requests i)) (reference_grant ref) (sent_key (co_idempotencyKey opts))
       (bundle_body epoch blanks) (iw_store i, iw_db i) = (res, s', d')"
  shows "issuer_fetch N envs cenv url ''POST'' (url @ ''/v1/bundles'')
      (forwarded_headers popts (in_headers (bundle_init opts (JStr epoch) blanks)) receipt
        (signPaymentClaim (ce_ed25519 cenv) (proxy_claim popts ref) sk))
      (Some (json_stringify (bundle_body epoch blanks))) i =
    (Inr (nest_reply N ''POST'' (handled_with response_json res)), \<lparr>iw_store = s', iw_db = d', iw_requests = Suc (iw_requests i)\<rparr>)"
proof -
  let ?sent = "forwarded_headers popts (in_headers (bundle_init opts (JStr epoch) blanks)) receipt
    (signPaymentClaim (ce_ed25519 cenv) (proxy_claim popts ref) sk)"
  have handled: "handle (envs (iw_requests i)) cenv PostBundles ?sent (bundle_body epoch blanks) (iw_store i, iw_db i) =
      (handled_with response_json res, s', d')"
    using proxy_purchase_issues [OF proxy_claim_texts [OF assms(2)] assms(4-6)] assms(9)
    by (simp add: bundles_controller_purchase_def forwarded_purchase_headers [OF refl] assms(3))
  have "serve N envs cenv ''POST'' (snd (route_path PostBundles)) ?sent (Some (json_stringify (bundle_body epoch blanks))) i =
    (nest_reply N ''POST'' (handled_with response_json res), \<lparr>iw_store = s', iw_db = d', iw_requests = Suc (iw_requests i)\<rparr>)"
    unfolding bundle_body_def
    by (rule serve_post [where envs = envs and w = i, OF assms(1) _ assms(7,8) [unfolded bundle_body_def] forwarded_purchase_headers(1) [OF refl]
        handled [unfolded bundle_body_def]]) simp
  then show ?thesis by (simp add: issuer_fetch_def startsWith_def del: json_stringify.simps)
qed

lemma sandbox_purchase:
  fixes w :: "'s issuer_world proxy_world"
  defines "i \<equiv> pw_issuer w"
  assumes "sandbox_wired b" and plain: "json_plain (bundle_body epoch blanks)"
    and size: "length (json_stringify (bundle_body epoch blanks)) \<le> 102400"
    and ref: "ref = minted (sb_uuid b (Suc (pw_drawn w)))"
    and issue: "issue (sb_envs b (iw_requests i)) (reference_grant ref) (sent_key (co_idempotencyKey (sb_client b)))
       (bundle_body epoch blanks) (iw_store i, iw_db i) = (res, s', d')"
  obtains r tr where
    "client_purchaseBundle (sb_client b) (JStr epoch) blanks (f, w) =
      (r, tr, retry_402, \<lparr>pw_issuer = \<lparr>iw_store = s', iw_db = d', iw_requests = Suc (iw_requests i)\<rparr>,
         pw_settled = pw_settled w @ [ref], pw_drawn = Suc (Suc (pw_drawn w))\<rparr>)"
    and "length (filter is_paid tr) = 1"
    and "case res of Inr resp \<Rightarrow> r = Inr (response_json resp)
       | Inl e \<Rightarrow> \<exists>msg code. r = Inl (IssuerRequestError msg (Some (http_status e)) code)"
proof -
  let ?N = "sb_nest b" and ?env = "sb_envs b (iw_requests i)" and ?cenv = "sb_claims b" and ?opts = "sb_client b"
  let ?C = "ce_ed25519 ?cenv" and ?url = "strip_slashes (fp_issuerUrl (sb_proxy b))"
  obtain sk pk where keys: "importProxySigningKey (sb_rt b) ?C (fp_signingKeyPem (sb_proxy b)) = Inr sk" "ce_proxyKey ?cenv = Some pk"
    "\<forall>m. ed_sign ?C sk m \<noteq> [] \<and> ed_verify ?C pk (ed_sign ?C sk m) m"
    using assms(2) unfolding sandbox_wired_def by blast
  have wired: "nest_documented ?N" "co_fetch ?opts = proxy_fetch (sb_rt b) ?C (sb_uuid b) (sb_proxy b) (issuer_fetch ?N (sb_envs b) ?cenv ?url)"
    "co_payment ?opts = StubReceiptProvider (sb_payer b) (sb_tx b)" "plain_origin (base_url ?opts)"
    "proxy_texts (sb_proxy b) (sb_uuid b n)" "decimalEquals (proxy_amount (sb_proxy b)) (bundlePrice (rq_config ?env))"
    for n
    using assms(2) unfolding sandbox_wired_def by blast+
  obtain holds where signer: "blank_signer (rq_pool_sign ?env) holds" using assms(2) unfolding sandbox_wired_def by blast
  note flow = proxied_request [OF wired(2-4) keys(1) bundle_init_sent(1-4) wired(5) refl ref
      sandbox_forwarded [where envs = "sb_envs b" and i = i, OF wired(1,5) ref keys(2,3) wired(6) plain size issue, unfolded i_def], of f]
  show ?thesis
  proof (cases res)
    case (Inl e)
    obtain msg code where "(if http_code (nest_exception ?N e) = 402
        then Inl (IssuerRequestError (''/v1/bundles'' @ '' still returned 402 after paying with '' @ ''stub-receipt'') (Some 402) JUndefined)
        else finish (co_rt ?opts) ''/v1/bundles'' (nest_exception ?N e)) = Inl (IssuerRequestError msg (Some (http_status e)) code)"
      using finished_answer [OF wired(1)] by blast
    then show ?thesis
      using that [of "Inl (IssuerRequestError msg (Some (http_status e)) code)", unfolded client_purchaseBundle_def]
      unfolding flow Inl handled_with.simps nest_reply.simps i_def by simp
  next
    case (Inr resp)
    have "valid_utf8 epoch" using plain by (simp add: bundle_body_def)
    then have "json_plain (response_json resp)" by (rule response_plain [OF issue [unfolded Inr] _ signer])
    then have read: "readJson (co_rt ?opts) \<lparr>http_code = 201, http_body = json_stringify (response_json resp)\<rparr> = Inr (response_json resp)"
      by (simp add: readJson_def)
    have "nest_created ?N ''POST'' = 201" using wired(1) by (simp add: nest_documented_def)
    with read that [of "Inr (response_json resp)", unfolded client_purchaseBundle_def] show ?thesis
      unfolding flow Inr handled_with.simps nest_reply.simps i_def by (simp add: finish_def response_ok_def)
  qed
qed

subsection \<open>A reference the issuer has not seen\<close>

interpretation referenced: issuance_grant "reference_grant ref" for ref
  by unfold_locales (simp_all add: reference_grant_def)

definition claimed_references :: "db \<Rightarrow> string set" where
  "claimed_references d = fst ` set (map idempotency_key (idempotency_record d))"

lemma fresh_reference_issues:
  assumes "issue env (reference_grant ref) key body (s, d) = (Inr resp, s', d')" and "ref \<notin> claimed_references d"
  shows "length (issuance_record d') = Suc (length (issuance_record d))"
    and "claimed_references d' \<subseteq> insert ref (claimed_references d)"
proof -
  obtain request where "issue_commit env (reference_grant ref) key request resp d = (Inr resp, d')"
    using assms(1) by (rule issue_success)
  then have "length (issuance_record d') = Suc (length (issuance_record d))
    \<and> claimed_references d' \<subseteq> insert ref (claimed_references d)"
  proof (cases rule: referenced.issue_commit_Inr)
    case (issued idem)
    then show ?thesis
      unfolding claimed_references_def referenced.record_body_Inr(2) [OF issued(2)]
      by (auto simp: referenced.record_body_Inr(1) [OF issued(2)] reference_grant_def split: option.splits)
  next
    case (replay k row)
    then have "lookup_by idempotency_key (ref, k) (idempotency_record d) = Some row"
      by (simp add: find_idempotency_def reference_grant_def)
    then have "(ref, k) \<in> set (map idempotency_key (idempotency_record d))"
      using lookup_by_None [of idempotency_key "(ref, k)" "idempotency_record d"] by fastforce
    then have "fst (ref, k) \<in> claimed_references d" unfolding claimed_references_def by (rule imageI)
    with assms(2) show ?thesis by simp
  qed
  then show "length (issuance_record d') = Suc (length (issuance_record d))"
    "claimed_references d' \<subseteq> insert ref (claimed_references d)" by auto
qed

text \<open>A purchase through the proxy that got a bundle, under a reference the issuer has not seen.\<close>

lemma sandbox_success:
  assumes "sandbox_wired b" and "json_plain (bundle_body epoch blanks)"
    and "length (json_stringify (bundle_body epoch blanks)) \<le> 102400"
    and "client_purchaseBundle (sb_client b) (JStr epoch) blanks (f, w) = (Inr v, tr, f', w')"
    and "ref = minted (sb_uuid b (Suc (pw_drawn w)))" and "ref \<notin> claimed_references (iw_db (pw_issuer w))"
  shows "length (issuance_record (iw_db (pw_issuer w'))) = Suc (length (issuance_record (iw_db (pw_issuer w))))"
    and "claimed_references (iw_db (pw_issuer w')) \<subseteq> insert ref (claimed_references (iw_db (pw_issuer w)))"
    and "pw_settled w' = pw_settled w @ [ref]" and "pw_drawn w' = Suc (Suc (pw_drawn w))" and "length (filter is_paid tr) = 1"
proof -
  let ?i = "pw_issuer w"
  obtain res s d where issue: "issue (sb_envs b (iw_requests ?i)) (reference_grant ref) (sent_key (co_idempotencyKey (sb_client b)))
       (bundle_body epoch blanks) (iw_store ?i, iw_db ?i) = (res, s, d)" by (metis prod_cases3)
  obtain r tr0 where run: "client_purchaseBundle (sb_client b) (JStr epoch) blanks (f, w) =
      (r, tr0, retry_402, \<lparr>pw_issuer = \<lparr>iw_store = s, iw_db = d, iw_requests = Suc (iw_requests ?i)\<rparr>,
         pw_settled = pw_settled w @ [ref], pw_drawn = Suc (Suc (pw_drawn w))\<rparr>)"
    and paid: "length (filter is_paid tr0) = 1"
    and res: "case res of Inr resp \<Rightarrow> r = Inr (response_json resp)
       | Inl e \<Rightarrow> \<exists>msg code. r = Inl (IssuerRequestError msg (Some (http_status e)) code)"
    by (rule sandbox_purchase [OF assms(1-3,5) issue])
  from assms(4) run have eqs: "r = Inr v" "tr = tr0" "iw_db (pw_issuer w') = d" "pw_settled w' = pw_settled w @ [ref]"
    "pw_drawn w' = Suc (Suc (pw_drawn w))" by auto
  with res obtain resp where "res = Inr resp" by (cases res) auto
  note fresh = fresh_reference_issues [OF issue [unfolded this] assms(6)]
  from fresh eqs paid show "length (issuance_record (iw_db (pw_issuer w'))) = Suc (length (issuance_record (iw_db (pw_issuer w))))"
    "claimed_references (iw_db (pw_issuer w')) \<subseteq> insert ref (claimed_references (iw_db (pw_issuer w)))"
    "pw_settled w' = pw_settled w @ [ref]" "pw_drawn w' = Suc (Suc (pw_drawn w))" "length (filter is_paid tr) = 1"
    by simp_all
qed

end
