(* ===== verification/ParseArgs.thy ===== *)
theory ParseArgs
  imports Prelude
begin

text \<open>
  \<open>parseArgs\<close> of \<open>node:util\<close>, as every command line of the program calls it: \<open>strict\<close>, without positionals and without
  short aliases. Options are texts or switches, with an optional default; \<open>--name value\<close> and \<open>--name=value\<close> are the same,
  and the last of several wins. The error messages are not documented, so the errors are values.

  No table of the program declares a name of one letter, so anything with a single dash is an unknown option.
\<close>

datatype arg_type = TextOption | SwitchOption

datatype arg_value = TextArg string | SwitchArg bool

record arg_option =
  ao_type :: arg_type
  ao_default :: "arg_value option"

type_synonym arg_table = "(string \<times> arg_option) list"
type_synonym arg_values = "string \<Rightarrow> arg_value option"

datatype args_error =
    UnknownOption string
  | ArgumentMissing string
  | ArgumentAmbiguous string
  | TakesNoArgument string
  | UnexpectedPositional string

abbreviation dash :: char where "dash \<equiv> CHR ''-''"
abbreviation equals_sign :: char where "equals_sign \<equiv> CHR ''=''"

definition text_option :: "string option \<Rightarrow> arg_option" where
  "text_option d = \<lparr>ao_type = TextOption, ao_default = map_option TextArg d\<rparr>"

definition switch_option :: arg_option where
  "switch_option = \<lparr>ao_type = SwitchOption, ao_default = Some (SwitchArg False)\<rparr>"

definition is_long :: "string \<Rightarrow> bool" where
  "is_long arg \<longleftrightarrow> 2 < length arg \<and> take 2 arg = [dash, dash]"

definition is_short :: "string \<Rightarrow> bool" where
  "is_short arg \<longleftrightarrow> 1 < length arg \<and> hd arg = dash \<and> arg ! 1 \<noteq> dash"

text \<open>A long option and the value written into it with an equals sign.\<close>

definition long_name :: "string \<Rightarrow> string" where
  "long_name arg = (if equals_sign \<in> set (drop 3 arg) then takeWhile (\<lambda>c. c \<noteq> equals_sign) (drop 2 arg) else drop 2 arg)"

definition inline_value :: "string \<Rightarrow> string option" where
  "inline_value arg =
     (if equals_sign \<in> set (drop 3 arg) then Some (drop 1 (dropWhile (\<lambda>c. c \<noteq> equals_sign) (drop 2 arg))) else None)"

definition option_like :: "string \<Rightarrow> bool" where
  "option_like v \<longleftrightarrow> 1 < length v \<and> hd v = dash"

text \<open>What one long option stores, and how many of the following arguments it consumed.\<close>

definition read_option :: "arg_table \<Rightarrow> string \<Rightarrow> string list \<Rightarrow> args_error + (string \<times> arg_value) \<times> string list" where
  "read_option os arg rest =
     (case map_of os (long_name arg) of
        None \<Rightarrow> Inl (UnknownOption (dash # dash # long_name arg))
      | Some opt \<Rightarrow>
          (case (ao_type opt, inline_value arg) of
             (TextOption, Some v) \<Rightarrow> Inr ((long_name arg, TextArg v), rest)
           | (TextOption, None) \<Rightarrow>
               (case rest of
                  [] \<Rightarrow> Inl (ArgumentMissing (long_name arg))
                | v # rest' \<Rightarrow> if option_like v then Inl (ArgumentAmbiguous (long_name arg))
                             else Inr ((long_name arg, TextArg v), rest'))
           | (SwitchOption, Some _) \<Rightarrow> Inl (TakesNoArgument (long_name arg))
           | (SwitchOption, None) \<Rightarrow> Inr ((long_name arg, SwitchArg True), rest)))"

lemma read_option_rest: "read_option os arg rest = Inr (kv, rest') \<Longrightarrow> length rest' \<le> length rest"
  by (auto simp: read_option_def split: option.splits arg_type.splits list.splits if_splits)

function read_args :: "arg_table \<Rightarrow> string list \<Rightarrow> args_error + (string \<times> arg_value) list" where
  "read_args os [] = Inr []"
| "read_args os (arg # rest) =
     (if arg = [dash, dash] then (case rest of [] \<Rightarrow> Inr [] | p # _ \<Rightarrow> Inl (UnexpectedPositional p))
      else if is_short arg then Inl (UnknownOption (take 2 arg))
      else if is_long arg then
        (case read_option os arg rest of
           Inl e \<Rightarrow> Inl e
         | Inr (kv, rest') \<Rightarrow> (case read_args os rest' of Inl e \<Rightarrow> Inl e | Inr kvs \<Rightarrow> Inr (kv # kvs)))
      else Inl (UnexpectedPositional arg))"
  by pat_completeness auto

termination
  by (relation "measure (\<lambda>(_, args). length args)") (auto dest!: read_option_rest)

text \<open>The last value of a name, its default otherwise.\<close>

definition filled :: "arg_table \<Rightarrow> (string \<times> arg_value) list \<Rightarrow> arg_values" where
  "filled os kvs name =
     (case map_of (rev kvs) name of
        Some v \<Rightarrow> Some v
      | None \<Rightarrow> Option.bind (map_of os name) ao_default)"

definition parseArgs :: "arg_table \<Rightarrow> string list \<Rightarrow> args_error + arg_values" where
  "parseArgs os argv = map_sum id (filled os) (read_args os argv)"

fun text_arg :: "arg_value option \<Rightarrow> string option" where
  "text_arg (Some (TextArg s)) = Some s"
| "text_arg _ = None"

fun switch_arg :: "arg_value option \<Rightarrow> bool" where
  "switch_arg (Some (SwitchArg b)) = b"
| "switch_arg _ = False"

subsection \<open>What a table promises\<close>

fun arg_typed :: "arg_type \<Rightarrow> arg_value \<Rightarrow> bool" where
  "arg_typed TextOption (TextArg _) = True"
| "arg_typed SwitchOption (SwitchArg _) = True"
| "arg_typed _ _ = False"

lemma read_option_typed:
  "read_option os arg rest = Inr ((k, v), rest') \<Longrightarrow> \<exists>opt. map_of os k = Some opt \<and> arg_typed (ao_type opt) v"
  by (auto simp: read_option_def split: option.splits arg_type.splits list.splits if_splits)

lemma read_args_typed:
  "read_args os argv = Inr kvs \<Longrightarrow> (k, v) \<in> set kvs \<Longrightarrow> \<exists>opt. map_of os k = Some opt \<and> arg_typed (ao_type opt) v"
proof (induction os argv arbitrary: kvs rule: read_args.induct)
  case (2 os arg rest)
  then show ?case
    by (fastforce split: if_splits sum.splits list.splits dest!: read_option_typed)
qed simp

text \<open>How a caller writes a flag so that its value cannot be mistaken for anything else.\<close>

fun written_flag :: "string \<times> arg_value \<Rightarrow> string list" where
  "written_flag (k, TextArg v) = [dash # dash # k @ equals_sign # v]"
| "written_flag (k, SwitchArg b) = (if b then [dash # dash # k] else [])"

fun allowed_flag :: "arg_table \<Rightarrow> string \<times> arg_value \<Rightarrow> bool" where
  "allowed_flag os (k, v) =
     (case map_of os k of None \<Rightarrow> False | Some opt \<Rightarrow> arg_typed (ao_type opt) v \<and> v \<noteq> SwitchArg False)"

text \<open>
  The contract between a tool and the parser of its flags: option names are plain and defaults have the type of their
  option. What a tool then relies on is that names outside its table never get a value, that every value has the type
  the table gives it, and that it reads back whatever a caller wrote.
\<close>

locale flag_table =
  fixes os :: arg_table
  assumes plain_names: "\<And>k opt. map_of os k = Some opt \<Longrightarrow> k \<noteq> [] \<and> equals_sign \<notin> set k"
    and typed_defaults: "\<And>k opt v. map_of os k = Some opt \<Longrightarrow> ao_default opt = Some v \<Longrightarrow> arg_typed (ao_type opt) v"
begin

lemma values_typed:
  assumes "parseArgs os argv = Inr values" and "values k = Some v"
  shows "\<exists>opt. map_of os k = Some opt \<and> arg_typed (ao_type opt) v"
proof -
  obtain kvs where "read_args os argv = Inr kvs" and "values = filled os kvs"
    using assms(1) by (auto simp: parseArgs_def map_sum_def split: sum.splits)
  with assms(2) show ?thesis
    by (auto simp: filled_def bind_eq_Some_conv split: option.splits intro: typed_defaults dest!: map_of_SomeD [of "rev kvs"] read_args_typed)
qed

lemma read_written:
  assumes "map_of os k = Some opt" and "arg_typed (ao_type opt) v" and "v \<noteq> SwitchArg False"
  shows "read_args os (written_flag (k, v) @ rest) = map_sum id ((#) (k, v)) (read_args os rest)"
proof -
  from plain_names [OF assms(1)] obtain c k' where k: "k = c # k'" "c \<noteq> equals_sign" "equals_sign \<notin> set k'" by (cases k) auto
  have k_scan: "takeWhile (\<lambda>c. c \<noteq> equals_sign) (k' @ equals_sign # t) = k'"
      "dropWhile (\<lambda>c. c \<noteq> equals_sign) (k' @ equals_sign # t) = equals_sign # t" for t
    using k(3) by (induction k') auto
  show ?thesis
  proof (cases v)
    case (TextArg t)
    let ?arg = "dash # dash # k @ equals_sign # t"
    have "long_name ?arg = k" "inline_value ?arg = Some t" "is_long ?arg" "\<not> is_short ?arg" "?arg \<noteq> [dash, dash]"
      using k by (simp_all add: long_name_def inline_value_def is_long_def is_short_def k_scan)
    moreover have "ao_type opt = TextOption" using assms(2) TextArg by (cases "ao_type opt") simp_all
    ultimately show ?thesis
      using assms(1) by (simp add: TextArg read_option_def map_sum_def split: sum.split)
  next
    case (SwitchArg b)
    let ?arg = "dash # dash # k"
    have "long_name ?arg = k" "inline_value ?arg = None" "is_long ?arg" "\<not> is_short ?arg" "?arg \<noteq> [dash, dash]"
      using k by (auto simp: long_name_def inline_value_def is_long_def is_short_def)
    moreover have "ao_type opt = SwitchOption" using assms(2) SwitchArg by (cases "ao_type opt") simp_all
    ultimately show ?thesis
      using assms(1,3) by (simp add: SwitchArg read_option_def map_sum_def split: sum.split)
  qed
qed

text \<open>A caller that writes its flags out gets exactly them, and the defaults for the rest.\<close>

lemma parse_written:
  assumes "list_all (allowed_flag os) kvs"
  shows "parseArgs os (concat (map written_flag kvs)) = Inr (filled os kvs)"
proof -
  have "read_args os (concat (map written_flag kvs)) = Inr kvs"
    using assms
  proof (induction kvs)
    case (Cons kv kvs)
    obtain k v where kv: "kv = (k, v)" by force
    then obtain opt where "map_of os k = Some opt" "arg_typed (ao_type opt) v" "v \<noteq> SwitchArg False"
      using Cons.prems by (auto split: option.splits)
    from read_written [OF this, of "concat (map written_flag kvs)"] Cons show ?case by (simp add: kv)
  qed simp
  then show ?thesis by (simp add: parseArgs_def)
qed

end

end
