(* ===== verification/ToolsCli.thy ===== *)
theory ToolsCli
  imports RotationFiles FakeProxy ParseArgs
begin

text \<open>
  The command lines of the operators' tools: the last part of \<open>scripts/rotate-epoch.ts\<close>, \<open>scripts/fake-proxy.ts\<close> and the
  last part of \<open>scripts/generate-dev-keys.ts\<close>, from the arguments to what is written and printed.

  An exception leaves a tool uncaught, so it is the tool's result. What the tools meet outside is a record.
\<close>

record ('sk, 'pk, 'v) rotate_world =
  rw_rt :: runtime
  rw_ed25519 :: "('sk, 'pk) ed25519"
  rw_vault :: "'v vault_api"
  rw_fresh :: "bytes \<times> bytes"
  rw_env :: "string \<rightharpoonup> string"
  rw_args_message :: "args_error \<Rightarrow> string"

subsection \<open>\<open>rotate-epoch\<close>\<close>

definition rotate_table :: "(string \<rightharpoonup> string) \<Rightarrow> arg_table" where
  "rotate_table env =
     [(''keyring'', text_option (Some ''config/keys/keyring.json'')), (''root-key'', text_option (Some ''config/keys/root.pem'')),
      (''epoch-seconds'', text_option (Some (show_nat (30 * 86400)))), (''grace-seconds'', text_option (Some (show_nat 86400))),
      (''vault-secret'', text_option None), (''vault-addr'', text_option (env ''VAULT_ADDR'')),
      (''vault-field'', text_option (Some ''KEYRING_BASE64''))]"

text \<open>The flags. Those with a default are always there; an empty text counts as absent where the code tests for one.\<close>

record rotate_flags =
  rf_keyring :: string
  rf_rootKey :: string
  rf_epochSeconds :: string
  rf_graceSeconds :: string
  rf_vaultSecret :: "string option"
  rf_vaultAddr :: "string option"
  rf_vaultField :: string

definition rotate_values :: "arg_values \<Rightarrow> rotate_flags" where
  "rotate_values v =
     \<lparr>rf_keyring = the (text_arg (v ''keyring'')), rf_rootKey = the (text_arg (v ''root-key'')),
      rf_epochSeconds = the (text_arg (v ''epoch-seconds'')), rf_graceSeconds = the (text_arg (v ''grace-seconds'')),
      rf_vaultSecret = text_arg (v ''vault-secret''), rf_vaultAddr = text_arg (v ''vault-addr''),
      rf_vaultField = the (text_arg (v ''vault-field''))\<rparr>"

datatype rotation_target = IntoVault vault_options string | IntoFile string

record rotation_plan =
  pl_epochSeconds :: jsnumber
  pl_graceSeconds :: jsnumber
  pl_rootKeyPath :: string
  pl_target :: rotation_target

definition plan_rotation :: "runtime \<Rightarrow> (string \<rightharpoonup> string) \<Rightarrow> rotate_flags \<Rightarrow> failure + rotation_plan" where
  "plan_rotation rt env flags =
     (let plan = (\<lambda>target. Inr \<lparr>pl_epochSeconds = js_Number rt (rf_epochSeconds flags),
        pl_graceSeconds = js_Number rt (rf_graceSeconds flags), pl_rootKeyPath = rf_rootKey flags, pl_target = target\<rparr>)
      in if rf_vaultSecret flags \<notin> {None, Some []}
         then if rf_vaultAddr flags \<in> {None, Some []} then Inl (Error ''--vault-secret needs --vault-addr or VAULT_ADDR'')
              else if env ''VAULT_TOKEN'' \<in> {None, Some []} then Inl (Error ''--vault-secret needs VAULT_TOKEN in the environment'')
              else plan (IntoVault \<lparr>vault_addr = the (rf_vaultAddr flags), vault_token = the (env ''VAULT_TOKEN''),
                                   vault_secret = the (rf_vaultSecret flags)\<rparr> (rf_vaultField flags))
         else plan (IntoFile (rf_keyring flags)))"

text \<open>The periods the flags give, when both are whole numbers; the model of the rotation has no others.\<close>

definition whole_schedule :: "rotation_plan \<Rightarrow> rotate_schedule option" where
  "whole_schedule plan =
     (case (pl_epochSeconds plan, pl_graceSeconds plan) of
        (Integer e, Integer g) \<Rightarrow> Some \<lparr>epochSeconds = e, graceSeconds = g\<rparr>
      | _ \<Rightarrow> None)"

definition rotated_line :: "keyring \<Rightarrow> string \<Rightarrow> string" where
  "rotated_line k place =
     ''rotated to epoch '' @ current_epoch k @ place @ ''; '' @ show_nat (length (epochs k)) @ '' epoch(s) usable''"

definition missing_file :: failure where "missing_file = Error ''ENOENT: no such file or directory''"

text \<open>One run of the plan: the printed line, the files afterwards and Vault afterwards.\<close>

definition run_rotation ::
  "('sk, 'pk, 'v) rotate_world \<Rightarrow> rotation_plan \<Rightarrow> rotate_schedule \<Rightarrow> millis \<Rightarrow> files \<Rightarrow> 'v \<times> 'v
     \<Rightarrow> (failure + string) \<times> files \<times> 'v"
where
  "run_rotation world plan periods now f vs =
     (let rt = rw_rt world; C = rw_ed25519 world in
      case pl_target plan of
        IntoVault opts keyField \<Rightarrow>
          (case f (pl_rootKeyPath plan) of
             None \<Rightarrow>
               (case readSecret rt (rw_vault world) opts (fst vs) of
                  Inl e \<Rightarrow> (Inl e, f, snd vs)
                | Inr (data, _) \<Rightarrow>
                    (case existing_in_vault rt (get_prop data keyField) of
                       Inl e \<Rightarrow> (Inl e, f, snd vs) | Inr _ \<Rightarrow> (Inl missing_file, f, snd vs)))
           | Some rootPem \<Rightarrow>
               (case rotateInVault rt C (rw_vault world) (rw_fresh world) opts keyField rootPem periods now vs of
                  (Inl e, v') \<Rightarrow> (Inl e, f, v')
                | (Inr k, v') \<Rightarrow> (Inr (rotated_line k ('' in '' @ vault_secret opts)), f, v')))
      | IntoFile path \<Rightarrow>
          (case rotate_file rt C (rw_fresh world)
                  \<lparr>ro_keyringPath = path, ro_rootKeyPath = pl_rootKeyPath plan, ro_schedule = periods\<rparr> now f of
             Inl e \<Rightarrow> (Inl e, f, snd vs)
           | Inr (k, ops) \<Rightarrow> (Inr (rotated_line k []), fs_run ops f, snd vs)))"

text \<open>The tool; \<open>None\<close> is a period that is not a whole number, which the model leaves out.\<close>

definition rotate_main ::
  "('sk, 'pk, 'v) rotate_world \<Rightarrow> string list \<Rightarrow> millis \<Rightarrow> files \<Rightarrow> 'v \<times> 'v \<Rightarrow> ((failure + string) \<times> files \<times> 'v) option"
where
  "rotate_main world argv now f vs =
     (case parseArgs (rotate_table (rw_env world)) argv of
        Inl e \<Rightarrow> Some (Inl (Error (rw_args_message world e)), f, snd vs)
      | Inr parsed \<Rightarrow>
          (case plan_rotation (rw_rt world) (rw_env world) (rotate_values parsed) of
             Inl e \<Rightarrow> Some (Inl e, f, snd vs)
           | Inr plan \<Rightarrow> map_option (\<lambda>periods. run_rotation world plan periods now f vs) (whole_schedule plan)))"

subsection \<open>\<open>fake-proxy\<close>\<close>

definition FAKE_PROXY_USAGE :: string where
  "FAKE_PROXY_USAGE =
     ''fake-proxy --issuer <url> [--port <n>] [--proxy-key <path>]'' @ [CHR 0x0A, CHR 0x0A]
     @ ''Fronts an issuer with the 402 pay-and-retry flow, so the M0.3 conformance run can be rehearsed'' @ [CHR 0x0A]
     @ ''before the TOON proxy exists. It settles nothing: any receipt is accepted. See docs/deployment.md.''"

definition fake_proxy_table :: arg_table where
  "fake_proxy_table =
     [(''issuer'', text_option None), (''port'', text_option (Some ''3110'')),
      (''proxy-key'', text_option (Some ''config/keys/proxy.pem'')), (''help'', switch_option)]"

datatype proxy_launch =
    UsageExit string nat
  | ProxyFailed failure
  | Fronting proxy_options jsnumber

text \<open>What the tool starts: the options of the proxy and its port. The server's crash response is Bun's.\<close>

definition fake_proxy_main :: "runtime \<Rightarrow> (args_error \<Rightarrow> string) \<Rightarrow> http_response \<Rightarrow> string list \<Rightarrow> files \<Rightarrow> proxy_launch" where
  "fake_proxy_main rt args_message crash argv f =
     (case parseArgs fake_proxy_table argv of
        Inl e \<Rightarrow> ProxyFailed (Error (args_message e))
      | Inr v \<Rightarrow>
          (let issuer = text_arg (v ''issuer''); missing = issuer \<in> {None, Some []} in
           if switch_arg (v ''help'') \<or> missing then UsageExit FAKE_PROXY_USAGE (if missing then 2 else 0)
           else (case f (the (text_arg (v ''proxy-key''))) of
                   None \<Rightarrow> ProxyFailed missing_file
                 | Some pem \<Rightarrow>
                     Fronting \<lparr>fp_issuerUrl = the issuer, fp_signingKeyPem = pem, fp_amount = None, fp_routeId = None, fp_crash = crash\<rparr>
                       (js_Number rt (the (text_arg (v ''port'')))))))"

subsection \<open>\<open>generate-dev-keys\<close>\<close>

definition dev_keys_main ::
  "runtime \<Rightarrow> ('sk, 'pk) ed25519 \<Rightarrow> dev_pairs \<Rightarrow> string \<Rightarrow> millis \<Rightarrow> string list \<Rightarrow> files \<Rightarrow> (failure + string) \<times> files"
where
  "dev_keys_main rt C pairs repo now argv f =
     (case ensureDevKeys rt C pairs repo now (''--force'' \<in> set argv) f of
        (Inl e, f') \<Rightarrow> (Inl e, f')
      | (Inr written, f') \<Rightarrow> (Inr (if written then ''wrote dev keys under '' @ KEYS_DIR repo else ''dev keys already present''), f'))"

subsection \<open>What the flags amount to\<close>

interpretation rotate_flags: flag_table "rotate_table env" for env
  by unfold_locales (auto simp: rotate_table_def text_option_def split: if_splits)

interpretation proxy_flags: flag_table fake_proxy_table
  by unfold_locales (auto simp: fake_proxy_table_def text_option_def switch_option_def split: if_splits)

text \<open>Without flags the tool rotates the development files on the development schedule.\<close>

lemma rotate_no_flags:
  "rotate_main world [] now f vs =
     Some (run_rotation world
       \<lparr>pl_epochSeconds = Integer (epochSeconds dev_schedule), pl_graceSeconds = Integer (graceSeconds dev_schedule),
        pl_rootKeyPath = ''config/keys/root.pem'', pl_target = IntoFile ''config/keys/keyring.json''\<rparr> dev_schedule now f vs)"
  by (simp add: rotate_main_def parseArgs_def filled_def rotate_table_def text_option_def plan_rotation_def rotate_values_def
      whole_schedule_def dev_schedule_def max_safe_def)

text \<open>Whatever the flags, a run that fails leaves the files alone.\<close>

lemma run_rotation_failed_files:
  assumes "run_rotation world plan periods now f vs = (Inl e, f', v')"
  shows "f' = f"
proof (cases "pl_target plan")
  case (IntoVault opts keyField)
  with assms show ?thesis
    by (auto simp: run_rotation_def Let_def split: option.split_asm sum.split_asm prod.split_asm)
next
  case (IntoFile path)
  with assms show ?thesis by (auto simp: run_rotation_def Let_def split: sum.split_asm)
qed

lemma rotate_main_failed_files:
  assumes "rotate_main world argv now f vs = Some (Inl e, f', v')"
  shows "f' = f"
  using assms by (auto simp: rotate_main_def split: sum.split_asm dest: run_rotation_failed_files)

lemma rotate_main_file:
  assumes "rotate_main world argv now f vs = Some (Inr line, f', v')" and "parseArgs (rotate_table (rw_env world)) argv = Inr parsed"
    and "rf_vaultSecret (rotate_values parsed) \<in> {None, Some []}"
  obtains e g k ops where "js_Number (rw_rt world) (rf_epochSeconds (rotate_values parsed)) = Integer e"
    and "js_Number (rw_rt world) (rf_graceSeconds (rotate_values parsed)) = Integer g"
    and "rotate_file (rw_rt world) (rw_ed25519 world) (rw_fresh world)
        \<lparr>ro_keyringPath = rf_keyring (rotate_values parsed), ro_rootKeyPath = rf_rootKey (rotate_values parsed),
         ro_schedule = \<lparr>epochSeconds = e, graceSeconds = g\<rparr>\<rparr> now f = Inr (k, ops)"
    and "f' = fs_run ops f" and "v' = snd vs" and "line = rotated_line k []"
  using assms
  by (auto simp: rotate_main_def plan_rotation_def run_rotation_def whole_schedule_def Let_def
      split: sum.splits option.splits prod.splits jsnumber.splits)

text \<open>\<open>--help\<close> alone is refused like a missing issuer: the code looks at the issuer for the exit code.\<close>

lemma proxy_help_needs_issuer:
  "fake_proxy_main rt msg crash [''--help''] f = UsageExit FAKE_PROXY_USAGE 2"
  by (simp add: fake_proxy_main_def parseArgs_def filled_def read_option_def fake_proxy_table_def text_option_def switch_option_def
      is_long_def is_short_def long_name_def inline_value_def)

end
