(* ===== verification/PropertiesRotation.thy ===== *)
theory PropertiesRotation
  imports Samples ToolsCli
begin

text \<open>The properties of the epoch rotation, in a file and in Vault, with the witnesses that run them.\<close>

subsection \<open>A rotation of the sample keyring\<close>

definition sample_schedule :: rotate_schedule where
  "sample_schedule = \<lparr>epochSeconds = 60, graceSeconds = 10\<rparr>"

definition sample_root_pem :: string where
  "sample_root_pem = derToPkcs8Pem ''root''"

definition sample_fresh :: "bytes \<times> bytes" where
  "sample_fresh = (''spki'', ''pkcs8'')"

lemma sample_root_imported: "importRootSigningKey strict_runtime sample_ed25519 sample_root_pem = Inr ()"
  by (simp add: importRootSigningKey_def sample_root_pem_def pkcs8_roundtrip lift_error_def sample_ed25519_def)

lemma sample_schedule_fits: "0 \<le> t \<Longrightarrow> t \<le> 1000000 \<Longrightarrow> schedule_fits sample_schedule t"
  by (simp add: schedule_fits_def sample_schedule_def maxTime_def)

lemma signed_entry_window: "e \<in> set (epochs signed_keyring) \<Longrightarrow> window e 0 86400000"
  using epoch_days by (simp add: window_def signed_keyring_def sample_entry_def)

lemma sample_rotatable:
  assumes "0 \<le> t" shows "rotatable (Some signed_keyring) ''8'' t"
proof -
  have "show_nat 7 = ''7''" "show_nat (Suc 7) = ''8''" by code_simp+
  then have "current_epoch signed_keyring = show_nat 7 \<and> 7 < max_safe \<and> ''8'' = show_nat (Suc 7)"
    by (simp add: signed_keyring_def max_safe_def)
  moreover have "''8'' \<notin> set (map epoch_id (epochs signed_keyring))" by (simp add: signed_keyring_def sample_entry_def)
  moreover have "\<forall>e \<in> set (epochs signed_keyring). \<exists>t0 t1. window e t0 t1 \<and> t0 \<le> t"
    using signed_entry_window assms by blast
  ultimately show ?thesis unfolding rotatable_def using signed_keyring_ok by auto
qed

lemma sample_texts: "\<forall>e \<in> set (epochs signed_keyring). entry_text e"
  by (simp add: signed_keyring_def sample_entry_def entry_text_def keyring_values)

lemma sample_file_read: "read_keyring_text strict_runtime sample_file = Inr signed_keyring"
  using sample_file_plain parseKeyring_keyring_json [OF signed_keyring_ok, of strict_runtime]
  by (simp add: read_keyring_text_def sample_file_def)

subsection \<open>Properties\<close>

text \<open>C26. A rotation is never one the issuer rejects, given a positive epoch length: from no keyring, or from the
  text of an acceptable one whose epochs have begun and whose next number is free, the tool returns a keyring whose
  current epoch is the next number, and the text it writes is accepted by the issuer's reload as exactly that
  keyring.\<close>

theorem rotation_accepted_by_issuer:
  assumes "case contents of None \<Rightarrow> existing = None | Some raw \<Rightarrow> \<exists>k. existing = Some k \<and> read_keyring_text rt raw = Inr k"
    and "importRootSigningKey rt C rootPem = Inr sk" and "ed25519_correct C sk" and "fst fresh \<noteq> []"
    and "rotatable existing nextId now" and "schedule_fits options now" and "0 < epochSeconds options"
    and "\<forall>e \<in> set (case existing of None \<Rightarrow> [] | Some k \<Rightarrow> epochs k). entry_text e"
  shows "\<exists>k written. rotateEpoch rt C fresh contents rootPem options now = Inr (k, written)
    \<and> current_epoch k = nextId \<and> accept_keyring rt C written = Inr k"
  using rotateEpoch_rotated [OF assms(1,2,3,5,6), of fresh] rotation_accepted(1) [OF assms(5,6,7,3,4,8), of rt]
  by (simp add: Let_def rotated_def)

theorem rotation_accepted_by_issuer_witness:
  "\<exists>k written. rotateEpoch strict_runtime sample_ed25519 sample_fresh (Some sample_file) sample_root_pem sample_schedule 1000
       = Inr (k, written)
     \<and> current_epoch k = ''8'' \<and> accept_keyring strict_runtime sample_ed25519 written = Inr k"
  using sample_file_read sample_texts
  by (intro rotation_accepted_by_issuer [OF _ sample_root_imported sample_ed25519_correct _ sample_rotatable
        sample_schedule_fits, where contents = "Some sample_file"])
    (simp_all add: sample_fresh_def sample_schedule_def)

text \<open>C28. A rotation shortens every outgoing epoch to the grace window and never extends one: from the rotation on,
  an epoch of the old keyring is usable under the new one exactly while it was usable before and the window is
  open, with the same key pair; the fresh epoch is usable exactly for its configured length.\<close>

theorem rotation_grace_window:
  assumes "importRootSigningKey rt C rootPem = Inr sk" and "ed25519_correct C sk" and "fst fresh \<noteq> []"
    and "rotatable (Some k) nextId now" and "schedule_fits options now" and "0 < epochSeconds options"
    and "now \<le> t" and "i \<noteq> nextId"
  shows "\<exists>k'. nextKeyring rt C fresh (Some k) rootPem options now = Inr k'
    \<and> ((\<exists>e'. usableEpoch rt k' i t = Some e' \<and> pubkey e' = pub \<and> private_key_pkcs8_pem e' = pem) \<longleftrightarrow>
         (\<exists>e. usableEpoch rt k i t = Some e \<and> pubkey e = pub \<and> private_key_pkcs8_pem e = pem)
         \<and> t < now + graceSeconds options * 1000)
    \<and> (usableEpoch rt k' nextId t \<noteq> None \<longleftrightarrow> t < now + epochSeconds options * 1000)"
proof -
  let ?k' = "rotated C sk fresh nextId (epochs k) options now"
  have "keyring_ok ?k'" using rotated_ok [OF assms(4,5,6,2,3)] by simp
  then show ?thesis
    using nextKeyring_rotated [OF assms(1,2) rotatable_next [OF assms(4)] rotatable_entries [OF assms(4)] assms(5), of fresh]
      rotated_usable_old [OF assms(4,5) _ assms(7,8), of C sk fresh rt pub pem] rotated_usable_fresh [OF assms(5), of C sk fresh nextId "epochs k" rt t]
      assms(7) by simp
qed

theorem rotation_grace_window_witness:
  "\<exists>k'. nextKeyring strict_runtime sample_ed25519 sample_fresh (Some signed_keyring) sample_root_pem sample_schedule 1000 = Inr k'
    \<and> \<not> (\<exists>e'. usableEpoch strict_runtime k' ''7'' 11000 = Some e' \<and> pubkey e' = ''AAAA'' \<and> private_key_pkcs8_pem e' = ''pem'')
    \<and> usableEpoch strict_runtime k' ''8'' 11000 \<noteq> None"
  using rotation_grace_window [OF sample_root_imported sample_ed25519_correct _ sample_rotatable sample_schedule_fits,
      of sample_fresh 1000 11000 "''7''" "''AAAA''" "''pem''"]
  by (auto simp: sample_fresh_def sample_schedule_def)

text \<open>The check before publishing covers signatures only: with an epoch length that is not positive the rotation
  still succeeds, and what it writes the issuer rejects.\<close>

lemma nonpositive_period_rejected:
  assumes "case contents of None \<Rightarrow> existing = None | Some raw \<Rightarrow> \<exists>k. existing = Some k \<and> read_keyring_text rt raw = Inr k"
    and "importRootSigningKey rt C rootPem = Inr sk" and "ed25519_correct C sk"
    and "rotatable existing nextId now" and "schedule_fits options now" and "epochSeconds options \<le> 0"
    and "\<forall>e \<in> set (case existing of None \<Rightarrow> [] | Some k \<Rightarrow> epochs k). entry_text e"
  shows "\<exists>k written e. rotateEpoch rt C fresh contents rootPem options now = Inr (k, written)
    \<and> accept_keyring rt C written = Inl e"
proof -
  let ?k = "rotated C sk fresh nextId (case existing of None \<Rightarrow> [] | Some k \<Rightarrow> epochs k) options now"
  have "\<not> entry_ok (fresh_epoch C sk fresh nextId options now)"
    using entry_ok_window window_unique [OF window_fresh [OF assms(5)]] assms(6) by fastforce
  then have "\<not> keyring_ok ?k" by (auto simp: keyring_ok_def rotated_def)
  then have "parseKeyring rt (keyring_json ?k) \<noteq> Inr k'" for k'
    using parseKeyring_Inr parseKeyring_json_inv by metis
  then obtain e where "parseKeyring rt (keyring_json ?k) = Inl e" by (meson sum.exhaust)
  then have "accept_keyring rt C (json_pretty 0 (keyring_json ?k) @ [CHR 0x0A]) = Inl e"
    using rotatable_plain [OF assms(4,7,5), of C sk fresh] by (simp add: accept_keyring_def)
  then show ?thesis
    using rotateEpoch_rotated [OF assms(1-5), of fresh] by (simp add: Let_def)
qed

text \<open>C30. From the command line: with \<open>--epoch-seconds\<close> not positive and a keyring file (or none) and a root key the tool
  can otherwise rotate, it prints that it rotated and replaces the keyring file by one the issuer rejects.\<close>

theorem rotation_nonpositive_published:
  assumes "parseArgs (rotate_table (rw_env world)) argv = Inr parsed" and "flags = rotate_values parsed"
    and "rf_vaultSecret flags \<in> {None, Some []}"
    and "js_Number (rw_rt world) (rf_epochSeconds flags) = Integer e" and "js_Number (rw_rt world) (rf_graceSeconds flags) = Integer g"
    and "case f (rf_keyring flags) of None \<Rightarrow> existing = None
      | Some raw \<Rightarrow> \<exists>k. existing = Some k \<and> read_keyring_text (rw_rt world) raw = Inr k"
    and "f (rf_rootKey flags) = Some rootPem" and "importRootSigningKey (rw_rt world) (rw_ed25519 world) rootPem = Inr sk"
    and "ed25519_correct (rw_ed25519 world) sk" and "rotatable existing nextId now"
    and "schedule_fits \<lparr>epochSeconds = e, graceSeconds = g\<rparr> now" and "e \<le> 0"
    and "\<forall>x \<in> set (case existing of None \<Rightarrow> [] | Some k \<Rightarrow> epochs k). entry_text x"
  shows "\<exists>k f' written e. rotate_main world argv now f vs = Some (Inr (rotated_line k []), f', snd vs)
    \<and> f' (rf_keyring flags) = Some written \<and> accept_keyring (rw_rt world) (rw_ed25519 world) written = Inl e"
proof -
  let ?s = "\<lparr>epochSeconds = e, graceSeconds = g\<rparr>"
  let ?opts = "\<lparr>ro_keyringPath = rf_keyring flags, ro_rootKeyPath = rf_rootKey flags, ro_schedule = ?s\<rparr>"
  obtain k written err where k: "rotateEpoch (rw_rt world) (rw_ed25519 world) (rw_fresh world) (f (rf_keyring flags)) rootPem ?s now = Inr (k, written)"
    and err: "accept_keyring (rw_rt world) (rw_ed25519 world) written = Inl err"
    using nonpositive_period_rejected [OF assms(6,8,9,10,11) _ assms(13), of "rw_fresh world"] assms(12) by auto
  have "rotate_file (rw_rt world) (rw_ed25519 world) (rw_fresh world) ?opts now f = Inr (k, writeAtomically (rf_keyring flags) written)"
    using rotate_file_rotates [of f ?opts rootPem] assms(7) k by simp
  then have "rotate_main world argv now f vs =
      Some (Inr (rotated_line k []), fs_run (writeAtomically (rf_keyring flags) written) f, snd vs)"
    using assms(1,3-5) by (simp add: assms(2) rotate_main_def plan_rotation_def run_rotation_def whole_schedule_def Let_def)
  moreover have "fs_run (writeAtomically (rf_keyring flags) written) f (rf_keyring flags) = Some written"
    by (simp add: writeAtomically_run)
  ultimately show ?thesis using err by blast
qed

definition sample_rotate_world :: "(unit, unit, unit) rotate_world" where
  "sample_rotate_world =
     \<lparr>rw_rt = strict_runtime, rw_ed25519 = sample_ed25519,
      rw_vault = \<lparr>vault_get = (\<lambda>_ _ _. Inl []), vault_post = (\<lambda>_ _ _ v. (Inl [], v))\<rparr>,
      rw_fresh = sample_fresh, rw_env = Map.empty, rw_args_message = (\<lambda>_. [])\<rparr>"

definition zero_flags :: "(string \<times> arg_value) list" where
  "zero_flags = [(''epoch-seconds'', TextArg ''0'')]"

theorem rotation_nonpositive_published_witness:
  "\<exists>k f' written e. rotate_main sample_rotate_world (concat (map written_flag zero_flags)) 1000 [''config/keys/root.pem'' \<mapsto> sample_root_pem] ((), ())
       = Some (Inr (rotated_line k []), f', ())
     \<and> f' ''config/keys/keyring.json'' = Some written \<and> accept_keyring strict_runtime sample_ed25519 written = Inl e"
proof -
  let ?t = "rotate_table Map.empty" and ?f = "[''config/keys/root.pem'' \<mapsto> sample_root_pem]"
  have parsed: "parseArgs (rotate_table (rw_env sample_rotate_world)) (concat (map written_flag zero_flags)) = Inr (filled ?t zero_flags)"
    unfolding sample_rotate_world_def rotate_world.simps
    by (rule rotate_flags.parse_written) (simp add: zero_flags_def rotate_table_def text_option_def)
  have flags: "rotate_values (filled ?t zero_flags) =
    \<lparr>rf_keyring = ''config/keys/keyring.json'', rf_rootKey = ''config/keys/root.pem'', rf_epochSeconds = ''0'',
     rf_graceSeconds = show_nat 86400, rf_vaultSecret = None, rf_vaultAddr = None, rf_vaultField = ''KEYRING_BASE64''\<rparr>"
    by (simp add: rotate_values_def filled_def zero_flags_def rotate_table_def text_option_def)
  have "js_Number strict_runtime ''0'' = Integer 0"
    by (simp add: js_Number_def is_digit_def read_nat_def digit_val_def)
  moreover have "rotatable None ''0'' 1000" "schedule_fits \<lparr>epochSeconds = 0, graceSeconds = 86400\<rparr> 1000"
    by (simp_all add: rotatable_def schedule_fits_def maxTime_def)
  moreover have "js_Number strict_runtime (show_nat 86400) = Integer 86400" by (simp add: max_safe_def)
  ultimately show ?thesis
    using rotation_nonpositive_published [OF parsed flags [symmetric], where e = 0 and g = 86400 and f = ?f and existing = None
        and rootPem = sample_root_pem and sk = "()" and nextId = "''0''" and now = 1000 and vs = "((), ())"]
      sample_root_imported sample_ed25519_correct
    by (simp add: sample_rotate_world_def)
qed

text \<open>C29. Rotating in Vault, on any store with KV version 2's compare-and-set: when no other write came between the
  read and the write, the rotation succeeds, increments the version, keeps every other field of the secret and leaves
  a keyring field that reads back as the returned keyring; a rotation that raced it from the same read then fails
  and changes nothing.\<close>

theorem vault_rotation_cas:
  assumes "kv2 V url (vault_token opts) data version" and "dataUrl opts = Inr url"
    and "data v = JObj kvs" and "json_plain (data v)" and "valid_utf8 keyField"
    and "existing_in_vault rt (get_prop (data v) keyField) = Inr existing"
    and "importRootSigningKey rt C rootPem = Inr sk" and "ed25519_correct C sk" and "fst fresh \<noteq> []"
    and "rotatable existing nextId now" and "schedule_fits options now" and "0 < epochSeconds options"
    and "\<forall>e \<in> set (case existing of None \<Rightarrow> [] | Some k \<Rightarrow> epochs k). entry_text e"
    and "schedule_fits options later"
  shows "\<exists>k w. rotateInVault rt C V fresh opts keyField rootPem options now (v, v) = (Inr k, w)
    \<and> version w = Suc (version v)
    \<and> (\<forall>f. f \<noteq> keyField \<longrightarrow> get_prop (data w) f = get_prop (data v) f)
    \<and> existing_in_vault rt (get_prop (data w) keyField) = Inr (Some k)
    \<and> (\<exists>e. rotateInVault rt C V fresh' opts keyField rootPem options later (v, w) = (Inl e, w))"
proof -
  let ?es = "case existing of None \<Rightarrow> [] | Some k \<Rightarrow> epochs k"
  let ?k = "rotated C sk fresh nextId ?es options now"
  note next_id = rotatable_next [OF assms(10)] and entries = rotatable_entries [OF assms(10)]
  have k: "nextKeyring rt C fresh existing rootPem options now = Inr ?k"
    by (rule nextKeyring_rotated [OF assms(7,8) next_id entries assms(11)])
  have raced: "nextKeyring rt C fresh' existing rootPem options later = Inr (rotated C sk fresh' nextId ?es options later)"
    by (rule nextKeyring_rotated [OF assms(7,8) next_id entries assms(14)])
  obtain w where w: "rotateInVault rt C V fresh opts keyField rootPem options now (v, v) = (Inr ?k, w)"
      "data w = JObj (obj_put kvs keyField (encode_keyring ?k))" "version w = Suc (version v)"
    using rotateInVault_outcome(1) [OF assms(1-6) k, of v] by blast
  have "existing_in_vault rt (encode_keyring ?k) = Inr (Some ?k)"
    using rotation_accepted(2) [OF assms(10-12,8,9,13), of rt] by (rule existing_in_vault_written)
  moreover have "\<exists>e. rotateInVault rt C V fresh' opts keyField rootPem options later (v, w) = (Inl e, w)"
    using rotateInVault_outcome(2) [OF assms(1-6) raced, of w] w(3) by simp
  ultimately show ?thesis
    using w by (intro exI [of _ ?k] exI [of _ w]) (simp del: get_prop.simps add: get_prop_put assms(3))
qed

definition sample_vault :: vault_options where
  "sample_vault = \<lparr>vault_addr = ''http://vault/'', vault_token = ''t'', vault_secret = ''/kv/issuer''\<rparr>"

definition sample_secret :: "nat \<times> jsval" where
  "sample_secret = (3, JObj [(''DB_PASSWORD'', JStr ''secret''), (''KEYRING_BASE64'', JStr [])])"

lemma sample_vault_url: "dataUrl sample_vault = Inr ''http://vault/v1/kv/data/issuer''"
  by code_simp

lemma sample_secret_plain: "json_plain (snd sample_secret)" "valid_utf8 ''KEYRING_BASE64''"
proof -
  have "valid_utf8 ''DB_PASSWORD''" "valid_utf8 ''secret''" "valid_utf8 ''KEYRING_BASE64''"
    by (rule valid_utf8_all_ascii, simp add: ascii_def in_range_def)+
  then show "json_plain (snd sample_secret)" "valid_utf8 ''KEYRING_BASE64''" by (simp_all add: sample_secret_def)
qed

theorem vault_rotation_cas_witness:
  "\<exists>k w. rotateInVault strict_runtime sample_ed25519 mem_vault sample_fresh sample_vault ''KEYRING_BASE64''
            sample_root_pem sample_schedule 1000 (sample_secret, sample_secret) = (Inr k, w)
    \<and> fst w = 4 \<and> get_prop (snd w) ''DB_PASSWORD'' = JStr ''secret''
    \<and> (\<exists>e. rotateInVault strict_runtime sample_ed25519 mem_vault (''a'', ''b'') sample_vault ''KEYRING_BASE64''
              sample_root_pem sample_schedule 2000 (sample_secret, w) = (Inl e, w))"
proof -
  let ?rotate = "\<lambda>fresh. rotateInVault strict_runtime sample_ed25519 mem_vault fresh sample_vault ''KEYRING_BASE64''
            sample_root_pem sample_schedule"
  have "existing_in_vault strict_runtime (get_prop (snd sample_secret) ''KEYRING_BASE64'') = Inr None"
    by (simp add: sample_secret_def existing_in_vault_def)
  moreover have "0 < epochSeconds sample_schedule" "schedule_fits sample_schedule 1000" "schedule_fits sample_schedule 2000"
    "fst sample_fresh \<noteq> []"
    using sample_schedule_fits by (simp_all add: sample_schedule_def sample_fresh_def)
  ultimately obtain k w where "?rotate sample_fresh 1000 (sample_secret, sample_secret) = (Inr k, w)" "fst w = Suc (fst sample_secret)"
    "\<forall>f. f \<noteq> ''KEYRING_BASE64'' \<longrightarrow> get_prop (snd w) f = get_prop (snd sample_secret) f"
    "\<exists>e. ?rotate (''a'', ''b'') 2000 (sample_secret, w) = (Inl e, w)"
    using vault_rotation_cas [OF kv2_mem_vault sample_vault_url _ sample_secret_plain _ sample_root_imported sample_ed25519_correct,
      of "[(''DB_PASSWORD'', JStr ''secret''), (''KEYRING_BASE64'', JStr [])]" None sample_fresh "''0''" 1000 sample_schedule 2000
        "(''a'', ''b'')"]
    by (auto simp: rotatable_def sample_secret_def)
  moreover from this(3) have "get_prop (snd w) ''DB_PASSWORD'' = JStr ''secret''" by (simp add: sample_secret_def)
  ultimately show ?thesis by (auto simp: sample_secret_def)
qed

subsection \<open>On disk\<close>

text \<open>C27. Nobody ever reads a half-written keyring. Whatever moment of a rotation the issuer polls the file at, or wherever
  the tool is killed, the file holds the old text or the whole new one, which the issuer accepts: it keeps the keyring
  it has or adopts the rotated one. No other file but the temporary one is touched.\<close>

theorem rotation_never_torn:
  assumes "case f (ro_keyringPath opts) of None \<Rightarrow> existing = None
      | Some raw \<Rightarrow> \<exists>k. existing = Some k \<and> read_keyring_text rt raw = Inr k \<and> ks_fingerprint s = Some (sha256 raw)"
    and "f (ro_rootKeyPath opts) = Some rootPem" and "importRootSigningKey rt C rootPem = Inr sk" and "ed25519_correct C sk"
    and "fst fresh \<noteq> []" and "rotatable existing nextId now" and "schedule_fits (ro_schedule opts) now"
    and "0 < epochSeconds (ro_schedule opts)"
    and "\<forall>e \<in> set (case existing of None \<Rightarrow> [] | Some k \<Rightarrow> epochs k). entry_text e"
    and "rotate_file rt C fresh opts now f = Inr (k, ops)" and "g \<in> fs_seen ops f"
    and "reload rt C sha256 config False (g (ro_keyringPath opts)) t s = Inr r"
  shows "(rr_state r = s \<or> ks_keyring (rr_state r) = Some k)
    \<and> (g (ro_keyringPath opts) = f (ro_keyringPath opts)
         \<or> (\<exists>text. g (ro_keyringPath opts) = Some text \<and> accept_keyring rt C text = Inr k))
    \<and> (\<forall>q. q \<notin> {ro_keyringPath opts, temporary_path (ro_keyringPath opts)} \<longrightarrow> g q = f q)"
proof -
  let ?path = "ro_keyringPath opts"
  obtain written where run: "rotateEpoch rt C fresh (f ?path) rootPem (ro_schedule opts) now = Inr (k, written)"
    and ops: "ops = writeAtomically ?path written"
    using assms(2,10) by (rule rotate_file_outcome)
  have old: "case f ?path of None \<Rightarrow> existing = None | Some raw \<Rightarrow> \<exists>k. existing = Some k \<and> read_keyring_text rt raw = Inr k"
    using assms(1) by (auto split: option.splits)
  have accepted: "accept_keyring rt C written = Inr k"
    using run rotateEpoch_rotated [OF old assms(3,4,6,7), of fresh] rotation_accepted(1) [OF assms(6,7,8,4,5,9), of rt]
    by (auto simp: Let_def)
  from writeAtomically_seen [OF assms(11) [unfolded ops]]
  have seen: "g ?path = f ?path \<or> g ?path = Some written" "q \<notin> {?path, temporary_path ?path} \<Longrightarrow> g q = f q" for q by auto
  moreover have "rr_state r = s" if "g ?path = f ?path"
    using assms(1,12) that by (cases "f ?path") (auto simp: reload_def Let_def)
  moreover have "rr_state r = s \<or> ks_keyring (rr_state r) = Some k" if "g ?path = Some written"
    using assms(12) accepted that by (auto simp: reload_def Let_def split: if_splits sum.splits)
  ultimately show ?thesis using accepted by blast
qed

theorem rotation_never_torn_witness:
  "\<exists>k ops g. rotate_file strict_runtime sample_ed25519 sample_fresh
        \<lparr>ro_keyringPath = ''k'', ro_rootKeyPath = ''r'', ro_schedule = sample_schedule\<rparr> 1000
        [''k'' \<mapsto> sample_file, ''r'' \<mapsto> sample_root_pem] = Inr (k, ops)
     \<and> g \<in> fs_seen ops [''k'' \<mapsto> sample_file, ''r'' \<mapsto> sample_root_pem] \<and> g ''k'' = Some sample_file \<and> g ''k.tmp'' = Some ''{''
     \<and> g ''r'' = Some sample_root_pem"
proof -
  let ?f = "[''k'' \<mapsto> sample_file, ''r'' \<mapsto> sample_root_pem]" and ?s = "\<lparr>ks_keyring = Some signed_keyring, ks_fingerprint = Some sample_file\<rparr>"
  let ?opts = "\<lparr>ro_keyringPath = ''k'', ro_rootKeyPath = ''r'', ro_schedule = sample_schedule\<rparr>"
  let ?k = "rotated sample_ed25519 () sample_fresh ''8'' (epochs signed_keyring) sample_schedule 1000"
  let ?new = "json_pretty 0 (keyring_json ?k) @ [CHR 0x0A]" and ?g = "?f(''k.tmp'' \<mapsto> ''{'')"
  have run: "rotateEpoch strict_runtime sample_ed25519 sample_fresh (Some sample_file) sample_root_pem sample_schedule 1000 = Inr (?k, ?new)"
    using rotateEpoch_rotated [OF _ sample_root_imported sample_ed25519_correct sample_rotatable sample_schedule_fits,
        of "Some sample_file" 1000 sample_fresh] sample_file_read by (simp add: Let_def)
  have rot: "rotate_file strict_runtime sample_ed25519 sample_fresh ?opts 1000 ?f = Inr (?k, writeAtomically ''k'' ?new)"
    using rotate_file_rotates [of ?f ?opts sample_root_pem] run by simp
  have "take 1 ?new = ''{''" by (simp add: keyring_json_def)
  then have seen: "?g \<in> fs_seen (writeAtomically ''k'' ?new) ?f"
    by (auto simp: writeAtomically_def temporary_path_def intro!: image_eqI [of _ _ 1])
  have "reload strict_runtime sample_ed25519 (\<lambda>x. x) sample_config False (?g ''k'') 1000 ?s = Inr \<lparr>rr_state = ?s, rr_notify = None, rr_log = []\<rparr>"
    by (simp add: reload_def)
  then have "?g ''r'' = ?f ''r''"
    using rotation_never_torn [where f = ?f and opts = ?opts and existing = "Some signed_keyring" and s = ?s and g = ?g
        and nextId = "''8''" and now = 1000 and k = ?k and ops = "writeAtomically ''k'' ?new",
        OF _ _ sample_root_imported sample_ed25519_correct]
      rot seen sample_texts sample_file_read sample_rotatable [of 1000] sample_schedule_fits [of 1000]
    by (simp add: sample_fresh_def sample_schedule_def)
  then show ?thesis using rot seen by (intro exI [of _ ?k] exI [of _ "writeAtomically ''k'' ?new"] exI [of _ ?g]) simp
qed

text \<open>C31. Fresh development keys run the issuer: without a keyring on disk the tool writes four files from which the issuer
  accepts a keyring whose only epoch is \<open>0\<close> and loads the proxy's public key, and a second run changes nothing.\<close>

theorem dev_keys_usable:
  assumes "f (DEV_KEYRING repo) = None" and "ed_import_private C (dp_root_pkcs8 pairs) = Inr sk" and "ed25519_correct C sk"
    and "fst (dp_epoch pairs) \<noteq> []" and "schedule_fits dev_schedule now"
    and "ed_import_public C (dp_proxy_spki pairs) = Inr pk" and "isDecimal (bundlePrice config)"
  shows "\<exists>g k text pem. ensureDevKeys rt C pairs repo now force f = (Inr True, g)
    \<and> g (DEV_KEYRING repo) = Some text \<and> accept_keyring rt C text = Inr k
    \<and> current_epoch k = ''0'' \<and> map epoch_id (epochs k) = [''0'']
    \<and> g (DEV_PROXY_PUBLIC_PEM repo) = Some pem \<and> load_proxy_key rt C config (Some pem) = Inr pk
    \<and> ensureDevKeys rt C pairs repo now False g = (Inr False, g)"
proof -
  let ?k = "rotated C sk (dp_epoch pairs) ''0'' [] dev_schedule now"
  let ?text = "json_pretty 0 (keyring_json ?k) @ [CHR 0x0A]"
  have key: "importRootSigningKey rt C (derToPkcs8Pem (dp_root_pkcs8 pairs)) = Inr sk"
    by (simp add: importRootSigningKey_def pkcs8_roundtrip lift_error_def assms(2))
  have rot: "rotatable None ''0'' now" by (simp add: rotatable_def)
  have "rotateEpoch rt C (dp_epoch pairs) (f (DEV_KEYRING repo)) (derToPkcs8Pem (dp_root_pkcs8 pairs)) dev_schedule now = Inr (?k, ?text)"
    using rotateEpoch_rotated [OF _ key assms(3) rot assms(5), of "f (DEV_KEYRING repo)"] by (simp add: assms(1) Let_def)
  then obtain g where g: "generateDevKeys rt C pairs repo now f = (Inr (), g)" "g (DEV_KEYRING repo) = Some ?text"
    "g (DEV_ROOT_KEY repo) \<noteq> None" "g (DEV_PROXY_KEY_PEM repo) \<noteq> None"
    "g (DEV_PROXY_PUBLIC_PEM repo) = Some (derToSpkiPem (dp_proxy_spki pairs))"
    by (rule generateDevKeys_files) simp
  have "accept_keyring rt C ?text = Inr ?k"
    using rotation_accepted(1) [OF rot assms(5) _ assms(3,4), of rt] by (simp add: dev_schedule_def)
  moreover have "load_proxy_key rt C config (Some (derToSpkiPem (dp_proxy_spki pairs))) = Inr pk"
    by (simp add: load_proxy_key_def spki_roundtrip assms(6,7))
  moreover have "current_epoch ?k = ''0''" "map epoch_id (epochs ?k) = [''0'']" by (simp_all add: rotated_def fresh_epoch_def)
  ultimately show ?thesis
    using g by (intro exI [of _ g] exI [of _ ?k] exI [of _ ?text] exI [of _ "derToSpkiPem (dp_proxy_spki pairs)"])
      (simp add: ensureDevKeys_def assms(1) Let_def)
qed

theorem dev_keys_usable_witness:
  "\<exists>g k text. ensureDevKeys strict_runtime sample_ed25519
        \<lparr>dp_root_pkcs8 = ''root'', dp_epoch = sample_fresh, dp_proxy_pkcs8 = ''proxy'', dp_proxy_spki = ''public''\<rparr> ''repo'' 0 False Map.empty
      = (Inr True, g) \<and> g (DEV_KEYRING ''repo'') = Some text \<and> accept_keyring strict_runtime sample_ed25519 text = Inr k"
proof -
  have "isDecimal (bundlePrice sample_config)"
    by (simp add: sample_config_def isDecimal_def Let_def all_digits_def is_digit_def startsWith_def)
  then show ?thesis
    using dev_keys_usable [of Map.empty "''repo''" sample_ed25519
        "\<lparr>dp_root_pkcs8 = ''root'', dp_epoch = sample_fresh, dp_proxy_pkcs8 = ''proxy'', dp_proxy_spki = ''public''\<rparr>" "()" 0 "()"
        sample_config strict_runtime False] sample_ed25519_correct [of "()"]
    by (auto simp: sample_ed25519_def sample_fresh_def dev_schedule_def schedule_fits_def maxTime_def)
qed

end
