(* ===== verification/SignerPool.thy ===== *)
theory SignerPool
  imports Signing "HOL-Library.Multiset"
begin

text \<open>
  \<open>signing/signer-pool.ts\<close>: the pool of blind-signing workers as a state machine. A slot is a worker, a
  task is one call of \<open>sign\<close>; both are numbered in the order they appear.

  One event is one macrotask of the event loop: a call of \<open>sign\<close>, a worker's message, a timer, a worker's
  error or exit, a key rotation, the shutdown. The continuations a settled promise schedules (the
  \<open>finally\<close> block that releases the slot, the start of the task that was waiting for it) are microtasks,
  which run before the next event, so they belong to the event that settled the promise. What an event
  makes visible outside (messages to workers, settled promises, workers started and stopped) is its list
  of actions; log lines are left out.
\<close>

record task =
  tk_no :: nat
  tk_epoch :: string
  tk_blank :: string

datatype pool_action =
    Spawned nat "key_material list"
  | PostKeys nat "key_material list"
  | PostSign nat nat task
  | Resolve task string
  | Reject task string
  | Terminate nat

record pool =
  slots :: "nat list"
  idle :: "nat list"
  waiting :: "task list"
  pending :: "(nat \<times> nat \<times> task) list"  \<comment> \<open>id, slot and task, in order of insertion\<close>
  retired :: "nat list"  \<comment> \<open>the slots whose \<open>alive\<close> is false\<close>
  nextId :: nat
  nextSlot :: nat
  started :: bool
  shuttingDown :: bool
  material :: "key_material list"  \<comment> \<open>\<open>keys.keyMaterial()\<close>: the keys of the keyring installed last\<close>

definition initial_pool :: "key_material list \<Rightarrow> pool" where
  "initial_pool keys =
     \<lparr>slots = [], idle = [], waiting = [], pending = [], retired = [], nextId = 0, nextSlot = 0,
      started = False, shuttingDown = False, material = keys\<rparr>"

subsection \<open>Operations\<close>

text \<open>The body of \<open>sign\<close> once it has a slot.\<close>

definition dispatch :: "nat \<Rightarrow> task \<Rightarrow> pool \<Rightarrow> pool \<times> pool_action list" where
  "dispatch slot t p =
     (p\<lparr>pending := pending p @ [(nextId p, slot, t)], nextId := nextId p + 1\<rparr>, [PostSign slot (nextId p) t])"

definition release :: "nat \<Rightarrow> pool \<Rightarrow> pool \<times> pool_action list" where
  "release slot p =
     (case waiting p of
        [] \<Rightarrow> (p\<lparr>idle := idle p @ [slot]\<rparr>, [])
      | t # ts \<Rightarrow> dispatch slot t (p\<lparr>waiting := ts\<rparr>))"

text \<open>\<open>idle.pop()\<close> takes the slot released last.\<close>

definition acquire :: "task \<Rightarrow> pool \<Rightarrow> pool \<times> pool_action list" where
  "acquire t p =
     (if idle p = [] then (p\<lparr>waiting := waiting p @ [t]\<rparr>, [])
      else dispatch (last (idle p)) t (p\<lparr>idle := butlast (idle p)\<rparr>))"

text \<open>A new worker gets \<open>epochKeys()\<close>, the keys of the keyring that is installed at that moment, whether or not this thread
  could import them.\<close>

definition spawn :: "pool \<Rightarrow> pool \<times> pool_action list" where
  "spawn p =
     (let slot = nextSlot p in
      case release slot (p\<lparr>slots := slots p @ [slot], nextSlot := nextSlot p + 1\<rparr>) of
        (p', acts) \<Rightarrow> (p', Spawned slot (material p) # acts))"

fun spawnAll :: "nat \<Rightarrow> pool \<Rightarrow> pool \<times> pool_action list" where
  "spawnAll 0 p = (p, [])"
| "spawnAll (Suc n) p =
     (case spawn p of (p1, a1) \<Rightarrow> (case spawnAll n p1 of (p2, a2) \<Rightarrow> (p2, a1 @ a2)))"

definition ensureStarted :: "nat \<Rightarrow> pool \<Rightarrow> pool \<times> pool_action list" where
  "ensureStarted workers p = (if started p then (p, []) else spawnAll workers (p\<lparr>started := True\<rparr>))"

definition pool_sign :: "nat \<Rightarrow> task \<Rightarrow> pool \<Rightarrow> pool \<times> pool_action list" where
  "pool_sign workers t p =
     (case ensureStarted workers p of (p1, a1) \<Rightarrow> (case acquire t p1 of (p2, a2) \<Rightarrow> (p2, a1 @ a2)))"

definition answer :: "task \<Rightarrow> sign_reply \<Rightarrow> pool_action" where
  "answer t reply = (case reply of Signed _ signature \<Rightarrow> Resolve t signature | SignError _ e \<Rightarrow> Reject t e)"

fun reply_id :: "sign_reply \<Rightarrow> nat" where
  "reply_id (Signed i _) = i"
| "reply_id (SignError i _) = i"

definition settle :: "sign_reply \<Rightarrow> pool \<Rightarrow> pool \<times> pool_action list" where
  "settle reply p =
     (case map_of (pending p) (reply_id reply) of
        None \<Rightarrow> (p, [])
      | Some (slot, t) \<Rightarrow>
          (let p1 = p\<lparr>pending := filter (\<lambda>q. fst q \<noteq> reply_id reply) (pending p)\<rparr> in
           case (if slot \<notin> set (retired p1) then release slot p1 else (p1, [])) of
             (p2, acts) \<Rightarrow> (p2, answer t reply # acts)))"

definition retire :: "nat \<Rightarrow> string \<Rightarrow> pool \<Rightarrow> pool \<times> pool_action list" where
  "retire slot why p =
     (if slot \<in> set (retired p) then (p, [])
      else
        (let carried = filter (\<lambda>(i, s, t). s = slot) (pending p);
             p1 = p\<lparr>retired := slot # retired p, slots := remove1 slot (slots p), idle := remove1 slot (idle p),
                    pending := filter (\<lambda>(i, s, t). s \<noteq> slot) (pending p)\<rparr>;
             acts = map (\<lambda>(i, s, t). Reject t (''signing worker '' @ why)) carried @ [Terminate slot]
         in if shuttingDown p1 then (p1, acts)
            else (case spawn p1 of (p2, acts2) \<Rightarrow> (p2, acts @ acts2))))"

text \<open>The timer of a task. A task that is no longer pending has had its timer cleared.\<close>

definition timeout :: "nat \<Rightarrow> nat \<Rightarrow> pool \<Rightarrow> pool \<times> pool_action list" where
  "timeout ms i p =
     (case map_of (pending p) i of
        None \<Rightarrow> (p, [])
      | Some (slot, t) \<Rightarrow>
          (case retire slot ''timed out'' (p\<lparr>pending := filter (\<lambda>q. fst q \<noteq> i) (pending p)\<rparr>) of
             (p', acts) \<Rightarrow> (p', Reject t (''blind signing timed out after '' @ show_nat ms @ ''ms'') # acts)))"

text \<open>What \<open>adoptKeys\<close> does to the workers once it has imported the keys.\<close>

definition adoptKeys :: "key_material list \<Rightarrow> pool \<Rightarrow> pool \<times> pool_action list" where
  "adoptKeys keys p = (p, map (\<lambda>slot. PostKeys slot keys) (slots p))"

definition shutdown :: "pool \<Rightarrow> pool \<times> pool_action list" where
  "shutdown p = (p\<lparr>shuttingDown := True\<rparr>, map Terminate (slots p))"

subsection \<open>Events and runs\<close>

datatype pool_event =
    SignCall string string
  | Message sign_reply
  | TimerFires nat
  | WorkerGone nat string
  | KeysChanged "key_material list"  \<comment> \<open>a keyring was installed and its keys imported\<close>
  | KeysInstalled "key_material list"  \<comment> \<open>a keyring was installed and importing its keys threw\<close>
  | ShutDown

text \<open>A state of the run: the pool, the number of calls so far and everything that became visible.\<close>

record pool_run =
  run_pool :: pool
  run_calls :: nat
  run_actions :: "pool_action list"

definition handle :: "issuer_config \<Rightarrow> nat \<Rightarrow> pool_event \<Rightarrow> pool \<Rightarrow> pool \<times> pool_action list" where
  "handle config calls ev p =
     (case ev of
        SignCall epoch blank \<Rightarrow>
          pool_sign (signingWorkers config) \<lparr>tk_no = calls, tk_epoch = epoch, tk_blank = blank\<rparr> p
      | Message reply \<Rightarrow> settle reply p
      | TimerFires i \<Rightarrow> timeout (signingTimeoutMs config) i p
      | WorkerGone slot why \<Rightarrow> if slot \<in> set (slots p @ retired p) then retire slot why p else (p, [])
      | KeysChanged keys \<Rightarrow> adoptKeys keys (p\<lparr>material := keys\<rparr>)
      | KeysInstalled keys \<Rightarrow> (p\<lparr>material := keys\<rparr>, [])
      | ShutDown \<Rightarrow> shutdown p)"

definition run_step :: "issuer_config \<Rightarrow> pool_event \<Rightarrow> pool_run \<Rightarrow> pool_run" where
  "run_step config ev r =
     (case handle config (run_calls r) ev (run_pool r) of
        (p', acts) \<Rightarrow>
          \<lparr>run_pool = p', run_calls = (case ev of SignCall _ _ \<Rightarrow> run_calls r + 1 | _ \<Rightarrow> run_calls r),
           run_actions = run_actions r @ acts\<rparr>)"

inductive pool_reachable :: "issuer_config \<Rightarrow> pool_run \<Rightarrow> bool" for config where
  boot: "pool_reachable config \<lparr>run_pool = initial_pool keys, run_calls = 0, run_actions = []\<rparr>"
| event: "pool_reachable config r \<Longrightarrow> pool_reachable config (run_step config ev r)"

subsection \<open>The invariant\<close>

definition busy :: "pool \<Rightarrow> nat list" where
  "busy p = map (\<lambda>q. fst (snd q)) (pending p)"

text \<open>
  Every live slot is idle or carries exactly one task, never both. \<open>except\<close> is the slot an event has taken
  out of the books and not yet put back.
\<close>

definition slots_ok :: "nat list \<Rightarrow> pool \<Rightarrow> bool" where
  "slots_ok except p \<longleftrightarrow>
     mset (slots p) = mset (idle p) + mset (busy p) + mset except
     \<and> distinct (slots p) \<and> set (slots p) \<inter> set (retired p) = {}
     \<and> (\<forall>s \<in> set (slots p) \<union> set (retired p). s < nextSlot p)
     \<and> distinct (map fst (pending p)) \<and> (\<forall>q \<in> set (pending p). fst q < nextId p)"

text \<open>Nobody waits while a slot is idle.\<close>

definition pool_mid :: "nat list \<Rightarrow> pool \<Rightarrow> bool" where
  "pool_mid except p \<longleftrightarrow> slots_ok except p \<and> (waiting p \<noteq> [] \<longrightarrow> idle p = [])"

text \<open>Once started, the pool has its configured number of workers until it shuts down.\<close>

definition pool_inv :: "nat \<Rightarrow> pool \<Rightarrow> bool" where
  "pool_inv workers p \<longleftrightarrow>
     pool_mid [] p
     \<and> (if started p then shuttingDown p \<or> length (slots p) = workers
        else slots p = [] \<and> waiting p = [] \<and> pending p = [])"

lemma slots_ok_cong:
  "slots p = slots p' \<Longrightarrow> idle p = idle p' \<Longrightarrow> pending p = pending p' \<Longrightarrow> retired p = retired p' \<Longrightarrow>
   nextSlot p = nextSlot p' \<Longrightarrow> nextId p = nextId p' \<Longrightarrow> slots_ok e p = slots_ok e p'"
  by (simp add: slots_ok_def busy_def)

lemma dispatch_mid:
  assumes "slots_ok [slot] p"
  shows "slots_ok [] (fst (dispatch slot t p))"
  using assms by (auto simp: dispatch_def slots_ok_def busy_def less_Suc_eq)

lemma dispatch_frame:
  "waiting (fst (dispatch slot t p)) = waiting p" "idle (fst (dispatch slot t p)) = idle p"
  by (simp_all add: dispatch_def)

lemma release_mid:
  assumes "pool_mid [slot] p"
  shows "pool_mid [] (fst (release slot p))"
proof (cases "waiting p")
  case Nil
  then show ?thesis using assms by (simp add: release_def pool_mid_def slots_ok_def busy_def)
next
  case (Cons t ts)
  have "slots_ok [slot] (p\<lparr>waiting := ts\<rparr>)"
    using assms by (simp add: pool_mid_def slots_ok_cong [of "p\<lparr>waiting := ts\<rparr>" p])
  from dispatch_mid [OF this, of t] Cons assms show ?thesis
    by (simp add: release_def pool_mid_def dispatch_frame)
qed

lemma release_frame:
  "slots (fst (release slot p)) = slots p" "retired (fst (release slot p)) = retired p"
  "started (fst (release slot p)) = started p" "shuttingDown (fst (release slot p)) = shuttingDown p"
  "material (fst (release slot p)) = material p" "nextSlot (fst (release slot p)) = nextSlot p"
  by (simp_all add: release_def dispatch_def split: list.split)

lemma acquire_mid:
  assumes "pool_mid [] p"
  shows "pool_mid [] (fst (acquire t p))"
proof (cases "idle p = []")
  case True
  then show ?thesis using assms by (simp add: acquire_def pool_mid_def slots_ok_def busy_def)
next
  case False
  then have "mset (idle p) = add_mset (last (idle p)) (mset (butlast (idle p)))"
    by (metis append_butlast_last_id mset.simps(2) mset_append union_mset_add_mset_right mset.simps(1) add.right_neutral)
  with assms have "slots_ok [last (idle p)] (p\<lparr>idle := butlast (idle p)\<rparr>)"
    by (simp add: pool_mid_def slots_ok_def busy_def)
  from dispatch_mid [OF this, of t] False assms show ?thesis
    by (simp add: acquire_def pool_mid_def dispatch_frame)
qed

lemma acquire_frame:
  "slots (fst (acquire t p)) = slots p" "retired (fst (acquire t p)) = retired p"
  "started (fst (acquire t p)) = started p" "shuttingDown (fst (acquire t p)) = shuttingDown p"
  "material (fst (acquire t p)) = material p" "nextSlot (fst (acquire t p)) = nextSlot p"
  by (simp_all add: acquire_def dispatch_def)

lemma spawn_fst:
  "fst (spawn p) = fst (release (nextSlot p) (p\<lparr>slots := slots p @ [nextSlot p], nextSlot := nextSlot p + 1\<rparr>))"
  by (simp add: spawn_def Let_def split: prod.split)

lemma spawn_mid:
  assumes "pool_mid [] p"
  shows "pool_mid [] (fst (spawn p))"
  unfolding spawn_fst
  by (rule release_mid) (use assms in \<open>auto simp: pool_mid_def slots_ok_def busy_def less_Suc_eq\<close>)

lemma spawn_frame:
  "slots (fst (spawn p)) = slots p @ [nextSlot p]" "retired (fst (spawn p)) = retired p"
  "started (fst (spawn p)) = started p" "shuttingDown (fst (spawn p)) = shuttingDown p"
  "material (fst (spawn p)) = material p"
  by (simp_all add: spawn_fst release_frame)

lemma spawnAll_fst: "fst (spawnAll (Suc n) p) = fst (spawnAll n (fst (spawn p)))"
  by (simp split: prod.split)

declare spawnAll.simps(2) [simp del]

lemma spawnAll_mid: "pool_mid [] p \<Longrightarrow> pool_mid [] (fst (spawnAll n p))"
  by (induction n arbitrary: p) (simp_all add: spawnAll_fst spawn_mid)

lemma spawnAll_frame:
  "length (slots (fst (spawnAll n p))) = n + length (slots p)"
  "started (fst (spawnAll n p)) = started p" "shuttingDown (fst (spawnAll n p)) = shuttingDown p"
  by (induction n arbitrary: p) (simp_all add: spawnAll_fst spawn_frame)

lemma pool_sign_inv [step_invs]:
  assumes "pool_inv workers p"
  shows "pool_inv workers (fst (pool_sign workers t p))"
proof -
  let ?q = "fst (ensureStarted workers p)"
  have mid: "pool_mid [] (p\<lparr>started := True\<rparr>)"
    using assms by (simp add: pool_inv_def pool_mid_def slots_ok_cong [of "p\<lparr>started := True\<rparr>" p])
  have "pool_mid [] ?q"
    using assms spawnAll_mid [OF mid] by (simp add: ensureStarted_def pool_inv_def)
  moreover have "started ?q" and "shuttingDown ?q \<or> length (slots ?q) = workers"
    using assms by (auto simp: ensureStarted_def pool_inv_def spawnAll_frame split: if_splits)
  moreover have "fst (pool_sign workers t p) = fst (acquire t ?q)"
    by (simp add: pool_sign_def split: prod.split)
  ultimately show ?thesis by (simp add: pool_inv_def acquire_mid acquire_frame)
qed

text \<open>Taking one entry out of the pending map.\<close>

lemma filter_id:
  assumes "distinct (map fst qs)" and "map_of qs i = Some x"
  shows "mset qs = add_mset (i, x) (mset (filter (\<lambda>q. fst q \<noteq> i) qs))"
  using assms
proof (induction qs)
  case (Cons q qs)
  show ?case
  proof (cases "fst q = i")
    case True
    with Cons.prems have "filter (\<lambda>q. fst q \<noteq> i) qs = qs" 
      by (intro filter_True) (auto simp: image_iff)
    with True Cons.prems show ?thesis by (cases q) simp
  next
    case False
    with Cons show ?thesis by (cases q) auto
  qed
qed simp

lemma take_pending:
  assumes "pool_mid [] p" and "map_of (pending p) i = Some (slot, t)"
  shows "pool_mid [slot] (p\<lparr>pending := filter (\<lambda>q. fst q \<noteq> i) (pending p)\<rparr>)" and "slot \<in> set (slots p)"
proof -
  have "distinct (map fst (pending p))" using assms(1) by (simp add: pool_mid_def slots_ok_def)
  from arg_cong [OF filter_id [OF this assms(2)], of "image_mset (\<lambda>q. fst (snd q))"]
  have "mset (busy p) = add_mset slot (mset (busy (p\<lparr>pending := filter (\<lambda>q. fst q \<noteq> i) (pending p)\<rparr>)))"
    by (simp add: busy_def)
  with assms show "pool_mid [slot] (p\<lparr>pending := filter (\<lambda>q. fst q \<noteq> i) (pending p)\<rparr>)"
    by (auto simp: pool_mid_def slots_ok_def distinct_map_filter)
  have "slot \<in> set (busy p)"
    using map_of_SomeD [OF assms(2)] by (force simp: busy_def)
  then show "slot \<in> set (slots p)"
    using assms(1) unfolding pool_mid_def slots_ok_def by (metis set_mset_mset union_iff)
qed

lemma settle_inv [step_invs]:
  assumes "pool_inv workers p"
  shows "pool_inv workers (fst (settle reply p))"
proof (cases "map_of (pending p) (reply_id reply)")
  case None
  with assms show ?thesis by (simp add: settle_def)
next
  case (Some st)
  obtain slot t where st: "st = (slot, t)" by force
  let ?q = "p\<lparr>pending := filter (\<lambda>q. fst q \<noteq> reply_id reply) (pending p)\<rparr>"
  from assms have mid: "pool_mid [] p" by (simp add: pool_inv_def)
  note tk = take_pending [OF mid Some [unfolded st]]
  then have "slot \<notin> set (retired p)" using mid by (auto simp: pool_mid_def slots_ok_def)
  then have "fst (settle reply p) = fst (release slot ?q)"
    using Some st by (simp add: settle_def Let_def split: prod.split)
  moreover have "started p" using assms Some by (auto simp: pool_inv_def split: if_splits)
  ultimately show ?thesis
    using release_mid [OF tk(1)] assms by (simp add: pool_inv_def release_frame)
qed

definition retire_slot :: "nat \<Rightarrow> pool \<Rightarrow> pool" where
  "retire_slot slot p =
     p\<lparr>retired := slot # retired p, slots := remove1 slot (slots p), idle := remove1 slot (idle p),
       pending := filter (\<lambda>(i, s, t). s \<noteq> slot) (pending p)\<rparr>"

lemma retire_fst:
  "slot \<notin> set (retired p) \<Longrightarrow>
     fst (retire slot why p) = (if shuttingDown p then retire_slot slot p else fst (spawn (retire_slot slot p)))"
  by (simp add: retire_def retire_slot_def Let_def split: prod.split)

lemma filter_mset_remove1_all:
  "distinct xs \<Longrightarrow> mset (remove1 x xs) = filter_mset (\<lambda>y. y \<noteq> x) (mset xs)"
  by (simp add: distinct_remove1_removeAll removeAll_filter_not_eq eq_commute del: mset_remove1 flip: mset_filter)

lemma retire_slot_mid:
  assumes mid: "pool_mid e p" and slot: "slot \<in> set (slots p)" and e: "e = [] \<or> e = [slot]"
  shows "pool_mid [] (retire_slot slot p)"
proof -
  let ?f = "filter_mset (\<lambda>s. s \<noteq> slot)"
  from mid have ok: "mset (slots p) = mset (idle p) + mset (busy p) + mset e" "distinct (slots p)"
    by (simp_all add: pool_mid_def slots_ok_def)
  have "mset_set (set (slots p)) = mset (slots p)" using ok(2) by (rule mset_set_set)
  moreover have "mset (idle p) \<subseteq># mset (slots p)" using ok(1) by (simp add: subset_mset.add_increasing2)
  ultimately have idle: "distinct (idle p)"
    using ok by (metis distinct_append mset_append mset_eq_imp_distinct_iff)
  have busy: "busy (retire_slot slot p) = filter (\<lambda>s. s \<noteq> slot) (busy p)"
    by (simp add: busy_def retire_slot_def filter_map comp_def case_prod_unfold)
  have "mset (slots (retire_slot slot p)) = ?f (mset (slots p))"
    using ok(2) by (simp add: retire_slot_def filter_mset_remove1_all del: mset_remove1)
  also have "\<dots> = ?f (mset (idle p)) + ?f (mset (busy p))"
    using ok(1) e by auto
  also have "\<dots> = mset (idle (retire_slot slot p)) + mset (busy (retire_slot slot p))"
    using idle unfolding busy by (simp add: retire_slot_def filter_mset_remove1_all del: mset_remove1)
  finally show ?thesis
    using mid slot ok(2)
    by (auto simp: pool_mid_def slots_ok_def) (auto simp: retire_slot_def distinct_map_filter)
qed

lemma retire_inv_mid:
  assumes mid: "pool_mid e p" and slot: "slot \<in> set (slots p)" and e: "e = [] \<or> e = [slot]"
    and size: "started p" "shuttingDown p \<or> length (slots p) = workers"
  shows "pool_inv workers (fst (retire slot why p))"
proof -
  have "slot \<notin> set (retired p)" using mid slot by (auto simp: pool_mid_def slots_ok_def)
  moreover note retire_slot_mid [OF mid slot e]
  moreover have "started (retire_slot slot p)" "shuttingDown (retire_slot slot p) = shuttingDown p"
    "Suc (length (slots (retire_slot slot p))) = length (slots p)"
    using size slot length_pos_if_in_set [OF slot] by (simp_all add: retire_slot_def length_remove1)
  ultimately show ?thesis
    using size by (auto simp: retire_fst pool_inv_def spawn_mid spawn_frame)
qed

lemma retire_inv [step_invs]:
  assumes "pool_inv workers p" and "slot \<in> set (slots p @ retired p)"
  shows "pool_inv workers (fst (retire slot why p))"
proof (cases "slot \<in> set (retired p)")
  case True
  with assms show ?thesis by (simp add: retire_def)
next
  case False
  with assms show ?thesis
    by (intro retire_inv_mid [of "[]"]) (auto simp: pool_inv_def split: if_splits)
qed

lemma timeout_inv [step_invs]:
  assumes "pool_inv workers p"
  shows "pool_inv workers (fst (timeout ms i p))"
proof (cases "map_of (pending p) i")
  case None
  with assms show ?thesis by (simp add: timeout_def)
next
  case (Some st)
  obtain slot t where st: "st = (slot, t)" by force
  from assms have mid: "pool_mid [] p" by (simp add: pool_inv_def)
  note tk = take_pending [OF mid Some [unfolded st]]
  have "started p" "shuttingDown p \<or> length (slots p) = workers"
    using assms Some by (auto simp: pool_inv_def split: if_splits)
  moreover have "fst (timeout ms i p) = fst (retire slot ''timed out'' (p\<lparr>pending := filter (\<lambda>q. fst q \<noteq> i) (pending p)\<rparr>))"
    using Some st by (simp add: timeout_def split_beta)
  ultimately show ?thesis
    using retire_inv_mid [OF tk(1), of slot workers "''timed out''"] tk(2) by simp
qed

lemma adoptKeys_inv [step_invs]: "pool_inv workers p \<Longrightarrow> pool_inv workers (fst (adoptKeys keys p))"
  by (simp add: adoptKeys_def)

lemma material_inv [step_invs]: "pool_inv workers p \<Longrightarrow> pool_inv workers (p\<lparr>material := keys\<rparr>)"
  by (simp add: pool_inv_def pool_mid_def slots_ok_def busy_def)

lemma shutdown_inv [step_invs]: "pool_inv workers p \<Longrightarrow> pool_inv workers (fst (shutdown p))"
  by (auto simp: shutdown_def pool_inv_def pool_mid_def slots_ok_def busy_def)

lemma handle_inv: "pool_inv (signingWorkers config) p \<Longrightarrow> pool_inv (signingWorkers config) (fst (handle config n ev p))"
  by (cases ev) (simp_all add: handle_def step_invs)

lemma initial_inv: "pool_inv workers (initial_pool keys)"
  by (simp add: pool_inv_def pool_mid_def slots_ok_def busy_def initial_pool_def)

lemma run_step_pool: "run_pool (run_step config ev r) = fst (handle config (run_calls r) ev (run_pool r))"
  by (simp add: run_step_def split: prod.split)

lemma reachable_inv: "pool_reachable config r \<Longrightarrow> pool_inv (signingWorkers config) (run_pool r)"
  by (induction rule: pool_reachable.induct) (simp_all add: initial_inv run_step_pool handle_inv)

subsection \<open>No task is lost or settled twice\<close>

definition tasks :: "pool \<Rightarrow> task list" where
  "tasks p = waiting p @ map (\<lambda>q. snd (snd q)) (pending p)"

fun settles :: "pool_action \<Rightarrow> task list" where
  "settles (Resolve t _) = [t]"
| "settles (Reject t _) = [t]"
| "settles _ = []"

definition settled :: "pool_action list \<Rightarrow> task list" where
  "settled acts = concat (map settles acts)"

lemma settled_simps [simp]:
  "settled [] = []" "settled (a # acts) = settles a @ settled acts" "settled (xs @ ys) = settled xs @ settled ys"
  by (simp_all add: settled_def)

lemma settles_answer [simp]: "settles (answer t reply) = [t]"
  by (cases reply) (simp_all add: answer_def)

lemma dispatch_tasks:
  "mset (tasks (fst (dispatch slot t p))) = add_mset t (mset (tasks p))" "settled (snd (dispatch slot t p)) = []"
  by (simp_all add: dispatch_def tasks_def)

lemma tasks_cong: "waiting p = waiting p' \<Longrightarrow> pending p = pending p' \<Longrightarrow> tasks p = tasks p'"
  by (simp add: tasks_def)

lemma release_tasks:
  "mset (tasks (fst (release slot p))) = mset (tasks p)" "settled (snd (release slot p)) = []"
proof -
  show "mset (tasks (fst (release slot p))) = mset (tasks p)"
  proof (cases "waiting p")
    case (Cons t ts)
    then show ?thesis by (simp add: release_def dispatch_tasks) (simp add: tasks_def)
  qed (simp add: release_def tasks_def)
qed (simp add: release_def dispatch_tasks split: list.split)

lemma acquire_tasks:
  "mset (tasks (fst (acquire t p))) = add_mset t (mset (tasks p))" "settled (snd (acquire t p)) = []"
  by (simp_all add: acquire_def dispatch_tasks) (simp_all add: tasks_def)

lemma spawn_tasks: "mset (tasks (fst (spawn p))) = mset (tasks p)" "settled (snd (spawn p)) = []"
proof -
  show "mset (tasks (fst (spawn p))) = mset (tasks p)"
    unfolding spawn_fst release_tasks by (simp add: tasks_def)
  show "settled (snd (spawn p)) = []"
    using release_tasks(2) [of "nextSlot p" "p\<lparr>slots := slots p @ [nextSlot p], nextSlot := nextSlot p + 1\<rparr>"]
    by (simp add: spawn_def Let_def split_beta)
qed

lemma spawnAll_tasks: "mset (tasks (fst (spawnAll n p))) = mset (tasks p)" "settled (snd (spawnAll n p)) = []"
  by (induction n arbitrary: p) (simp_all add: spawnAll.simps(2) split_beta spawn_tasks)

lemma pool_sign_tasks:
  "mset (tasks (fst (pool_sign workers t p))) = add_mset t (mset (tasks p))" "settled (snd (pool_sign workers t p)) = []"
  by (simp_all add: pool_sign_def ensureStarted_def split_beta acquire_tasks spawnAll_tasks)
    (simp_all add: tasks_def)

lemma take_tasks:
  assumes "pool_mid [] p" and "map_of (pending p) i = Some (slot, t)"
  shows "mset (tasks p) = add_mset t (mset (tasks (p\<lparr>pending := filter (\<lambda>q. fst q \<noteq> i) (pending p)\<rparr>)))"
proof -
  have "distinct (map fst (pending p))" using assms(1) by (simp add: pool_mid_def slots_ok_def)
  from arg_cong [OF filter_id [OF this assms(2)], of "image_mset (\<lambda>q. snd (snd q))"] show ?thesis
    by (simp add: tasks_def)
qed

lemma settle_tasks:
  assumes "pool_inv workers p"
  shows "mset (tasks (fst (settle reply p))) + mset (settled (snd (settle reply p))) = mset (tasks p)"
proof (cases "map_of (pending p) (reply_id reply)")
  case (Some st)
  obtain slot t where st: "st = (slot, t)" by force
  from assms have "pool_mid [] p" by (simp add: pool_inv_def)
  from take_tasks [OF this Some [unfolded st]] Some st show ?thesis
    by (simp add: settle_def Let_def split_beta release_tasks)
qed (simp add: settle_def)

lemma retire_tasks:
  "mset (tasks (fst (retire slot why p))) + mset (settled (snd (retire slot why p))) = mset (tasks p)"
proof (cases "slot \<in> set (retired p)")
  case False
  let ?on = "\<lambda>q :: nat \<times> nat \<times> task. fst (snd q) = slot"
  have carried: "settled (map (\<lambda>(i, s, t). Reject t w) qs @ [Terminate slot]) = map (\<lambda>q. snd (snd q)) qs" for qs w
    by (induction qs) auto
  have "mset (filter (\<lambda>q. \<not> ?on q) (pending p)) + mset (filter ?on (pending p)) = mset (pending p)"
    by (metis add.commute mset_filter multiset_partition)
  from arg_cong [OF this, of "image_mset (\<lambda>q. snd (snd q))", unfolded image_mset_union, folded mset_map]
  have parts: "mset (tasks (retire_slot slot p)) + mset (map (\<lambda>q. snd (snd q)) (filter ?on (pending p))) = mset (tasks p)"
    by (simp add: tasks_def retire_slot_def case_prod_unfold del: mset_map mset_filter)
  have "settled (snd (retire slot why p)) = map (\<lambda>q. snd (snd q)) (filter ?on (pending p))"
    using False carried
    by (simp add: retire_def Let_def split_beta spawn_tasks case_prod_unfold del: settled_simps(3))
      (simp add: spawn_tasks)
  moreover have "mset (tasks (fst (retire slot why p))) = mset (tasks (retire_slot slot p))"
    using False by (simp add: retire_fst spawn_tasks)
  ultimately show ?thesis using parts by simp
qed (simp add: retire_def)

lemma timeout_tasks:
  assumes "pool_inv workers p"
  shows "mset (tasks (fst (timeout ms i p))) + mset (settled (snd (timeout ms i p))) = mset (tasks p)"
proof (cases "map_of (pending p) i")
  case (Some st)
  obtain slot t where st: "st = (slot, t)" by force
  from assms have "pool_mid [] p" by (simp add: pool_inv_def)
  from take_tasks [OF this Some [unfolded st]] Some st
    retire_tasks [of slot "''timed out''" "p\<lparr>pending := filter (\<lambda>q. fst q \<noteq> i) (pending p)\<rparr>"]
  show ?thesis by (simp add: timeout_def split_beta)
qed (simp add: timeout_def)

lemma handle_tasks:
  assumes "pool_inv (signingWorkers config) p"
  shows "mset (tasks (fst (handle config n ev p))) + mset (settled (snd (handle config n ev p))) =
    mset (tasks p) + (case ev of SignCall e b \<Rightarrow> {#\<lparr>tk_no = n, tk_epoch = e, tk_blank = b\<rparr>#} | _ \<Rightarrow> {#})"
proof (cases ev)
  case (KeysChanged keys)
  have "settled (map (\<lambda>slot. PostKeys slot keys) xs) = []" for xs by (induction xs) simp_all
  with KeysChanged show ?thesis by (simp add: handle_def adoptKeys_def tasks_def)
next
  case ShutDown
  have "settled (map Terminate xs) = []" for xs by (induction xs) simp_all
  with ShutDown show ?thesis by (simp add: handle_def shutdown_def tasks_def)
next
  case (KeysInstalled keys)
  then show ?thesis by (simp add: handle_def tasks_def)
qed (use assms in \<open>simp_all add: handle_def pool_sign_tasks settle_tasks timeout_tasks retire_tasks\<close>)

lemma reachable_tasks:
  "pool_reachable config r \<Longrightarrow>
     mset (map tk_no (tasks (run_pool r))) + mset (map tk_no (settled (run_actions r))) = mset [0..<run_calls r]"
proof (induction rule: pool_reachable.induct)
  case (boot keys)
  then show ?case by (simp add: initial_pool_def tasks_def)
next
  case (event r ev)
  from arg_cong [OF handle_tasks [OF reachable_inv [OF event.hyps], of "run_calls r" ev], of "image_mset tk_no"]
  have "mset (map tk_no (tasks (fst (handle config (run_calls r) ev (run_pool r)))))
      + mset (map tk_no (settled (snd (handle config (run_calls r) ev (run_pool r)))))
      = mset (map tk_no (tasks (run_pool r))) + (case ev of SignCall e b \<Rightarrow> {#run_calls r#} | _ \<Rightarrow> {#})"
    by (simp split: pool_event.split)
  with event.IH show ?case
    by (auto simp: run_step_def split_beta ac_simps atLeast0_lessThan_Suc split: pool_event.split)
qed

subsection \<open>The keys a worker has\<close>

text \<open>The keys a worker holds after the messages sent to it so far, given those it held before.\<close>

fun keys_after :: "nat \<Rightarrow> pool_action \<Rightarrow> key_material list option \<Rightarrow> key_material list option" where
  "keys_after slot (Spawned s keys) held = (if s = slot then Some keys else held)"
| "keys_after slot (PostKeys s keys) held = (if s = slot then Some keys else held)"
| "keys_after slot _ held = held"

definition held_keys :: "nat \<Rightarrow> pool_action list \<Rightarrow> key_material list option \<Rightarrow> key_material list option" where
  "held_keys slot acts held = fold (keys_after slot) acts held"

lemma held_keys_simps [simp]:
  "held_keys slot [] held = held" "held_keys slot (a # acts) held = held_keys slot acts (keys_after slot a held)"
  "held_keys slot (xs @ ys) held = held_keys slot ys (held_keys slot xs held)"
  by (simp_all add: held_keys_def)

text \<open>A step that gives every new slot the pool's keys and sends keys to no old one.\<close>

definition equips :: "pool \<Rightarrow> pool \<times> pool_action list \<Rightarrow> bool" where
  "equips p r \<longleftrightarrow> material (fst r) = material p \<and>
     (\<forall>slot \<in> set (slots (fst r)).
        (slot \<in> set (slots p) \<and> (\<forall>held. held_keys slot (snd r) held = held))
        \<or> (\<forall>held. held_keys slot (snd r) held = Some (material p)))"

lemma equips_trans:
  assumes "equips p (q, a1)" and "equips q (r, a2)"
  shows "equips p (r, a1 @ a2)"
  using assms unfolding equips_def by (simp, metis)

lemma release_equips: "held_keys slot (snd (release s p)) held = held" "material (fst (release s p)) = material p"
  by (simp_all add: release_def dispatch_def split: list.split)

lemma acquire_equips: "equips p (acquire t p)"
  by (simp add: equips_def acquire_def dispatch_def)

lemma spawn_equips: "equips p (spawn p)"
  by (auto simp: equips_def spawn_def Let_def split_beta release_equips release_frame)

lemma spawnAll_equips: "equips p (spawnAll n p)"
proof (induction n arbitrary: p)
  case (Suc n)
  from equips_trans [of p "fst (spawn p)" "snd (spawn p)" "fst (spawnAll n (fst (spawn p)))" "snd (spawnAll n (fst (spawn p)))"]
    spawn_equips [of p] Suc.IH [of "fst (spawn p)"]
  show ?case by (simp add: spawnAll.simps(2) split_beta)
qed (simp add: equips_def)

lemma pool_sign_equips: "equips p (pool_sign workers t p)"
proof -
  have "equips p (ensureStarted workers p)"
    using spawnAll_equips [of "p\<lparr>started := True\<rparr>" workers]
    by (auto simp: ensureStarted_def equips_def)
  with equips_trans [of p "fst (ensureStarted workers p)" "snd (ensureStarted workers p)"
      "fst (acquire t (fst (ensureStarted workers p)))" "snd (acquire t (fst (ensureStarted workers p)))"]
    acquire_equips [of "fst (ensureStarted workers p)" t]
  show ?thesis by (simp add: pool_sign_def split_beta)
qed

lemma held_keys_quiet:
  "held_keys slot (map (\<lambda>(i, s, t). Reject t w) qs @ [Terminate x]) held = held" "held_keys slot (map Terminate xs) held = held"
proof -
  show "held_keys slot (map (\<lambda>(i, s, t). Reject t w) qs @ [Terminate x]) held = held"
    by (induction qs arbitrary: held) auto
  show "held_keys slot (map Terminate xs) held = held"
    by (induction xs arbitrary: held) auto
qed

lemma retire_equips: "equips p (retire slot why p)"
proof (cases "slot \<in> set (retired p)")
  case False
  let ?acts = "map (\<lambda>(i, s, t). Reject t (''signing worker '' @ why)) (filter (\<lambda>(i, s, t). s = slot) (pending p)) @ [Terminate slot]"
  have drop: "equips p (retire_slot slot p, ?acts)"
    using set_remove1_subset [of slot "slots p"]
    by (auto simp: equips_def held_keys_quiet retire_slot_def simp del: held_keys_simps(3))
  from equips_trans [OF drop, of "fst (spawn (retire_slot slot p))" "snd (spawn (retire_slot slot p))"]
    spawn_equips [of "retire_slot slot p"] drop False show ?thesis
    by (simp add: retire_def retire_slot_def [symmetric] Let_def split_beta)
qed (simp add: equips_def retire_def)

lemma settle_equips: "equips p (settle reply p)"
  by (cases reply)
    (auto simp: equips_def settle_def Let_def split_beta release_equips release_frame answer_def split: option.split)

lemma timeout_equips: "equips p (timeout ms i p)"
proof (cases "map_of (pending p) i")
  case (Some st)
  obtain slot t where st: "st = (slot, t)" by force
  from retire_equips [of "p\<lparr>pending := filter (\<lambda>q. fst q \<noteq> i) (pending p)\<rparr>" slot "''timed out''"] Some st
  show ?thesis by (simp add: equips_def timeout_def split_beta)
qed (simp add: equips_def timeout_def)

lemma held_keys_adopt:
  "slot \<in> set xs \<Longrightarrow> held_keys slot (map (\<lambda>s. PostKeys s keys) xs) held = Some keys"
proof (induction xs arbitrary: held)
  case (Cons x xs)
  have "held_keys slot (map (\<lambda>s. PostKeys s keys) xs) (Some keys) = Some keys"
    by (induction xs) auto
  with Cons show ?case by auto
qed simp

lemma handle_adopts:
  "\<forall>slot \<in> set (slots (fst (handle config n (KeysChanged keys) p))).
     held_keys slot (acts @ snd (handle config n (KeysChanged keys) p)) None = Some (material (fst (handle config n (KeysChanged keys) p)))"
  by (simp add: handle_def adoptKeys_def held_keys_adopt)

lemma handle_keys:
  assumes "\<forall>keys. ev \<noteq> KeysInstalled keys"
    and "\<forall>slot \<in> set (slots p). held_keys slot acts None = Some (material p)"
  shows "\<forall>slot \<in> set (slots (fst (handle config n ev p))).
    held_keys slot (acts @ snd (handle config n ev p)) None = Some (material (fst (handle config n ev p)))"
proof (cases ev)
  case (KeysChanged keys)
  then show ?thesis using handle_adopts by blast
next
  case (KeysInstalled keys)
  with assms(1) show ?thesis by blast
next
  case ShutDown
  with assms(2) show ?thesis by (simp add: handle_def shutdown_def held_keys_quiet)
next
  case (WorkerGone slot why)
  with assms(2) retire_equips [of p slot why] show ?thesis by (auto simp: handle_def equips_def)
next
  case (SignCall e b)
  with assms(2) pool_sign_equips [of p] show ?thesis by (fastforce simp: handle_def equips_def)
next
  case (Message reply)
  with assms(2) settle_equips [of p reply] show ?thesis by (fastforce simp: handle_def equips_def)
next
  case (TimerFires i)
  with assms(2) timeout_equips [of p] show ?thesis by (fastforce simp: handle_def equips_def)
qed

lemma run_keys:
  assumes "list_all (\<lambda>ev. \<forall>keys. ev \<noteq> KeysInstalled keys) evs"
    and "\<forall>slot \<in> set (slots (run_pool r)). held_keys slot (run_actions r) None = Some (material (run_pool r))"
  shows "\<forall>slot \<in> set (slots (run_pool (fold (run_step config) evs r))).
    held_keys slot (run_actions (fold (run_step config) evs r)) None = Some (material (run_pool (fold (run_step config) evs r)))"
  using assms
proof (induction evs arbitrary: r)
  case (Cons ev evs)
  have "\<forall>slot \<in> set (slots (run_pool (run_step config ev r))).
      held_keys slot (run_actions (run_step config ev r)) None = Some (material (run_pool (run_step config ev r)))"
    using handle_keys [OF _ Cons.prems(2), of ev config "run_calls r"] Cons.prems(1) by (simp add: run_step_def split_beta)
  with Cons show ?case by simp
qed simp

subsection \<open>Every call is answered in time\<close>

lemma retire_frame:
  "shuttingDown (fst (retire slot why p)) = shuttingDown p" "started (fst (retire slot why p)) = started p"
  by (simp_all add: retire_def Let_def split_beta spawn_frame)

lemma timeout_frame:
  "shuttingDown (fst (timeout ms i p)) = shuttingDown p" "started (fst (timeout ms i p)) = started p"
  by (simp_all add: timeout_def split_beta retire_frame split: option.split)

lemma timeout_settles:
  assumes "map_of (pending p) i = Some (slot, t)"
  shows "t \<in> set (settled (snd (timeout ms i p)))"
  using assms by (simp add: timeout_def split_beta)

lemma pending_empty:
  assumes "pool_inv workers p" and "started p" and "\<not> shuttingDown p" and "0 < workers" and "pending p = []"
  shows "tasks p = []"
proof -
  have "mset (slots p) = mset (idle p)" "length (slots p) = workers"
    using assms by (simp_all add: pool_inv_def pool_mid_def slots_ok_def busy_def)
  then have "idle p \<noteq> []" using assms(4) by auto
  with assms(1,5) show ?thesis by (auto simp: pool_inv_def pool_mid_def tasks_def)
qed

subsection \<open>Shutting down\<close>

text \<open>Once the pool shuts down a lost worker takes what it carried with it and nothing replaces it: a call
  still waiting for a slot is not answered by it.\<close>

lemma retire_shutdown_waiting:
  assumes "shuttingDown p"
  shows "waiting (fst (retire slot why p)) = waiting p"
  using assms by (simp add: retire_def Let_def)

lemma run_step_timer:
  "run_step config (TimerFires i) r =
     r\<lparr>run_pool := fst (timeout (signingTimeoutMs config) i (run_pool r)),
       run_actions := run_actions r @ snd (timeout (signingTimeoutMs config) i (run_pool r))\<rparr>"
  by (simp add: run_step_def handle_def split_beta)

text \<open>During a shutdown nothing but a worker's message reaches the calls that wait.\<close>

lemma shutdown_step:
  assumes "shuttingDown p" and "case ev of SignCall _ _ \<Rightarrow> False | Message _ \<Rightarrow> False | _ \<Rightarrow> True"
  shows "waiting (fst (handle config n ev p)) = waiting p" and "shuttingDown (fst (handle config n ev p))"
  using assms
  by (auto simp: handle_def timeout_def split_beta retire_shutdown_waiting retire_frame adoptKeys_def shutdown_def
      split: pool_event.splits option.splits)

end
