(* ===== verification/Workers.thy ===== *)
theory Workers
  imports SignerPool KeysService
begin

text \<open>
  The pool of \<open>signing/signer-pool.ts\<close> with its workers, \<open>signing/blind-sign.worker.ts\<close>, as one system: each worker has
  the keys it imported and an inbox; what the pool posts to a worker arrives in its inbox in order; a worker handles one
  command after the other; its replies reach the pool in any order. A worker may be gone at any time, in particular when
  its keys throw on import, and one that was told to stop may still handle what it has.

  A reply is computed from the key the worker looked up when it took the command: the code looks it up before its first
  \<open>await\<close>, so commands that come later do not change it.
\<close>

datatype sign_command = Keys "key_material list" | Sign nat string string

record 'k worker =
  wk_keys :: "string \<rightharpoonup> string + 'k"
  wk_inbox :: "sign_command list"

text \<open>\<open>None\<close> is a worker that ended with an exception, at its start or in its handler.\<close>

definition worker_start :: "runtime \<Rightarrow> 'k blindrsa \<Rightarrow> key_material list \<Rightarrow> 'k worker option" where
  "worker_start rt L keys =
     (case import_keys rt L keys of Inl _ \<Rightarrow> None | Inr signingKeys \<Rightarrow> Some \<lparr>wk_keys = signingKeys, wk_inbox = []\<rparr>)"

fun worker_handle ::
  "runtime \<Rightarrow> 'k blindrsa \<Rightarrow> suite_selection \<Rightarrow> sign_command \<Rightarrow> 'k worker \<Rightarrow> ('k worker \<times> sign_reply list) option" where
  "worker_handle rt L selection (Keys keys) w =
     (case import_keys rt L keys of Inl _ \<Rightarrow> None | Inr signingKeys \<Rightarrow> Some (w\<lparr>wk_keys := signingKeys\<rparr>, []))"
| "worker_handle rt L selection (Sign i epoch blindedBlank) w =
     Some (w, [worker_sign rt L selection (wk_keys w) i epoch blindedBlank])"

text \<open>What an action of the pool does to the workers.\<close>

definition post_message :: "nat \<Rightarrow> sign_command \<Rightarrow> (nat \<rightharpoonup> 'k worker) \<Rightarrow> (nat \<rightharpoonup> 'k worker)" where
  "post_message slot c ws =
     (case ws slot of None \<Rightarrow> ws | Some w \<Rightarrow> ws(slot \<mapsto> w\<lparr>wk_inbox := wk_inbox w @ [c]\<rparr>))"

fun deliver :: "runtime \<Rightarrow> 'k blindrsa \<Rightarrow> pool_action \<Rightarrow> (nat \<rightharpoonup> 'k worker) \<Rightarrow> (nat \<rightharpoonup> 'k worker)" where
  "deliver rt L (Spawned slot keys) ws = ws(slot := worker_start rt L keys)"
| "deliver rt L (PostKeys slot keys) ws = post_message slot (Keys keys) ws"
| "deliver rt L (PostSign slot i t) ws = post_message slot (Sign i (tk_epoch t) (tk_blank t)) ws"
| "deliver rt L _ ws = ws"

record 'k threads =
  th_run :: pool_run
  th_workers :: "nat \<rightharpoonup> 'k worker"
  th_replies :: "sign_reply list"

text \<open>One event of the pool, and what it posts.\<close>

definition th_event :: "runtime \<Rightarrow> 'k blindrsa \<Rightarrow> issuer_config \<Rightarrow> pool_event \<Rightarrow> 'k threads \<Rightarrow> 'k threads" where
  "th_event rt L config ev y =
     y\<lparr>th_run := run_step config ev (th_run y),
       th_workers := fold (deliver rt L) (snd (handle config (run_calls (th_run y)) ev (run_pool (th_run y)))) (th_workers y)\<rparr>"

inductive th_step ::
  "runtime \<Rightarrow> 'k blindrsa \<Rightarrow> issuer_config \<Rightarrow> (nat \<Rightarrow> suite_selection) \<Rightarrow> 'k threads \<Rightarrow> 'k threads \<Rightarrow> bool"
  for rt L config sels
where
  event: "\<forall>reply. ev \<noteq> Message reply \<Longrightarrow> \<forall>keys. ev = KeysChanged keys \<longrightarrow> (\<exists>ks. import_keys rt L keys = Inr ks) \<Longrightarrow>
     \<forall>keys. ev = KeysInstalled keys \<longrightarrow> (\<exists>e. import_keys rt L keys = Inl e) \<Longrightarrow>
     th_step rt L config sels y (th_event rt L config ev y)"
| reply: "th_replies y = before @ r # after \<Longrightarrow>
     th_step rt L config sels y (th_event rt L config (Message r) (y\<lparr>th_replies := before @ after\<rparr>))"
| work: "th_workers y slot = Some w \<Longrightarrow> wk_inbox w = c # cs \<Longrightarrow>
     worker_handle rt L (sels slot) c (w\<lparr>wk_inbox := cs\<rparr>) = Some (w', rs) \<Longrightarrow>
     th_step rt L config sels y (y\<lparr>th_workers := (th_workers y)(slot \<mapsto> w'), th_replies := th_replies y @ rs\<rparr>)"
| gone: "th_step rt L config sels y (y\<lparr>th_workers := (th_workers y)(slot := None)\<rparr>)"

inductive th_reachable ::
  "runtime \<Rightarrow> 'k blindrsa \<Rightarrow> issuer_config \<Rightarrow> (nat \<Rightarrow> suite_selection) \<Rightarrow> 'k threads \<Rightarrow> bool"
  for rt L config sels
where
  boot: "import_keys rt L keys = Inr inlineKeys \<Longrightarrow> th_reachable rt L config sels
     \<lparr>th_run = \<lparr>run_pool = initial_pool keys, run_calls = 0, run_actions = []\<rparr>, th_workers = Map.empty, th_replies = []\<rparr>"
| step: "th_reachable rt L config sels y \<Longrightarrow> th_step rt L config sels y y' \<Longrightarrow> th_reachable rt L config sels y'"

inductive_cases th_step_cases: "th_step rt L config sels y y'"

text \<open>Seen from the pool, the system is one of its runs.\<close>

lemma run_actions_step: "run_actions (run_step config ev r) = run_actions r @ snd (handle config (run_calls r) ev (run_pool r))"
  by (simp add: run_step_def split_beta)

lemma th_pool_reachable: "th_reachable rt L config sels y \<Longrightarrow> pool_reachable config (th_run y)"
proof (induction rule: th_reachable.induct)
  case (boot keys inlineKeys)
  show ?case by (simp add: pool_reachable.boot)
next
  case (step y y')
  from step(2,3) show ?case by (cases rule: th_step_cases) (auto simp: th_event_def pool_reachable.event)
qed

subsection \<open>Commands carry fresh ids\<close>

fun posting :: "pool_action \<Rightarrow> (nat \<times> nat \<times> task) list" where
  "posting (PostSign slot i t) = [(i, slot, t)]"
| "posting _ = []"

definition postings :: "pool_action list \<Rightarrow> (nat \<times> nat \<times> task) list" where
  "postings acts = concat (map posting acts)"

lemma postings_simps [simp]:
  "postings [] = []" "postings (a # acts) = posting a @ postings acts" "postings (xs @ ys) = postings xs @ postings ys"
  by (simp_all add: postings_def)

text \<open>An operation gives the commands it posts the next ids, and what is pending afterwards was so before or was posted.\<close>

definition posts :: "pool \<Rightarrow> pool \<times> pool_action list \<Rightarrow> bool" where
  "posts p r \<longleftrightarrow>
     nextId p \<le> nextId (fst r) \<and> map fst (postings (snd r)) = [nextId p..<nextId (fst r)]
     \<and> set (pending (fst r)) \<subseteq> set (pending p) \<union> set (postings (snd r))"

lemma posts_trans:
  assumes "posts p (q, a1)" and "posts q (r, a2)"
  shows "posts p (r, a1 @ a2)"
  using assms upt_add_eq_append [of "nextId p" "nextId q" "nextId r - nextId q"] by (auto simp: posts_def)

lemma posts_quiet: "postings acts = [] \<Longrightarrow> nextId q = nextId p \<Longrightarrow> set (pending q) \<subseteq> set (pending p) \<Longrightarrow> posts p (q, acts)"
  by (simp add: posts_def)

text \<open>Only the pending tasks and the next id matter.\<close>

lemma posts_cong: "nextId p = nextId p' \<Longrightarrow> set (pending p') \<subseteq> set (pending p) \<Longrightarrow> posts p' r \<Longrightarrow> posts p r"
  by (auto simp: posts_def)

lemma posts_before: "postings acts = [] \<Longrightarrow> posts p (q, a2) \<Longrightarrow> posts p (q, acts @ a2)"
  by (simp add: posts_def)

lemma dispatch_posts: "posts p (dispatch slot t p)"
  by (simp add: posts_def dispatch_def)

lemma release_posts: "posts p (release slot p)"
proof (cases "waiting p")
  case (Cons t ts)
  then show ?thesis using posts_cong [of p "p\<lparr>waiting := ts\<rparr>"] dispatch_posts [of "p\<lparr>waiting := ts\<rparr>" slot t] by (simp add: release_def)
qed (simp add: release_def posts_def)

lemma acquire_posts: "posts p (acquire t p)"
  using posts_cong [of p "p\<lparr>idle := butlast (idle p)\<rparr>"] dispatch_posts [of "p\<lparr>idle := butlast (idle p)\<rparr>" "last (idle p)" t]
  by (simp add: acquire_def posts_quiet)

lemma spawn_posts: "posts p (spawn p)"
proof -
  let ?p = "p\<lparr>slots := slots p @ [nextSlot p], nextSlot := nextSlot p + 1\<rparr>"
  have "posts p (release (nextSlot p) ?p)" using posts_cong [of p ?p] release_posts [of ?p "nextSlot p"] by simp
  then show ?thesis using posts_before [of "[Spawned (nextSlot p) (material p)]" p] by (simp add: spawn_def Let_def split_beta)
qed

lemma spawnAll_posts: "posts p (spawnAll n p)"
proof (induction n arbitrary: p)
  case (Suc n)
  from posts_trans [of p "fst (spawn p)" "snd (spawn p)" "fst (spawnAll n (fst (spawn p)))" "snd (spawnAll n (fst (spawn p)))"]
    spawn_posts [of p] Suc.IH [of "fst (spawn p)"]
  show ?case by (simp add: spawnAll.simps(2) split_beta)
qed (simp add: posts_quiet)

lemma pool_sign_posts: "posts p (pool_sign workers t p)"
proof -
  have "posts p (ensureStarted workers p)"
    using posts_cong [of p "p\<lparr>started := True\<rparr>"] spawnAll_posts [of "p\<lparr>started := True\<rparr>" workers]
    by (simp add: ensureStarted_def posts_quiet)
  with posts_trans [of p "fst (ensureStarted workers p)" "snd (ensureStarted workers p)"
      "fst (acquire t (fst (ensureStarted workers p)))" "snd (acquire t (fst (ensureStarted workers p)))"]
    acquire_posts [of "fst (ensureStarted workers p)" t]
  show ?thesis by (simp add: pool_sign_def split_beta)
qed

lemma postings_rejects: "postings (map (\<lambda>(i, s, t). Reject t w) qs) = []" "postings (map Terminate xs) = []"
  "postings (map (\<lambda>slot. PostKeys slot keys) xs) = []"
  by (induction qs, auto) (induction xs, auto)+

lemma retire_posts: "posts p (retire slot why p)"
proof (cases "slot \<in> set (retired p)")
  case False
  let ?p = "p\<lparr>retired := slot # retired p, slots := remove1 slot (slots p), idle := remove1 slot (idle p),
      pending := filter (\<lambda>(i, s, t). s \<noteq> slot) (pending p)\<rparr>"
  let ?acts = "map (\<lambda>(i, s, t). Reject t (''signing worker '' @ why)) (filter (\<lambda>(i, s, t). s = slot) (pending p)) @ [Terminate slot]"
  have quiet: "postings ?acts = []" by (simp add: postings_rejects)
  obtain q2 a2 where spawned: "spawn ?p = (q2, a2)" by force
  have "posts p (spawn ?p)" using posts_cong [of p ?p] spawn_posts [of ?p] by auto
  then have "posts p (q2, ?acts @ a2)" unfolding spawned by (rule posts_before [OF quiet])
  moreover have "posts p (?p, ?acts)" by (rule posts_quiet [OF quiet]) auto
  moreover have "retire slot why p = (if shuttingDown p then (?p, ?acts) else (q2, ?acts @ a2))"
    using False spawned by (simp add: retire_def Let_def)
  ultimately show ?thesis by simp
qed (simp add: retire_def posts_quiet)

lemma settle_posts: "posts p (settle reply p)"
proof (cases "map_of (pending p) (reply_id reply)")
  case (Some st)
  let ?p = "p\<lparr>pending := filter (\<lambda>q. fst q \<noteq> reply_id reply) (pending p)\<rparr>"
  have "posts p (release (fst st) ?p)" using posts_cong [of p ?p] release_posts [of ?p "fst st"] by auto
  moreover have "postings [answer (snd st) reply] = []" by (cases reply) (simp_all add: answer_def)
  ultimately show ?thesis
    using Some posts_before [of "[answer (snd st) reply]" p]
    by (auto simp: settle_def Let_def split_beta intro!: posts_quiet)
qed (simp add: settle_def posts_quiet)

lemma timeout_posts: "posts p (timeout ms i p)"
proof (cases "map_of (pending p) i")
  case (Some st)
  let ?p = "p\<lparr>pending := filter (\<lambda>q. fst q \<noteq> i) (pending p)\<rparr>"
  have "posts p (retire (fst st) ''timed out'' ?p)" using posts_cong [of p ?p] retire_posts [of ?p] by auto
  with Some posts_before [of "[Reject (snd st) (''blind signing timed out after '' @ show_nat ms @ ''ms'')]" p]
  show ?thesis by (simp add: timeout_def split_beta)
qed (simp add: timeout_def posts_quiet)

lemma handle_posts: "posts p (handle config n ev p)"
  by (cases ev) (simp_all add: handle_def pool_sign_posts settle_posts timeout_posts retire_posts posts_quiet adoptKeys_def
      shutdown_def postings_rejects)

subsection \<open>Only a reply resolves a call\<close>

definition resolves :: "pool_action list \<Rightarrow> (task \<times> string) set" where
  "resolves acts = {(t, x). Resolve t x \<in> set acts}"

lemma resolves_simps [simp]:
  "resolves [] = {}" "resolves (xs @ ys) = resolves xs \<union> resolves ys"
  "resolves (Resolve t x # acts) = insert (t, x) (resolves acts)" "resolves (Reject t x # acts) = resolves acts"
  "resolves (Spawned slot keys # acts) = resolves acts" "resolves (PostKeys slot keys # acts) = resolves acts"
  "resolves (PostSign slot n t # acts) = resolves acts" "resolves (Terminate slot # acts) = resolves acts"
  by (auto simp: resolves_def)

lemma release_resolves [simp]: "resolves (snd (release slot p)) = {}"
  by (simp add: release_def dispatch_def split: list.split)

lemma acquire_resolves [simp]: "resolves (snd (acquire t p)) = {}"
  by (simp add: acquire_def dispatch_def)

lemma spawn_resolves [simp]: "resolves (snd (spawn p)) = {}"
  by (simp add: spawn_def Let_def split_beta)

lemma spawnAll_resolves [simp]: "resolves (snd (spawnAll n p)) = {}"
  by (induction n arbitrary: p) (simp_all add: spawnAll.simps split_beta)

lemma pool_sign_resolves [simp]: "resolves (snd (pool_sign workers t p)) = {}"
  by (simp add: pool_sign_def ensureStarted_def split_beta)

lemma quiet_resolves: "resolves (map (\<lambda>(i, s, t). Reject t w) qs) = {}" "resolves (map Terminate xs) = {}"
  "resolves (map (\<lambda>slot. PostKeys slot keys) xs) = {}"
  by (auto simp: resolves_def)

lemma retire_resolves [simp]: "resolves (snd (retire slot why p)) = {}"
  by (simp add: retire_def Let_def quiet_resolves split: prod.split) (metis snd_conv spawn_resolves)

lemma timeout_resolves [simp]: "resolves (snd (timeout ms i p)) = {}"
  by (simp add: timeout_def split_beta split: option.split)

lemma settle_resolves:
  assumes "(t, x) \<in> resolves (snd (settle reply p))"
  shows "\<exists>i slot. reply = Signed i x \<and> (i, slot, t) \<in> set (pending p)"
proof (cases "map_of (pending p) (reply_id reply)")
  case (Some st)
  obtain slot u where "st = (slot, u)" by force
  moreover have "(reply_id reply, st) \<in> set (pending p)" using Some by (rule map_of_SomeD)
  ultimately show ?thesis using assms Some
    by (cases reply) (auto simp: settle_def Let_def answer_def split_beta split: if_splits)
qed (use assms in \<open>simp add: settle_def\<close>)

lemma handle_resolves:
  assumes "(t, x) \<in> resolves (snd (handle config n ev p))"
  shows "\<exists>i slot. ev = Message (Signed i x) \<and> (i, slot, t) \<in> set (pending p)"
  using assms settle_resolves [of t x _ p]
  by (cases ev) (auto simp: handle_def adoptKeys_def shutdown_def quiet_resolves split: if_splits)

subsection \<open>What a worker has and has not handled\<close>

fun commands :: "nat \<Rightarrow> pool_action \<Rightarrow> sign_command list" where
  "commands slot (Spawned s keys) = (if s = slot then [Keys keys] else [])"
| "commands slot (PostKeys s keys) = (if s = slot then [Keys keys] else [])"
| "commands slot (PostSign s i t) = (if s = slot then [Sign i (tk_epoch t) (tk_blank t)] else [])"
| "commands slot _ = []"

text \<open>A worker stands somewhere in the actions: its keys are the last ones posted before that point, its inbox is what was
  posted to it since.\<close>

definition stands :: "runtime \<Rightarrow> 'k blindrsa \<Rightarrow> pool_action list \<Rightarrow> nat \<Rightarrow> 'k worker \<Rightarrow> bool" where
  "stands rt L acts slot w \<longleftrightarrow>
     (\<exists>before after keys. acts = before @ after \<and> held_keys slot before None = Some keys
        \<and> import_keys rt L keys = Inr (wk_keys w) \<and> wk_inbox w = concat (map (commands slot) after))"

text \<open>A reply is what signing inline would have returned with the keys posted last before the command.\<close>

definition justified :: "runtime \<Rightarrow> 'k blindrsa \<Rightarrow> (nat \<Rightarrow> suite_selection) \<Rightarrow> pool_action list \<Rightarrow> sign_reply \<Rightarrow> bool" where
  "justified rt L sels acts reply \<longleftrightarrow>
     (\<exists>before slot i t after keys ks. acts = before @ PostSign slot i t # after \<and> held_keys slot before None = Some keys
        \<and> import_keys rt L keys = Inr ks \<and> reply = worker_sign rt L (sels slot) ks i (tk_epoch t) (tk_blank t))"

lemma justified_later: "justified rt L sels acts reply \<Longrightarrow> justified rt L sels (acts @ later) reply"
  unfolding justified_def by fastforce

lemma deliver_other: "commands slot a = [] \<Longrightarrow> deliver rt L a ws slot = ws slot"
  by (cases a) (auto simp: post_message_def split: if_splits option.splits)

lemma deliver_stands:
  assumes "\<And>w. ws slot = Some w \<Longrightarrow> stands rt L acts slot w" and "deliver rt L a ws slot = Some w"
  shows "stands rt L (acts @ [a]) slot w"
proof (cases "\<exists>keys. a = Spawned slot keys")
  case True
  then obtain keys where "a = Spawned slot keys" by blast
  with assms(2) show ?thesis
    unfolding stands_def by (intro exI [of _ "acts @ [a]"] exI [of _ "[]"] exI [of _ keys]) (auto simp: worker_start_def split: sum.splits)
next
  case False
  have "\<exists>v. ws slot = Some v \<and> wk_keys w = wk_keys v \<and> wk_inbox w = wk_inbox v @ commands slot a"
    using assms(2) False by (cases a) (auto simp: post_message_def split: if_splits option.splits)
  then obtain v where v: "ws slot = Some v" "wk_keys w = wk_keys v" "wk_inbox w = wk_inbox v @ commands slot a" by blast
  from assms(1) [OF v(1)] obtain before after keys where "acts = before @ after" "held_keys slot before None = Some keys"
    "import_keys rt L keys = Inr (wk_keys v)" "wk_inbox v = concat (map (commands slot) after)" unfolding stands_def by blast
  with v show ?thesis
    unfolding stands_def by (intro exI [of _ before] exI [of _ "after @ [a]"] exI [of _ keys]) simp
qed

lemma delivered_stands:
  assumes "\<And>w. ws slot = Some w \<Longrightarrow> stands rt L acts slot w" and "fold (deliver rt L) new ws slot = Some w"
  shows "stands rt L (acts @ new) slot w"
  using assms
proof (induction new arbitrary: ws acts)
  case (Cons a new)
  from Cons.IH [of "deliver rt L a ws" "acts @ [a]"] Cons.prems deliver_stands [OF Cons.prems(1), where a = a] show ?case by simp
qed simp

lemma first_command:
  assumes "concat (map (commands slot) acts) = c # cs"
  obtains before a after where "acts = before @ a # after" and "concat (map (commands slot) before) = []"
    and "commands slot a = [c]" and "concat (map (commands slot) after) = cs"
  using assms
proof (induction acts arbitrary: thesis)
  case (Cons a acts)
  show ?case
  proof (cases "commands slot a")
    case Nil
    with Cons.prems(2) have "concat (map (commands slot) acts) = c # cs" by simp
    then obtain before b after where ih: "acts = before @ b # after" "concat (map (commands slot) before) = []"
      "commands slot b = [c]" "concat (map (commands slot) after) = cs" using Cons.IH by blast
    show ?thesis by (rule Cons.prems(1) [of "a # before" b after]) (simp_all add: Nil ih)
  next
    case (Cons d ds)
    then have "ds = []" by (cases a) (simp_all split: if_splits)
    with Cons Cons.prems show ?thesis by (intro Cons.prems(1) [of "[]" a acts]) simp_all
  qed
qed simp

lemma quiet_keys: "concat (map (commands slot) acts) = [] \<Longrightarrow> held_keys slot acts held = held"
proof (induction acts arbitrary: held)
  case (Cons a acts)
  then show ?case by (cases a) (auto split: if_splits)
qed simp

text \<open>A worker takes one command.\<close>

lemma work_stands:
  assumes "stands rt L acts slot w" and "wk_inbox w = c # cs"
    and "worker_handle rt L (sels slot) c (w\<lparr>wk_inbox := cs\<rparr>) = Some (w', rs)"
  shows "stands rt L acts slot w'" and "r \<in> set rs \<Longrightarrow> justified rt L sels acts r"
proof -
  from assms(1) obtain before after keys where at: "acts = before @ after" "held_keys slot before None = Some keys"
    "import_keys rt L keys = Inr (wk_keys w)" "wk_inbox w = concat (map (commands slot) after)" unfolding stands_def by blast
  then have "concat (map (commands slot) after) = c # cs" using assms(2) by simp
  then obtain quiet a rest where split: "after = quiet @ a # rest" "concat (map (commands slot) quiet) = []"
    "commands slot a = [c]" "concat (map (commands slot) rest) = cs" by (rule first_command)
  have held: "held_keys slot (before @ quiet) None = Some keys" by (simp add: at(2) quiet_keys [OF split(2)])
  have "stands rt L acts slot w' \<and> (\<forall>r \<in> set rs. justified rt L sels acts r)"
  proof (cases c)
    case (Keys new)
    then have "held_keys slot (before @ quiet @ [a]) None = Some new"
      using split(3) by (cases a) (auto split: if_splits)
    with Keys assms(3) show ?thesis
      unfolding stands_def
      by (intro conjI exI [of _ "before @ quiet @ [a]"] exI [of _ rest] exI [of _ new]) (auto simp: at(1) split split: sum.splits)
  next
    case (Sign i e b)
    then obtain t where a: "a = PostSign slot i t" "e = tk_epoch t" "b = tk_blank t"
      using split(3) by (cases a) (auto split: if_splits)
    then have "held_keys slot (before @ quiet @ [a]) None = Some keys" using held by simp
    then have "stands rt L acts slot w'"
      using Sign assms(3) unfolding stands_def
      by (intro exI [of _ "before @ quiet @ [a]"] exI [of _ rest] exI [of _ keys]) (auto simp: at split)
    moreover have "justified rt L sels acts r" if "r \<in> set rs" for r
      using that Sign assms(3) held unfolding justified_def
      by (intro exI [of _ "before @ quiet"] exI [of _ slot] exI [of _ i] exI [of _ t] exI [of _ rest] exI [of _ keys]
          exI [of _ "wk_keys w"])
        (auto simp: at a split)
    ultimately show ?thesis by blast
  qed
  then show "stands rt L acts slot w'" "r \<in> set rs \<Longrightarrow> justified rt L sels acts r" by blast+
qed

subsection \<open>The invariant of pool and workers\<close>

text \<open>A call that was answered with what signing inline would have given.\<close>

definition signed_inline ::
  "runtime \<Rightarrow> 'k blindrsa \<Rightarrow> (nat \<Rightarrow> suite_selection) \<Rightarrow> pool_action list \<Rightarrow> task \<Rightarrow> string \<Rightarrow> bool" where
  "signed_inline rt L sels acts t x \<longleftrightarrow>
     (\<exists>before slot i after keys ks. acts = before @ PostSign slot i t # after \<and> held_keys slot before None = Some keys
        \<and> import_keys rt L keys = Inr ks \<and> signInline rt L (Some (sels slot)) ks (tk_epoch t) (tk_blank t) = Inr x)"

definition th_inv :: "runtime \<Rightarrow> 'k blindrsa \<Rightarrow> (nat \<Rightarrow> suite_selection) \<Rightarrow> 'k threads \<Rightarrow> bool" where
  "th_inv rt L sels y \<longleftrightarrow>
     (\<forall>slot w. th_workers y slot = Some w \<longrightarrow> stands rt L (run_actions (th_run y)) slot w)
     \<and> (\<forall>r \<in> set (th_replies y). justified rt L sels (run_actions (th_run y)) r)
     \<and> map fst (postings (run_actions (th_run y))) = [0..<nextId (run_pool (th_run y))]
     \<and> set (pending (run_pool (th_run y))) \<subseteq> set (postings (run_actions (th_run y)))
     \<and> (\<forall>(t, x) \<in> resolves (run_actions (th_run y)). signed_inline rt L sels (run_actions (th_run y)) t x)"

lemma signed_inline_later: "signed_inline rt L sels acts t x \<Longrightarrow> signed_inline rt L sels (acts @ later) t x"
  unfolding signed_inline_def by fastforce

lemma reply_signed_inline:
  assumes "justified rt L sels acts (Signed i x)" and "(i, slot, t) \<in> set (postings acts)" and "distinct (map fst (postings acts))"
  shows "signed_inline rt L sels acts t x"
proof -
  obtain before s n u after keys ks where at: "acts = before @ PostSign s n u # after" "held_keys s before None = Some keys"
    "import_keys rt L keys = Inr ks" "Signed i x = worker_sign rt L (sels s) ks n (tk_epoch u) (tk_blank u)"
    using assms(1) unfolding justified_def by blast
  then have inline: "signInline rt L (Some (sels s)) ks (tk_epoch u) (tk_blank u) = Inr x" "n = i"
    by (auto simp: worker_sign_inline split: sum.splits)
  have "(i, s, u) \<in> set (postings acts)" by (simp add: at(1) inline(2))
  with assms(2,3) have "(s, u) = (slot, t)" by (blast dest: eq_key_imp_eq_value)
  then have "u = t" by simp
  with at inline show ?thesis unfolding signed_inline_def by blast
qed

lemma th_event_inv:
  assumes "th_inv rt L sels y" and "\<And>i x. ev = Message (Signed i x) \<Longrightarrow> justified rt L sels (run_actions (th_run y)) (Signed i x)"
  shows "th_inv rt L sels (th_event rt L config ev y)"
proof -
  let ?p = "run_pool (th_run y)" and ?acts = "run_actions (th_run y)" and ?y' = "th_event rt L config ev y"
  let ?h = "handle config (run_calls (th_run y)) ev ?p"
  have inv: "\<And>slot w. th_workers y slot = Some w \<Longrightarrow> stands rt L ?acts slot w" "\<forall>r \<in> set (th_replies y). justified rt L sels ?acts r"
    "map fst (postings ?acts) = [0..<nextId ?p]" "set (pending ?p) \<subseteq> set (postings ?acts)"
    "\<forall>(t, x) \<in> resolves ?acts. signed_inline rt L sels ?acts t x"
    using assms(1) unfolding th_inv_def by blast+
  have sel: "run_actions (th_run ?y') = ?acts @ snd ?h" "run_pool (th_run ?y') = fst ?h" "th_replies ?y' = th_replies y"
    "th_workers ?y' = fold (deliver rt L) (snd ?h) (th_workers y)"
    by (simp_all add: th_event_def run_actions_step run_step_pool)
  have posts: "nextId ?p \<le> nextId (fst ?h)" "map fst (postings (snd ?h)) = [nextId ?p..<nextId (fst ?h)]"
    "set (pending (fst ?h)) \<subseteq> set (pending ?p) \<union> set (postings (snd ?h))"
    using handle_posts [of ?p config "run_calls (th_run y)" ev] unfolding posts_def by blast+
  have "map fst (postings (?acts @ snd ?h)) = [0..<nextId (fst ?h)]"
    using inv(3) posts(1,2) upt_add_eq_append [of 0 "nextId ?p" "nextId (fst ?h) - nextId ?p"] by simp
  moreover have "signed_inline rt L sels (?acts @ snd ?h) t x" if "(t, x) \<in> resolves (?acts @ snd ?h)" for t x
  proof (cases "(t, x) \<in> resolves ?acts")
    case True
    with inv(5) show ?thesis by (blast intro: signed_inline_later)
  next
    case False
    with that have "(t, x) \<in> resolves (snd ?h)" by simp
    from handle_resolves [OF this] obtain i slot where hit: "ev = Message (Signed i x)" "(i, slot, t) \<in> set (pending ?p)" by blast
    have "signed_inline rt L sels ?acts t x"
      by (rule reply_signed_inline [OF assms(2) [OF hit(1)], of slot]) (use inv(3,4) hit(2) in auto)
    then show ?thesis by (rule signed_inline_later)
  qed
  moreover have "stands rt L (?acts @ snd ?h) slot w" if "fold (deliver rt L) (snd ?h) (th_workers y) slot = Some w" for slot w
    using delivered_stands [OF inv(1) that] by simp
  ultimately show ?thesis
    using inv(2,4) posts(3) justified_later unfolding th_inv_def sel by fastforce
qed

lemma th_step_inv: "th_step rt L config sels y y' \<Longrightarrow> th_inv rt L sels y \<Longrightarrow> th_inv rt L sels y'"
proof (induction rule: th_step.induct)
  case (event ev y)
  then show ?case by (intro th_event_inv) auto
next
  case (reply y before r after)
  then have "justified rt L sels (run_actions (th_run y)) r" "th_inv rt L sels (y\<lparr>th_replies := before @ after\<rparr>)"
    by (auto simp: th_inv_def)
  then show ?case by (intro th_event_inv) auto
next
  case (work y slot w c cs w' rs)
  then have "stands rt L (run_actions (th_run y)) slot w" by (simp add: th_inv_def)
  from work_stands [where sels = sels, OF this work(2,3)] work.prems show ?case by (auto simp: th_inv_def)
next
  case (gone y slot)
  then show ?case by (auto simp: th_inv_def)
qed

lemma th_reachable_inv: "th_reachable rt L config sels y \<Longrightarrow> th_inv rt L sels y"
proof (induction rule: th_reachable.induct)
  case (boot keys)
  then show ?case by (simp add: th_inv_def initial_pool_def)
qed (rule th_step_inv)

subsection \<open>Starting to sign\<close>

text \<open>What the pool holds after \<open>onModuleInit\<close>, and what it logs. Without workers nothing is ever spawned: \<open>sign\<close> then
  is \<open>signInline\<close>.\<close>

definition inlineMode :: "issuer_config \<Rightarrow> bool" where
  "inlineMode config \<longleftrightarrow> signingWorkers config = 0"

record 'k signer =
  sg_pool :: pool
  sg_inlineKeys :: "string \<rightharpoonup> string + 'k"
  sg_selection :: "suite_selection option"
  sg_log :: "log_line list"

definition signer_init ::
  "runtime \<Rightarrow> 'k blindrsa \<Rightarrow> known_answer \<Rightarrow> issuer_config \<Rightarrow> key_material list \<Rightarrow> string + 'k signer" where
  "signer_init rt L ka config keys =
     (case import_keys rt L keys of
        Inl e \<Rightarrow> Inl e
      | Inr inlineKeys \<Rightarrow>
     (let selection = selectSigningSuite L ka (useNativeRsa config);
          reason = sel_reason selection;
          place = (if inlineMode config then ''inline on the main thread''
                    else ''on '' @ show_nat (signingWorkers config) @ '' worker thread(s)'')
      in Inr \<lparr>sg_pool = fst (adoptKeys keys (initial_pool keys)), sg_inlineKeys = inlineKeys,
          sg_selection = Some selection,
          sg_log =
            [if fastPath selection then LogInfo (''blind signing '' @ place @ '', RSA-RAW fast path ('' @ reason @ '')'')
             else LogWarn (''blind signing '' @ place @ '', pure-JS path at ~280ms per signature: '' @ reason)]
            @ (if inlineMode config \<and> \<not> fastPath selection
               then [LogWarn (''SIGNING_WORKERS=0 with the pure-JS path blocks the event loop for seconds per bundle; ''
                       @ ''set SIGNING_WORKERS to 1 or more, or leave SIGNING_NATIVE_RSA on'')]
               else [])\<rparr>))"

text \<open>The pool starts as \<open>th_reachable\<close> has it, and a signer that warns of nothing signs on the fast path.\<close>

lemma signer_init_pool: "signer_init rt L ka config keys = Inr sg \<Longrightarrow> sg_pool sg = initial_pool keys"
  by (auto simp: signer_init_def Let_def adoptKeys_def initial_pool_def split: sum.splits)

lemma selected_fast: "fastPath (selectSigningSuite L ka native) \<longleftrightarrow> sel_suite (selectSigningSuite L ka native) = FastSuite"
  by (auto simp: selectSigningSuite_def split: sum.splits)

lemma silent_fast:
  assumes "signer_init rt L ka config keys = Inr sg"
  shows "(\<forall>line \<in> set (sg_log sg). \<forall>m. line \<noteq> LogWarn m) \<longleftrightarrow>
     (\<exists>selection. sg_selection sg = Some selection \<and> sel_suite selection = FastSuite)"
  using assms by (cases "import_keys rt L keys") (auto simp: signer_init_def Let_def selected_fast split: if_split_asm)

subsection \<open>A reload with the signer listening\<close>

text \<open>
  One tick of the timer of \<open>KeysService\<close>, with the signer as the listener it has: the keyring is installed first (from then
  on \<open>material\<close> is its keys, which new workers get), then the signer imports the keys, and only then does the service look
  at the expiry. A throw in the listener leaves the tick there; nothing catches it (\<open>tick_thrown\<close>).
\<close>

record 'k tick =
  tick_keys :: keys_state
  tick_signer :: "'k signer"
  tick_posted :: "pool_action list"
  tick_log :: "log_line list"
  tick_thrown :: "failure option"

definition reload_tick ::
  "runtime \<Rightarrow> 'k blindrsa \<Rightarrow> ('sk, 'pk) ed25519 \<Rightarrow> (string \<Rightarrow> string) \<Rightarrow> issuer_config \<Rightarrow> string option \<Rightarrow> millis
     \<Rightarrow> keys_state \<Rightarrow> 'k signer \<Rightarrow> 'k tick"
where
  "reload_tick rt L C sha256 config contents now s sg =
     (case reload rt C sha256 config False contents now s of
        Inl e \<Rightarrow> \<lparr>tick_keys = s, tick_signer = sg, tick_posted = [], tick_log = [], tick_thrown = Some e\<rparr>
      | Inr r \<Rightarrow>
          (case rr_notify r of
             None \<Rightarrow> \<lparr>tick_keys = rr_state r, tick_signer = sg, tick_posted = [], tick_log = rr_log r, tick_thrown = None\<rparr>
           | Some keys \<Rightarrow>
               (case import_keys rt L keys of
                  Inl e \<Rightarrow>
                    \<lparr>tick_keys = rr_state r, tick_signer = sg\<lparr>sg_pool := (sg_pool sg)\<lparr>material := keys\<rparr>\<rparr>, tick_posted = [],
                     tick_log = take 1 (rr_log r), tick_thrown = Some (Error e)\<rparr>
                | Inr inlineKeys \<Rightarrow>
                    (case adoptKeys keys ((sg_pool sg)\<lparr>material := keys\<rparr>) of
                       (p, posted) \<Rightarrow>
                         \<lparr>tick_keys = rr_state r, tick_signer = sg\<lparr>sg_pool := p, sg_inlineKeys := inlineKeys\<rparr>, tick_posted = posted,
                          tick_log = rr_log r, tick_thrown = None\<rparr>))))"

text \<open>A text that is no PEM anywhere in the keyring throws; PEMs never do.\<close>

lemma import_keys_throws:
  "(\<exists>e. import_keys rt L ms = Inl e) \<longleftrightarrow> (\<exists>m \<in> set ms. \<exists>e. pkcs8PemToDer rt (km_privateKeyPem m) = Inl e)"
proof -
  have "(\<exists>e. map_result (\<lambda>m. importPrivateKeyPem rt L (km_privateKeyPem m)) ms = Inl e) \<longleftrightarrow>
      (\<exists>m \<in> set ms. \<exists>e. pkcs8PemToDer rt (km_privateKeyPem m) = Inl e)" for ms :: "key_material list"
    by (induction ms) (auto simp: importPrivateKeyPem_def split: sum.splits)
  from this [of ms] show ?thesis
    by (cases "map_result (\<lambda>m. importPrivateKeyPem rt L (km_privateKeyPem m)) ms") (simp_all add: import_keys_def)
qed

lemma reload_tick_throws:
  assumes "accept_keyring rt C raw = Inr k" and "ks_fingerprint s \<noteq> Some (sha256 raw)"
    and "e \<in> set (epochs k)" and "pkcs8PemToDer rt (private_key_pkcs8_pem e) = Inl cause"
  obtains keys m log where "keyMaterial \<lparr>ks_keyring = Some k, ks_fingerprint = Some (sha256 raw)\<rparr> = Inr keys"
    and "import_keys rt L keys = Inl m"
    and "reload_tick rt L C sha256 config (Some raw) now s sg =
      \<lparr>tick_keys = \<lparr>ks_keyring = Some k, ks_fingerprint = Some (sha256 raw)\<rparr>, tick_signer = sg\<lparr>sg_pool := (sg_pool sg)\<lparr>material := keys\<rparr>\<rparr>,
       tick_posted = [], tick_log = log, tick_thrown = Some (Error m)\<rparr>"
proof -
  let ?keys = "map (\<lambda>e. \<lparr>km_epoch = epoch_id e, km_privateKeyPem = private_key_pkcs8_pem e\<rparr>) (epochs k)"
  have "\<exists>m \<in> set ?keys. \<exists>e. pkcs8PemToDer rt (km_privateKeyPem m) = Inl e" using assms(3,4) by force
  then obtain m where "import_keys rt L ?keys = Inl m" using import_keys_throws by blast
  moreover obtain log where "reload rt C sha256 config False (Some raw) now s =
    Inr \<lparr>rr_state = \<lparr>ks_keyring = Some k, ks_fingerprint = Some (sha256 raw)\<rparr>, rr_notify = Some ?keys, rr_log = log\<rparr>"
    using reload_accepts [where ?sha256.0 = sha256, OF assms(1,2)] by blast
  ultimately show ?thesis
    by (intro that [of ?keys m "take 1 log"]) (simp_all add: reload_tick_def keyMaterial_def require_keyring_def)
qed

lemma reload_tick_same:
  "ks_fingerprint s = Some (sha256 raw) \<Longrightarrow> reload_tick rt L C sha256 config (Some raw) now s sg =
    \<lparr>tick_keys = s, tick_signer = sg, tick_posted = [], tick_log = [], tick_thrown = None\<rparr>"
  by (simp add: reload_tick_def reload_same)

text \<open>With PEMs the tick ends, and keyring, main thread and workers have the same keys.\<close>

lemma reload_tick_adopts:
  assumes "accept_keyring rt C raw = Inr k" and "ks_fingerprint s \<noteq> Some (sha256 raw)"
    and "\<And>e. e \<in> set (epochs k) \<Longrightarrow> \<exists>der. pkcs8PemToDer rt (private_key_pkcs8_pem e) = Inr der"
  obtains keys imported log where "keyMaterial \<lparr>ks_keyring = Some k, ks_fingerprint = Some (sha256 raw)\<rparr> = Inr keys"
    and "import_keys rt L keys = Inr imported"
    and "reload_tick rt L C sha256 config (Some raw) now s sg =
      \<lparr>tick_keys = \<lparr>ks_keyring = Some k, ks_fingerprint = Some (sha256 raw)\<rparr>,
       tick_signer = sg\<lparr>sg_pool := fst (adoptKeys keys ((sg_pool sg)\<lparr>material := keys\<rparr>)), sg_inlineKeys := imported\<rparr>,
       tick_posted = snd (adoptKeys keys ((sg_pool sg)\<lparr>material := keys\<rparr>)), tick_log = log, tick_thrown = None\<rparr>"
proof -
  let ?keys = "map (\<lambda>e. \<lparr>km_epoch = epoch_id e, km_privateKeyPem = private_key_pkcs8_pem e\<rparr>) (epochs k)"
  have "pkcs8PemToDer rt (private_key_pkcs8_pem e) \<noteq> Inl m" if "e \<in> set (epochs k)" for e m using assms(3) [OF that] by auto
  then have "\<not> (\<exists>m \<in> set ?keys. \<exists>e. pkcs8PemToDer rt (km_privateKeyPem m) = Inl e)" by simp
  then have "\<nexists>e. import_keys rt L ?keys = Inl e" unfolding import_keys_throws .
  then obtain imported where imported: "import_keys rt L ?keys = Inr imported" by (cases "import_keys rt L ?keys") auto
  obtain log where "reload rt C sha256 config False (Some raw) now s =
    Inr \<lparr>rr_state = \<lparr>ks_keyring = Some k, ks_fingerprint = Some (sha256 raw)\<rparr>, rr_notify = Some ?keys, rr_log = log\<rparr>"
    using reload_accepts [where ?sha256.0 = sha256, OF assms(1,2)] by blast
  with imported show ?thesis
    by (intro that [of ?keys imported log])
      (simp_all add: keyMaterial_def require_keyring_def reload_tick_def case_prod_beta [of _ "adoptKeys _ _"])
qed

text \<open>For the pool such a tick is one of its events.\<close>

lemma reload_tick_event:
  assumes "tick_keys (reload_tick rt L C sha256 config contents now s sg) \<noteq> s"
  shows "\<exists>keys. (sg_pool (tick_signer (reload_tick rt L C sha256 config contents now s sg)),
      tick_posted (reload_tick rt L C sha256 config contents now s sg)) =
    handle config n (case import_keys rt L keys of Inl _ \<Rightarrow> KeysInstalled keys | Inr _ \<Rightarrow> KeysChanged keys) (sg_pool sg)"
proof (cases "reload rt C sha256 config False contents now s")
  case (Inl e)
  with assms show ?thesis by (simp add: reload_tick_def)
next
  case (Inr r)
  show ?thesis
  proof (cases "rr_notify r")
    case None
    with Inr have "rr_state r = s"
      by (auto simp: reload_def Let_def split: option.splits if_splits sum.splits)
    with assms Inr None show ?thesis by (simp add: reload_tick_def)
  next
    case (Some keys)
    with Inr show ?thesis
      by (intro exI [of _ keys]) (auto simp: reload_tick_def handle_def split: sum.split prod.split)
  qed
qed

subsection \<open>Workers that cannot start\<close>

text \<open>
  While the keys of the installed keyring cannot be imported, no worker that is started lives: the pool counts it as a
  slot, hands it a call and starts another when it hears that it is gone. A quiet step is one that installs no other keys.
\<close>

definition quiet_step ::
  "runtime \<Rightarrow> 'k blindrsa \<Rightarrow> issuer_config \<Rightarrow> (nat \<Rightarrow> suite_selection) \<Rightarrow> 'k threads \<Rightarrow> 'k threads \<Rightarrow> bool" where
  "quiet_step rt L config sels y y' \<longleftrightarrow>
     th_step rt L config sels y y' \<and> material (run_pool (th_run y')) = material (run_pool (th_run y))"

definition spawns_only :: "key_material list \<Rightarrow> pool_action list \<Rightarrow> bool" where
  "spawns_only keys acts \<longleftrightarrow> (\<forall>slot ks. Spawned slot ks \<in> set acts \<longrightarrow> ks = keys)"

lemma spawns_only_simps [simp]:
  "spawns_only keys []" "spawns_only keys (xs @ ys) \<longleftrightarrow> spawns_only keys xs \<and> spawns_only keys ys"
  "spawns_only keys (Spawned slot ks # xs) \<longleftrightarrow> ks = keys \<and> spawns_only keys xs"
  "spawns_only keys (PostKeys slot ks # xs) \<longleftrightarrow> spawns_only keys xs" "spawns_only keys (PostSign slot i t # xs) \<longleftrightarrow> spawns_only keys xs"
  "spawns_only keys (Resolve t x # xs) \<longleftrightarrow> spawns_only keys xs" "spawns_only keys (Reject t x # xs) \<longleftrightarrow> spawns_only keys xs"
  "spawns_only keys (Terminate slot # xs) \<longleftrightarrow> spawns_only keys xs"
  by (auto simp: spawns_only_def)

lemma release_spawns [simp]: "spawns_only keys (snd (release slot p))"
  by (simp add: release_def dispatch_def split: list.split)

lemma acquire_spawns [simp]: "spawns_only keys (snd (acquire t p))"
  by (simp add: acquire_def dispatch_def)

lemma spawn_spawns [simp]: "spawns_only (material p) (snd (spawn p))"
  by (simp add: spawn_def Let_def split_beta)

lemma spawnAll_spawns [simp]: "spawns_only (material p) (snd (spawnAll n p))"
proof (induction n arbitrary: p)
  case (Suc n)
  from Suc [of "fst (spawn p)"] show ?case by (simp add: spawnAll.simps split_beta spawn_frame)
qed simp

lemma pool_sign_spawns: "spawns_only (material p) (snd (pool_sign workers t p))"
  using spawnAll_spawns [of "p\<lparr>started := True\<rparr>" workers] by (simp add: pool_sign_def ensureStarted_def split_beta)

lemma quiet_spawns: "spawns_only keys (map (\<lambda>(i, s, t). Reject t w) qs)" "spawns_only keys (map Terminate xs)"
  "spawns_only keys (map (\<lambda>slot. PostKeys slot ks) xs)"
  by (auto simp: spawns_only_def)

lemma retire_spawns: "spawns_only (material p) (snd (retire slot why p))"
proof -
  let ?p = "p\<lparr>retired := slot # retired p, slots := remove1 slot (slots p), idle := remove1 slot (idle p),
      pending := filter (\<lambda>(i, s, t). s \<noteq> slot) (pending p)\<rparr>"
  have "spawns_only (material p) (snd (spawn ?p))" using spawn_spawns [of ?p] by simp
  then show ?thesis by (simp add: retire_def Let_def quiet_spawns split_beta)
qed

lemma handle_spawns: "\<forall>keys. ev \<noteq> KeysChanged keys \<Longrightarrow> spawns_only (material p) (snd (handle config n ev p))"
proof (cases ev)
  case (TimerFires i)
  have "spawns_only (material p) (snd (retire slot why (p\<lparr>pending := qs\<rparr>)))" for slot why qs
    using retire_spawns [of "p\<lparr>pending := qs\<rparr>" slot why] by simp
  with TimerFires show ?thesis by (simp add: handle_def timeout_def split_beta split: option.split)
next
  case (Message reply)
  then show ?thesis
    by (cases reply) (simp_all add: handle_def settle_def Let_def answer_def split_beta split: option.split)
qed (auto simp: handle_def pool_sign_spawns retire_spawns shutdown_def quiet_spawns)

lemma deliver_dead:
  assumes "spawns_only keys acts" and "import_keys rt L keys = Inl e"
  shows "dom (fold (deliver rt L) acts ws) \<subseteq> dom ws"
  using assms(1)
proof (induction acts arbitrary: ws)
  case (Cons a acts)
  have "dom (deliver rt L a ws) \<subseteq> dom ws"
    using Cons.prems assms(2) by (cases a) (auto simp: worker_start_def post_message_def split: option.splits if_splits)
  moreover have "spawns_only keys acts" using Cons.prems by (auto simp: spawns_only_def)
  ultimately show ?case using Cons.IH [of "deliver rt L a ws"] by auto
qed simp

lemma quiet_step_dead:
  assumes "quiet_step rt L config sels y y'" and "import_keys rt L (material (run_pool (th_run y))) = Inl e"
  shows "dom (th_workers y') \<subseteq> dom (th_workers y)"
    and "th_workers y = Map.empty \<Longrightarrow> th_replies y = [] \<Longrightarrow>
      th_replies y' = [] \<and> resolves (run_actions (th_run y')) = resolves (run_actions (th_run y))"
proof -
  let ?p = "run_pool (th_run y)"
  have step: "th_step rt L config sels y y'" and same: "material (run_pool (th_run y')) = material ?p"
    using assms(1) by (simp_all add: quiet_step_def)
  have ev: "dom (th_workers (th_event rt L config ev z)) \<subseteq> dom (th_workers z)"
    if "\<forall>keys. ev \<noteq> KeysChanged keys" "th_run z = th_run y" for ev z
    using deliver_dead [OF handle_spawns [OF that(1)] assms(2)] that(2) by (simp add: th_event_def)
  from step show "dom (th_workers y') \<subseteq> dom (th_workers y)"
  proof (cases rule: th_step.cases)
    case (event ev)
    have "ev \<noteq> KeysChanged keys" for keys
    proof
      assume "ev = KeysChanged keys"
      then have "material (run_pool (th_run y')) = keys" "\<exists>ks. import_keys rt L keys = Inr ks"
        using event by (simp_all add: th_event_def run_step_pool handle_def adoptKeys_def)
      with same assms(2) show False by simp
    qed
    with ev [of ev y] event(1) show ?thesis by simp
  next
    case (reply before r after)
    with ev [of "Message r" "y\<lparr>th_replies := before @ after\<rparr>"] show ?thesis by simp
  qed auto
  show "th_replies y' = [] \<and> resolves (run_actions (th_run y')) = resolves (run_actions (th_run y))"
    if "th_workers y = Map.empty" "th_replies y = []"
    using step
  proof (cases rule: th_step.cases)
    case (event ev)
    have "(t, x) \<notin> resolves (snd (handle config (run_calls (th_run y)) ev ?p))" for t x
      using handle_resolves [of t x config "run_calls (th_run y)" ev ?p] event(2) by blast
    with event(1) that show ?thesis by (auto simp: th_event_def run_actions_step)
  qed (use that in simp_all)
qed

lemma quiet_run_dead:
  assumes "(quiet_step rt L config sels)\<^sup>*\<^sup>* y y'" and "import_keys rt L (material (run_pool (th_run y))) = Inl e"
  shows "material (run_pool (th_run y')) = material (run_pool (th_run y)) \<and> dom (th_workers y') \<subseteq> dom (th_workers y)
    \<and> (th_workers y = Map.empty \<and> th_replies y = [] \<longrightarrow>
         th_replies y' = [] \<and> resolves (run_actions (th_run y')) = resolves (run_actions (th_run y)))"
  using assms(1)
proof (induction rule: rtranclp_induct)
  case (step y' y'')
  then have mat: "material (run_pool (th_run y')) = material (run_pool (th_run y))" by blast
  have fewer: "dom (th_workers y'') \<subseteq> dom (th_workers y)" using quiet_step_dead(1) [OF step(2) assms(2) [folded mat]] step(3) by blast
  have "th_workers y = Map.empty \<Longrightarrow> th_workers y' = Map.empty" using step(3) by auto
  with quiet_step_dead(2) [OF step(2) assms(2) [folded mat]] step(2,3) fewer show ?case
    by (simp add: quiet_step_def mat)
qed simp

end
