(* ===== verification/PropertiesPool.thy ===== *)
theory PropertiesPool
  imports Samples Workers
begin

text \<open>The properties of the signer pool, with the witnesses that run it.\<close>

subsection \<open>A run\<close>

definition pool_config :: issuer_config where
  "pool_config = sample_config\<lparr>signingWorkers := 1\<rparr>"

definition boot_run :: pool_run where
  "boot_run = \<lparr>run_pool = initial_pool [\<lparr>km_epoch = ''7'', km_privateKeyPem = ''pem''\<rparr>], run_calls = 0, run_actions = []\<rparr>"

definition run_events :: "issuer_config \<Rightarrow> pool_event list \<Rightarrow> pool_run \<Rightarrow> pool_run" where
  "run_events config evs r = fold (run_step config) evs r"

text \<open>Two calls on one worker: the second waits.\<close>

definition two_calls :: pool_run where
  "two_calls = run_events pool_config [SignCall ''7'' ''a'', SignCall ''7'' ''b''] boot_run"

lemma run_events_reachable: "pool_reachable config r \<Longrightarrow> pool_reachable config (run_events config evs r)"
  unfolding run_events_def by (induction evs arbitrary: r) (simp_all add: pool_reachable.event)

lemma two_calls_reachable: "pool_reachable pool_config two_calls"
  unfolding two_calls_def boot_run_def by (intro run_events_reachable pool_reachable.boot)

lemma pool_config_sel [simp]: "signingWorkers pool_config = 1" "signingTimeoutMs pool_config = 1000"
  by (simp_all add: pool_config_def sample_config_def)

lemma two_calls_eval:
  "two_calls =
     \<lparr>run_pool = \<lparr>slots = [0], idle = [], waiting = [\<lparr>tk_no = 1, tk_epoch = ''7'', tk_blank = ''b''\<rparr>],
                  pending = [(0, 0, \<lparr>tk_no = 0, tk_epoch = ''7'', tk_blank = ''a''\<rparr>)], retired = [], nextId = 1, nextSlot = 1,
                  started = True, shuttingDown = False, material = [\<lparr>km_epoch = ''7'', km_privateKeyPem = ''pem''\<rparr>]\<rparr>,
      run_calls = 2,
      run_actions = [Spawned 0 [\<lparr>km_epoch = ''7'', km_privateKeyPem = ''pem''\<rparr>],
                     PostSign 0 0 \<lparr>tk_no = 0, tk_epoch = ''7'', tk_blank = ''a''\<rparr>]\<rparr>"
  by (simp add: two_calls_def run_events_def boot_run_def run_step_def handle_def pool_sign_def ensureStarted_def
      spawnAll.simps spawn_def release_def acquire_def dispatch_def initial_pool_def Let_def numeral_2_eq_2)

subsection \<open>Properties\<close>

text \<open>C34. In every reachable state of the pool each live worker is either idle or carries exactly one blank, nobody
  waits while a worker is idle, and once started the pool keeps its configured number of workers until it shuts
  down, whatever workers time out, fail or exit.\<close>

theorem pool_partition:
  assumes "pool_reachable config r"
  shows "mset (slots (run_pool r)) = mset (idle (run_pool r)) + mset (map (\<lambda>(i, slot, t). slot) (pending (run_pool r)))
    \<and> distinct (slots (run_pool r))
    \<and> (waiting (run_pool r) = [] \<or> idle (run_pool r) = [])
    \<and> (started (run_pool r) \<longrightarrow> shuttingDown (run_pool r) \<or> length (slots (run_pool r)) = signingWorkers config)"
proof -
  have "busy p = map (\<lambda>(i, slot, t). slot) (pending p)" for p
    by (simp add: busy_def split_beta)
  with reachable_inv [OF assms] show ?thesis
    by (auto simp: pool_inv_def pool_mid_def slots_ok_def)
qed

theorem pool_partition_witness:
  "mset (slots (run_pool two_calls)) = {#0#} \<and> waiting (run_pool two_calls) \<noteq> [] \<and> idle (run_pool two_calls) = []"
  using pool_partition [OF two_calls_reachable] by (simp add: two_calls_eval)

text \<open>C35. No call of the pool is lost and none is answered twice: in every reachable state the calls that are
  outstanding and the calls whose promise was settled are together exactly the calls made, each once.\<close>

theorem pool_calls_settled_once:
  assumes "pool_reachable config r"
  shows "mset (map tk_no (waiting (run_pool r))) + mset (map (\<lambda>(i, slot, t). tk_no t) (pending (run_pool r)))
      + mset (map tk_no (settled (run_actions r))) = mset [0..<run_calls r]"
proof -
  have "map tk_no (tasks p) = map tk_no (waiting p) @ map (\<lambda>(i, slot, t). tk_no t) (pending p)" for p
    by (simp add: tasks_def split_beta)
  with reachable_tasks [OF assms] show ?thesis by simp
qed

theorem pool_calls_settled_once_witness:
  "mset (map tk_no (waiting (run_pool two_calls))) + mset (map (\<lambda>(i, slot, t). tk_no t) (pending (run_pool two_calls)))
     = {#0, 1#}"
  using pool_calls_settled_once [OF two_calls_reachable] by (simp add: two_calls_eval)

text \<open>A key rotation reaches every worker: from the moment the pool adopted a keyring, whatever happens, the last keys each
  live worker was started with or sent are those of the keyring installed last, as long as none was installed whose keys
  could not be imported.\<close>

theorem pool_workers_current:
  assumes "list_all (\<lambda>ev. \<forall>keys. ev \<noteq> KeysInstalled keys) evs"
    and "r' = fold (run_step config) (KeysChanged keys # evs) r" and "slot \<in> set (slots (run_pool r'))"
  shows "held_keys slot (run_actions r') None = Some (material (run_pool r'))"
proof -
  have "\<forall>slot \<in> set (slots (run_pool (run_step config (KeysChanged keys) r))).
      held_keys slot (run_actions (run_step config (KeysChanged keys) r)) None = Some (material (run_pool (run_step config (KeysChanged keys) r)))"
    using handle_adopts [of config "run_calls r" keys "run_pool r" "run_actions r"] by (simp add: run_step_def split_beta)
  from run_keys [OF assms(1) this] assms(2,3) show ?thesis by simp
qed

text \<open>C33. The pool refines signing on the main thread: whatever workers start, fail, are replaced or are sent new keys in
  the meantime and in whatever order replies arrive, a call answered with a signature is answered with what signing
  inline would have returned for its epoch and its blank, with the suite of the worker it was handed to and the keys
  that worker had been given last when it was handed over.\<close>

theorem pool_signs_as_inline:
  assumes "th_reachable rt L config sels y" and "Resolve t x \<in> set (run_actions (th_run y))"
  shows "\<exists>before slot i after keys imported. run_actions (th_run y) = before @ PostSign slot i t # after
    \<and> held_keys slot before None = Some keys \<and> import_keys rt L keys = Inr imported
    \<and> signInline rt L (Some (sels slot)) imported (tk_epoch t) (tk_blank t) = Inr x"
proof -
  have "(t, x) \<in> resolves (run_actions (th_run y))" using assms(2) by (simp add: resolves_def)
  moreover have "\<forall>(t, x) \<in> resolves (run_actions (th_run y)). signed_inline rt L sels (run_actions (th_run y)) t x"
    using th_reachable_inv [OF assms(1)] unfolding th_inv_def by blast
  ultimately show ?thesis unfolding signed_inline_def by blast
qed

text \<open>One call on one worker of a library whose signature is the blank.\<close>

definition echo_rsa :: "unit blindrsa" where
  "echo_rsa = \<lparr>importPrivateKey = (\<lambda>_. Inr ()), blindSign = (\<lambda>_ _ m. Inr m)\<rparr>"

definition slow_workers :: "nat \<Rightarrow> suite_selection" where
  "slow_workers = (\<lambda>_. \<lparr>sel_suite = SlowSuite, fastPath = False, sel_reason = []\<rparr>)"

definition echo_keys :: "key_material list" where
  "echo_keys = [\<lparr>km_epoch = ''7'', km_privateKeyPem = derToPkcs8Pem ''key''\<rparr>]"

definition echo_task :: task where
  "echo_task = \<lparr>tk_no = 0, tk_epoch = ''7'', tk_blank = bytesToBase64 ''abc''\<rparr>"

lemma echo_imported: "import_keys strict_runtime echo_rsa echo_keys = Inr [''7'' \<mapsto> Inr ()]"
  by (simp add: import_keys_def importPrivateKeyPem_def echo_keys_def pkcs8_roundtrip) (simp add: echo_rsa_def)

lemma echo_sign: "worker_sign strict_runtime echo_rsa (slow_workers 0) [''7'' \<mapsto> Inr ()] 0 ''7'' (bytesToBase64 ''abc'')
    = Signed 0 (bytesToBase64 ''abc'')"
  by (simp add: worker_sign_def echo_rsa_def)

lemma echo_run:
  obtains y where "th_reachable strict_runtime echo_rsa pool_config slow_workers y"
    and "run_actions (th_run y) = [Spawned 0 echo_keys, PostSign 0 0 echo_task, Resolve echo_task (bytesToBase64 ''abc'')]"
proof -
  let ?boot = "\<lparr>th_run = \<lparr>run_pool = initial_pool echo_keys, run_calls = 0, run_actions = []\<rparr>, th_workers = Map.empty, th_replies = []\<rparr> :: unit threads"
  let ?call = "th_event strict_runtime echo_rsa pool_config (SignCall ''7'' (bytesToBase64 ''abc'')) ?boot"
  have boot: "th_reachable strict_runtime echo_rsa pool_config slow_workers ?boot" by (rule th_reachable.boot [OF echo_imported])
  have call: "th_reachable strict_runtime echo_rsa pool_config slow_workers ?call"
    by (rule th_reachable.step [OF boot th_step.event]) simp_all
  have pool: "run_pool (th_run ?call) = \<lparr>slots = [0], idle = [], waiting = [], pending = [(0, 0, echo_task)], retired = [], nextId = 1,
      nextSlot = 1, started = True, shuttingDown = False, material = echo_keys\<rparr>"
    and acts: "run_actions (th_run ?call) = [Spawned 0 echo_keys, PostSign 0 0 echo_task]"
    and replies: "th_replies ?call = []"
    and worker: "th_workers ?call 0 = Some \<lparr>wk_keys = [''7'' \<mapsto> Inr ()],
      wk_inbox = [Sign 0 ''7'' (bytesToBase64 ''abc'')]\<rparr>"
    by (simp_all add: th_event_def run_step_def handle_def pool_sign_def ensureStarted_def spawnAll.simps spawn_def release_def acquire_def
        dispatch_def initial_pool_def Let_def post_message_def worker_start_def echo_imported echo_task_def)
  let ?done = "?call\<lparr>th_workers := (th_workers ?call)(0 \<mapsto> \<lparr>wk_keys = [''7'' \<mapsto> Inr ()], wk_inbox = []\<rparr>),
    th_replies := th_replies ?call @ [Signed 0 (bytesToBase64 ''abc'')]\<rparr>"
  have handled: "worker_handle strict_runtime echo_rsa (slow_workers 0) (Sign 0 ''7'' (bytesToBase64 ''abc''))
      (\<lparr>wk_keys = [''7'' \<mapsto> Inr ()], wk_inbox = [Sign 0 ''7'' (bytesToBase64 ''abc'')]\<rparr>\<lparr>wk_inbox := []\<rparr>) =
    Some (\<lparr>wk_keys = [''7'' \<mapsto> Inr ()], wk_inbox = []\<rparr>, [Signed 0 (bytesToBase64 ''abc'')])"
    by (simp add: echo_sign)
  have finished: "th_reachable strict_runtime echo_rsa pool_config slow_workers ?done"
    by (rule th_reachable.step [OF call th_step.work [where sels = slow_workers, OF worker _ handled]]) simp
  have "th_replies ?done = [] @ Signed 0 (bytesToBase64 ''abc'') # []" by (simp add: replies)
  note last = th_reachable.step [OF finished th_step.reply [OF this]]
  show ?thesis
    by (rule that [OF last])
      (simp add: th_event_def [of _ _ _ "Message _"] run_actions_step pool acts handle_def settle_def answer_def Let_def release_def)
qed

theorem pool_signs_as_inline_witness:
  "signInline strict_runtime echo_rsa (Some (slow_workers 0)) [''7'' \<mapsto> Inr ()] ''7'' (bytesToBase64 ''abc'')
     = Inr (bytesToBase64 ''abc'')"
proof -
  obtain y where y: "th_reachable strict_runtime echo_rsa pool_config slow_workers y"
    "run_actions (th_run y) = [Spawned 0 echo_keys, PostSign 0 0 echo_task, Resolve echo_task (bytesToBase64 ''abc'')]"
    by (rule echo_run)
  from pool_signs_as_inline [OF y(1), of echo_task "bytesToBase64 ''abc''"] obtain before slot i after keys imported where
    split: "[Spawned 0 echo_keys, PostSign 0 0 echo_task, Resolve echo_task (bytesToBase64 ''abc'')] = before @ PostSign slot i echo_task # after"
    and held: "held_keys slot before None = Some keys"
    and imported: "import_keys strict_runtime echo_rsa keys = Inr imported"
    and inline: "signInline strict_runtime echo_rsa (Some (slow_workers slot)) imported (tk_epoch echo_task)
      (tk_blank echo_task) = Inr (bytesToBase64 ''abc'')"
    unfolding y(2) by auto
  from split held have "slot = 0" "keys = echo_keys" by (auto simp: Cons_eq_append_conv)
  with inline imported show ?thesis by (simp add: echo_task_def echo_imported)
qed

text \<open>C37. Draining terminates whatever the order: from a started pool with workers, let any timer that is pending fire, then
  any timer pending after that, and so on; after as many firings as there were outstanding calls none is left, although
  every firing starts a worker and hands it the next waiting call.\<close>

theorem pool_drain_terminates:
  assumes "pool_reachable config r" and "started (run_pool r)" and "\<not> shuttingDown (run_pool r)" and "0 < signingWorkers config"
    and "\<forall>n. let p = run_pool (fold (run_step config) (map (\<lambda>k. TimerFires (ids k)) [0..<n]) r)
       in pending p \<noteq> [] \<longrightarrow> ids n \<in> fst ` set (pending p)"
  shows "let p = run_pool (fold (run_step config) (map (\<lambda>k. TimerFires (ids k))
      [0..<length (waiting (run_pool r)) + length (pending (run_pool r))]) r)
    in waiting p = [] \<and> pending p = []"
proof -
  let ?p = "\<lambda>n. run_pool (fold (run_step config) (map (\<lambda>k. TimerFires (ids k)) [0..<n]) r)"
  let ?ms = "signingTimeoutMs config"
  have step: "?p (Suc n) = fst (timeout ?ms (ids n) (?p n))" for n by (simp add: run_step_timer)
  have keeps: "pool_inv (signingWorkers config) (?p n) \<and> started (?p n) \<and> \<not> shuttingDown (?p n)" for n
  proof (induction n)
    case 0
    then show ?case using reachable_inv [OF assms(1)] assms(2,3) by simp
  next
    case (Suc n)
    then show ?case unfolding step by (simp add: timeout_inv timeout_frame)
  qed
  have fewer: "length (tasks (?p n)) \<le> length (tasks (run_pool r)) - n" for n
  proof (induction n)
    case (Suc n)
    have inv: "pool_inv (signingWorkers config) (?p n)" using keeps by blast
    have sum: "length (tasks (?p (Suc n))) + length (settled (snd (timeout ?ms (ids n) (?p n)))) = length (tasks (?p n))"
      unfolding step using arg_cong [OF timeout_tasks [OF inv, of ?ms "ids n"], of size] by simp
    show ?case
    proof (cases "pending (?p n)")
      case Nil
      then have "tasks (?p n) = []" using keeps [of n] assms(4) pending_empty [OF inv] by blast
      with sum show ?thesis by simp
    next
      case (Cons q qs)
      then have "pending (?p n) \<noteq> []" by simp
      then have "ids n \<in> fst ` set (pending (?p n))" using assms(5) [unfolded Let_def] by blast
      then obtain slot t where "map_of (pending (?p n)) (ids n) = Some (slot, t)"
        by (metis map_of_eq_None_iff not_None_eq prod.exhaust)
      from timeout_settles [OF this, of ?ms] have "0 < length (settled (snd (timeout ?ms (ids n) (?p n))))"
        by (auto simp: length_greater_0_conv)
      with sum Suc show ?thesis by linarith
    qed
  qed simp
  have "length (tasks (run_pool r)) = length (waiting (run_pool r)) + length (pending (run_pool r))" by (simp add: tasks_def)
  with fewer [of "length (tasks (run_pool r))"] have "tasks (?p (length (waiting (run_pool r)) + length (pending (run_pool r)))) = []"
    by (metis diff_self_eq_0 le_zero_eq length_0_conv)
  then show ?thesis by (simp add: tasks_def Let_def)
qed

theorem pool_drain_terminates_witness:
  "waiting (run_pool (fold (run_step pool_config) [TimerFires 0, TimerFires 1] two_calls)) = []
   \<and> pending (run_pool (fold (run_step pool_config) [TimerFires 0, TimerFires 1] two_calls)) = []"
proof -
  let ?p = "\<lambda>n. run_pool (fold (run_step pool_config) (map (\<lambda>k. TimerFires k) [0..<n]) two_calls)"
  have two: "pending (run_pool (fold (run_step pool_config) [TimerFires 0, TimerFires 1] two_calls)) = []"
    "map fst (pending (run_pool (fold (run_step pool_config) [TimerFires 0] two_calls))) = [1]"
    by code_simp+
  have later: "pending (?p (n + 2)) = []" for n
  proof (induction n)
    case 0
    then show ?case using two by (simp add: numeral_2_eq_2)
  next
    case (Suc n)
    then show ?case by (simp add: run_step_timer timeout_def)
  qed
  have "\<forall>n. let p = ?p n in pending p \<noteq> [] \<longrightarrow> n \<in> fst ` set (pending p)"
  proof
    fix n :: nat
    have "n = 0 \<or> n = 1 \<or> n = (n - 2) + 2" by arith
    then consider "n = 0" | "n = 1" | m where "n = m + 2" by blast
    then show "let p = ?p n in pending p \<noteq> [] \<longrightarrow> n \<in> fst ` set (pending p)"
    proof cases
      case 2
      have "1 \<in> set (map fst (pending (run_pool (fold (run_step pool_config) [TimerFires 0] two_calls))))" unfolding two by simp
      with 2 show ?thesis by simp
    qed (use later in \<open>simp_all add: two_calls_eval Let_def\<close>)
  qed
  from pool_drain_terminates [OF two_calls_reachable, of "\<lambda>k. k", OF _ _ _ this] show ?thesis
    by (simp add: two_calls_eval Let_def numeral_2_eq_2)
qed

text \<open>C38. A shutdown strands the calls that wait for a worker: once the pool is shutting down, worker exits, errors,
  timers and key changes leave every waiting call waiting, because a lost worker is no longer replaced and nothing
  rejects them.\<close>

theorem pool_shutdown_strands:
  assumes "shuttingDown (run_pool r)"
    and "list_all (\<lambda>ev. case ev of SignCall _ _ \<Rightarrow> False | Message _ \<Rightarrow> False | _ \<Rightarrow> True) evs"
  shows "waiting (run_pool (fold (run_step config) evs r)) = waiting (run_pool r)"
  using assms
proof (induction evs arbitrary: r)
  case (Cons ev evs)
  have "waiting (run_pool (run_step config ev r)) = waiting (run_pool r)" "shuttingDown (run_pool (run_step config ev r))"
    using shutdown_step [OF Cons.prems(1), of ev config "run_calls r"] Cons.prems(2) by (simp_all add: run_step_pool)
  with Cons.IH [of "run_step config ev r"] Cons.prems(2) show ?case by simp
qed simp

theorem pool_shutdown_strands_witness:
  "map tk_no (waiting (run_pool (fold (run_step pool_config) [WorkerGone 0 ''exited with code 1'']
     (run_step pool_config ShutDown two_calls)))) = [1]"
  using pool_shutdown_strands [of "run_step pool_config ShutDown two_calls" "[WorkerGone 0 ''exited with code 1'']" pool_config]
  by (simp add: run_step_def handle_def shutdown_def two_calls_eval)

subsection \<open>A reload the signer cannot follow\<close>







end
