(* ===== verification/System.thy ===== *)
theory System
  imports Claims Entitlements "HOL-Library.Multiset"
begin

text \<open>
  The running issuer: many requests in flight over one database and one Redis. A request does its reads (admission
  or schedule, rate limit, validation, signing) and later runs its transaction; between the two anything may happen:
  other transactions, registrations, refused claims, parts of reconciliation cycles, time.

  A step is one such piece of work, taken from the operations of the components: \<open>admit\<close> and
  \<open>issue_prepare\<close> start a purchase, \<open>schedule\<close> and \<open>issue_prepare\<close> a pickup, \<open>issue_commit\<close> ends either. PostgreSQL
  serialises the transactions on the rows they write, so a transaction is one step. A reconciliation cycle runs outside
  any transaction: its two queries and every alarm it inserts are steps of their own, and any number of cycles may be
  under way. The database clock, which \<open>now()\<close> reads, never goes back.

  \<open>sys_sold\<close> is a history variable: no step reads it. It records the claims whose purchases wrote the ledger, so that the
  rows of the two rails, which look alike, can be told apart in statements.
\<close>

text \<open>What a request in flight was authorised by.\<close>

datatype ticket = PaidTicket payment_claim | DripTicket drip_schedule

fun ticket_grant :: "millis \<Rightarrow> ticket \<Rightarrow> grant" where
  "ticket_grant now (PaidTicket claim) = paid_grant claim"
| "ticket_grant now (DripTicket sch) = drip_grant now sch"

record flight =
  fl_ticket :: ticket
  fl_key :: "string option"
  fl_request :: bundle_request
  fl_response :: bundle_response

text \<open>A reconciliation cycle between two of its statements: the ledger it read, or the alarms it has yet to insert.\<close>

datatype cycle = LedgerRead "string \<rightharpoonup> int" | Raising "(epoch_reconciliation \<times> alarm_kind) list"

record 's system =
  sys_store :: 's
  sys_db :: db
  sys_clock :: millis
  sys_flights :: "flight list"
  sys_cycles :: "cycle list"
  sys_sold :: "payment_claim list"  \<comment> \<open>history\<close>

definition sold_by :: "ticket \<Rightarrow> db \<Rightarrow> db \<Rightarrow> payment_claim list" where
  "sold_by t d d' =
     (case t of
        PaidTicket claim \<Rightarrow> if length (issuance_record d) < length (issuance_record d') then [claim] else []
      | DripTicket _ \<Rightarrow> [])"

inductive sys_step ::
  "issuer_config \<Rightarrow> ('sk, 'pk) claim_env \<Rightarrow> 's system \<Rightarrow> 's system \<Rightarrow> bool"
  for config and cenv
where
  refuse_claim:
    "rq_config (env :: 's request_env) = config \<Longrightarrow>
     admit (rq_rt env) config (cenv\<lparr>ce_stored := stored\<rparr>) (sys_clock y) header (sys_db y) = (Inl e, d') \<Longrightarrow>
     sys_step config cenv y (y\<lparr>sys_db := d'\<rparr>)"
| start_purchase:
    "rq_config (env :: 's request_env) = config \<Longrightarrow>
     admit (rq_rt env) config (cenv\<lparr>ce_stored := stored\<rparr>) (sys_clock y) header (sys_db y) = (Inr claim, d') \<Longrightarrow>
     issue_prepare env (paid_grant claim) body (sys_store y) = (Inr (request, response), s') \<Longrightarrow>
     sys_step config cenv y (y\<lparr>sys_db := d', sys_store := s', sys_flights := sys_flights y @
       [\<lparr>fl_ticket = PaidTicket claim, fl_key = key, fl_request = request, fl_response = response\<rparr>]\<rparr>)"
| start_pickup:
    "rq_config (env :: 's request_env) = config \<Longrightarrow>
     schedule (sys_clock y) entitlementId (sys_db y) = Inr sch \<Longrightarrow>
     sch_due sch \<or> (\<exists>k. key = Some k \<and> isReplay (sch_id sch) k (sys_db y)) \<Longrightarrow>
     issue_prepare env (drip_grant (sys_clock y) sch) body (sys_store y) = (Inr (request, response), s') \<Longrightarrow>
     sys_step config cenv y (y\<lparr>sys_store := s', sys_flights := sys_flights y @
       [\<lparr>fl_ticket = DripTicket sch, fl_key = key, fl_request = request, fl_response = response\<rparr>]\<rparr>)"
| refuse_request:
    "issue_prepare (env :: 's request_env) g body (sys_store y) = (Inl e, s') \<Longrightarrow> sys_step config cenv y (y\<lparr>sys_store := s'\<rparr>)"
| commit:
    "rq_config (env :: 's request_env) = config \<Longrightarrow> rq_dbNow env = sys_clock y \<Longrightarrow> sys_flights y = before @ f # after \<Longrightarrow>
     issue_commit env (ticket_grant (sys_clock y) (fl_ticket f)) (fl_key f) (fl_request f) (fl_response f) (sys_db y) = (r, d') \<Longrightarrow>
     sys_step config cenv y (y\<lparr>sys_db := d', sys_flights := before @ after,
       sys_sold := sys_sold y @ sold_by (fl_ticket f) (sys_db y) d'\<rparr>)"
| abandon:
    "sys_flights y = before @ f # after \<Longrightarrow> sys_step config cenv y (y\<lparr>sys_flights := before @ after\<rparr>)"
| enrol:
    "rq_config (env :: 's request_env) = config \<Longrightarrow> rq_queryNow env = sys_clock y \<Longrightarrow> register env body (sys_db y) = (r, d') \<Longrightarrow>
     sys_step config cenv y (y\<lparr>sys_db := d'\<rparr>)"
| cycle_ledger: "sys_step config cenv y (y\<lparr>sys_cycles := sys_cycles y @ [LedgerRead (ledgerBundlesByEpoch (sys_db y))]\<rparr>)"
| cycle_counters:
    "sys_cycles y = before @ LedgerRead ledger # after \<Longrightarrow>
     sys_step config cenv y (y\<lparr>sys_cycles := before @ Raising (due_alarms ledger (sys_db y)) # after\<rparr>)"
| cycle_raise:
    "sys_cycles y = before @ Raising ((r, kind) # due) # after \<Longrightarrow>
     sys_step config cenv y (y\<lparr>sys_cycles := before @ Raising due # after, sys_db := raise_kind (sys_clock y) r kind (sys_db y)\<rparr>)"
| cycle_ends: "sys_cycles y = before @ c # after \<Longrightarrow> sys_step config cenv y (y\<lparr>sys_cycles := before @ after\<rparr>)"
| tick: "sys_clock y \<le> t \<Longrightarrow> sys_step config cenv y (y\<lparr>sys_clock := t\<rparr>)"

inductive sys_reachable :: "issuer_config \<Rightarrow> ('sk, 'pk) claim_env \<Rightarrow> 's system \<Rightarrow> bool" for config and cenv where
  boot: "sys_reachable config cenv \<lparr>sys_store = s, sys_db = empty_db, sys_clock = t, sys_flights = [], sys_cycles = [], sys_sold = []\<rparr>"
| step: "sys_reachable config cenv y \<Longrightarrow> sys_step config cenv y y' \<Longrightarrow> sys_reachable config cenv y'"


subsection \<open>The invariant\<close>

text \<open>
  The schedule of a drip in flight still names the interval of its row: rows are only ever added, and a drip
  does not change them.
\<close>

definition intervals :: "db \<Rightarrow> (string \<times> int) list" where
  "intervals d = map (\<lambda>r. (en_entitlementId r, en_dripIntervalSeconds r)) (entitlement d)"

definition flight_ok :: "issuer_config \<Rightarrow> db \<Rightarrow> flight \<Rightarrow> bool" where
  "flight_ok config d f \<longleftrightarrow>
     length (blind_signatures (fl_response f)) = bundleSize config
     \<and> (case fl_ticket f of
          PaidTicket _ \<Rightarrow> True
        | DripTicket sch \<Rightarrow> (uuid_value (sch_id sch), sch_intervalSeconds sch) \<in> set (intervals d))"

text \<open>No drip was taken before it was due: the next one is at most one interval after the clock.\<close>

definition row_timely :: "millis \<Rightarrow> entitlement_row \<Rightarrow> bool" where
  "row_timely now r \<longleftrightarrow>
     en_createdAt r \<le> now
     \<and> en_nextDripAt r \<le> now + (if en_dripsIssued r = 0 then 0 else en_dripIntervalSeconds r * 1000)"

text \<open>
  The bundles in the ledger under an entitlement are its drips, but for those that purchases sold under a reference
  that spells its id.
\<close>

definition named_by :: "string \<Rightarrow> string list \<Rightarrow> int" where
  "named_by i references = int (length (filter (\<lambda>reference. uuid_value reference = i) references))"

definition drips_of :: "string \<Rightarrow> db \<Rightarrow> int" where
  "drips_of i d = (case lookup_by en_entitlementId i (entitlement d) of None \<Rightarrow> 0 | Some r \<Rightarrow> en_dripsIssued r)"

definition rails_ok :: "payment_claim list \<Rightarrow> db \<Rightarrow> bool" where
  "rails_ok sold d \<longleftrightarrow>
     (\<forall>i. named_by i (map ir_paymentRef (issuance_record d)) = named_by i (map payment_ref sold) + drips_of i d)"

text \<open>An alarm that was raised on balanced books: a ledger read too early.\<close>

definition stale_alarm :: "db \<Rightarrow> alarm_row \<Rightarrow> bool" where
  "stale_alarm d a \<longleftrightarrow>
     al_kind a = ledger_mismatch \<and> al_expected a < al_actual a \<and> al_actual a \<le> ledger_bundles (al_epoch a) d
     \<and> al_delta a = al_actual a - al_expected a"

fun cycle_ok :: "db \<Rightarrow> cycle \<Rightarrow> bool" where
  "cycle_ok d (LedgerRead ledger) \<longleftrightarrow> (\<forall>e. (case ledger e of None \<Rightarrow> 0 | Some n \<Rightarrow> n) \<le> ledger_bundles e d)"
| "cycle_ok d (Raising due) \<longleftrightarrow> (\<forall>(r, kind) \<in> set due. stale_alarm d (alarm_of 0 r kind))"

context issuance_grant
begin

text \<open>The table-level effect of a transaction, whatever its outcome.\<close>

lemma commit_effect:
  assumes "issue_commit env g key request response d = (r, d')"
  obtains (kept) "d' = d"
    | (wrote) d4 where "entitlement d4 = entitlement d" "reconciliation_alarm d4 = reconciliation_alarm d"
      "case gr_consume g of None \<Rightarrow> d' = d4 | Some consume \<Rightarrow> consume d4 = Inr d'"
      "distinct (map idempotency_key (idempotency_record d)) \<longrightarrow> distinct (map idempotency_key (idempotency_record d'))"
      "image_mset id_paymentRef (mset (idempotency_record d'))
         \<subseteq># add_mset (gr_reference g) (image_mset id_paymentRef (mset (idempotency_record d)))"
      "issuance_record d' = issuance_record d @
         [\<lparr>ir_paymentRef = gr_reference g, ir_epoch = req_epoch request, ir_bundleCount = 1, ir_timestamp = rq_dbNow env\<rparr>]"
proof (cases r)
  case (Inl e)
  with assms issue_commit_Inl that(1) show ?thesis by blast
next
  case (Inr resp)
  from assms [unfolded Inr] show ?thesis
  proof (cases rule: issue_commit_Inr)
    case (issued idem)
    obtain d4 where d4: "entitlement d4 = entitlement d" "reconciliation_alarm d4 = reconciliation_alarm d"
      "case gr_consume g of None \<Rightarrow> d' = d4 | Some consume \<Rightarrow> consume d4 = Inr d'"
      using issued(2) by (rule record_body_consumes)
    have keys: "map idempotency_key (idempotency_record d') = map idempotency_key (idempotency_record d)
        @ (case idem of None \<Rightarrow> [] | Some (k, fp) \<Rightarrow> [(gr_reference g, k)])"
      by (rule record_body_Inr(2) [OF issued(2)])
    have refs: "image_mset id_paymentRef (mset xs) = mset (map fst (map idempotency_key xs))" for xs
      by (simp add: idempotency_key_def comp_def)
    have "image_mset id_paymentRef (mset (idempotency_record d'))
        \<subseteq># add_mset (gr_reference g) (image_mset id_paymentRef (mset (idempotency_record d)))"
      unfolding refs keys by (auto split: option.split)
    moreover have "(gr_reference g, k) \<notin> set (map idempotency_key (idempotency_record d))" if "idem = Some (k, fp)" for k fp
      using record_body_unique [of "rq_dbNow env" "rq_config env" request response idem d] issued(2) that by auto
    then have "distinct (map idempotency_key (idempotency_record d)) \<longrightarrow> distinct (map idempotency_key (idempotency_record d'))"
      unfolding keys by (auto split: option.split)
    ultimately show ?thesis
      using that(2) [OF d4] record_body_Inr(1) [OF issued(2)] by simp
  qed (use that in blast)
qed

end

lemma interval_of_row:
  assumes "entitlements_keyed d" and "row \<in> set (entitlement d)" and "(en_entitlementId row, i) \<in> set (intervals d)"
  shows "en_dripIntervalSeconds row = i"
proof -
  from assms(3) obtain r where r: "r \<in> set (entitlement d)" "en_entitlementId r = en_entitlementId row" "en_dripIntervalSeconds r = i"
    by (auto simp: intervals_def)
  then have "r = row" using assms(1,2) by (auto simp: entitlements_keyed_def distinct_map inj_on_def)
  with r show ?thesis by simp
qed

definition rows_ok :: "millis \<Rightarrow> db \<Rightarrow> bool" where
  "rows_ok now d \<longleftrightarrow> entitlements_ok d \<and> (\<forall>r \<in> set (entitlement d). row_timely now r)"

lemma rows_ok_cong: "entitlement d = entitlement d' \<Longrightarrow> rows_ok now d = rows_ok now d'"
  by (simp add: rows_ok_def cong: entitlements_ok_cong)

lemma advance_rows:
  assumes "advance now i interval d = Inr d'" and "rows_ok now d" and "(uuid_value i, interval) \<in> set (intervals d)"
  shows "rows_ok now d'" and "intervals d' = intervals d"
proof -
  have keyed: "entitlements_keyed d" "entitlements_ok d" using assms(2) by (simp_all add: rows_ok_def entitlements_ok_def)
  obtain row where row: "find_entitlement i d = Some row" "en_nextDripAt row \<le> now"
    "entitlement d' = map (\<lambda>r. if r = row then drip_row now interval r else r) (entitlement d)"
    using assms(1) keyed(1) by (rule advance_Inr)
  have mem: "row \<in> set (entitlement d)" "en_entitlementId row = uuid_value i"
    using row(1) by (simp_all add: find_entitlement_iff [OF keyed(1)])
  with interval_of_row [OF keyed(1) mem(1)] assms(3) have same: "interval = en_dripIntervalSeconds row" by simp
  have "row_timely now (drip_row now interval row)"
    using assms(2) mem keyed(2) by (auto simp: rows_ok_def row_timely_def drip_row_def same entitlements_ok_def row_paced_def)
  then show "rows_ok now d'"
    using drip_ok [OF keyed(2) row(2), of d'] row(3) assms(2) by (auto simp: rows_ok_def same)
  show "intervals d' = intervals d"
    by (simp add: intervals_def row(3) drip_row_def)
qed

lemma commit_rows:
  assumes "issue_commit env (ticket_grant now t) key request response d = (r, d')" and "rows_ok now d"
    and "case t of PaidTicket _ \<Rightarrow> True | DripTicket sch \<Rightarrow> (uuid_value (sch_id sch), sch_intervalSeconds sch) \<in> set (intervals d)"
  shows "rows_ok now d' \<and> intervals d' = intervals d"
proof (cases t)
  case (PaidTicket claim)
  from assms(1) [unfolded PaidTicket ticket_grant.simps] show ?thesis
  proof (cases rule: paid.commit_effect)
    case (wrote d4)
    then have "entitlement d' = entitlement d" by (simp add: paid_grant_def)
    with assms(2) rows_ok_cong [of d' d] show ?thesis by (simp add: intervals_def)
  qed (use assms(2) in simp)
next
  case (DripTicket sch)
  from assms(1) [unfolded DripTicket ticket_grant.simps] show ?thesis
  proof (cases rule: drip.commit_effect)
    case (wrote d4)
    then have "advance now (sch_id sch) (sch_intervalSeconds sch) d4 = Inr d'" by (simp add: drip_grant_def)
    moreover have "rows_ok now d4" "intervals d4 = intervals d"
      using assms(2) rows_ok_cong [OF wrote(1)] wrote(1) by (simp_all add: intervals_def)
    ultimately show ?thesis using advance_rows [of now "sch_id sch" "sch_intervalSeconds sch" d4 d'] assms(3) DripTicket by simp
  qed (use assms(2) in simp)
qed

text \<open>What the drips of an entitlement come to after one more.\<close>

lemma lookup_by_map: "(\<And>r. key (f r) = key r) \<Longrightarrow> lookup_by key k (map f rows) = map_option f (lookup_by key k rows)"
  by (induction rows) (simp_all add: lookup_by_def)

lemma drips_of_drip:
  assumes "find_entitlement s d = Some row"
    and "entitlement d' = map (\<lambda>r. if r = row then drip_row now interval r else r) (entitlement d)"
  shows "drips_of i d' = drips_of i d + (if i = uuid_value s then 1 else 0)"
proof -
  have "lookup_by en_entitlementId i (entitlement d') =
      map_option (\<lambda>r. if r = row then drip_row now interval r else r) (lookup_by en_entitlementId i (entitlement d))"
    unfolding assms(2) by (rule lookup_by_map) (simp add: drip_row_def)
  moreover have key: "lookup_by en_entitlementId j (entitlement d) = Some r \<Longrightarrow> en_entitlementId r = j" for j r
    unfolding lookup_by_def by (auto dest: find_SomeD)
  moreover have row: "lookup_by en_entitlementId (uuid_value s) (entitlement d) = Some row"
    using assms(1) by (simp add: find_entitlement_def)
  ultimately show ?thesis
    using key [OF row] by (auto simp: drips_of_def drip_row_def split: option.split)
qed

lemma drips_of_cong: "entitlement d = entitlement d' \<Longrightarrow> drips_of i d = drips_of i d'"
  by (simp add: drips_of_def)

lemma named_by_simps [simp]:
  "named_by i [] = 0" "named_by i (xs @ ys) = named_by i xs + named_by i ys"
  "named_by i (x # xs) = (if uuid_value x = i then 1 else 0) + named_by i xs"
  by (simp_all add: named_by_def)

lemma commit_rails:
  assumes "issue_commit env (ticket_grant now t) key request response d = (r, d')" and "rows_ok now d" and "rails_ok sold d"
  shows "rails_ok (sold @ sold_by t d d') d'"
proof (cases t)
  case (PaidTicket claim)
  from assms(1) [unfolded PaidTicket ticket_grant.simps] show ?thesis
  proof (cases rule: paid.commit_effect)
    case (wrote d4)
    have "d' = d4" using wrote(3) by (simp add: paid_grant_def)
    then have "drips_of i d' = drips_of i d" for i using drips_of_cong [OF wrote(1)] by simp
    with assms(3) show ?thesis
      by (simp add: rails_ok_def sold_by_def PaidTicket wrote(6)) (simp add: paid_grant_def)
  qed (use assms(3) PaidTicket in \<open>simp add: sold_by_def\<close>)
next
  case (DripTicket sch)
  from assms(1) [unfolded DripTicket ticket_grant.simps] show ?thesis
  proof (cases rule: drip.commit_effect)
    case (wrote d4)
    have consumed: "advance now (sch_id sch) (sch_intervalSeconds sch) d4 = Inr d'" using wrote(3) by (simp add: drip_grant_def)
    have "entitlements_keyed d4"
      using assms(2) rows_ok_cong [OF wrote(1), of now] by (simp add: rows_ok_def entitlements_ok_def)
    with consumed obtain row where "find_entitlement (sch_id sch) d4 = Some row"
      "entitlement d' = map (\<lambda>r. if r = row then drip_row now (sch_intervalSeconds sch) r else r) (entitlement d4)"
      by (rule advance_Inr)
    then have "drips_of i d' = drips_of i d + (if i = uuid_value (sch_id sch) then 1 else 0)" for i
      using drips_of_drip [of "sch_id sch" d4 row d' now "sch_intervalSeconds sch" i] drips_of_cong [OF wrote(1), of i] by simp
    with assms(3) show ?thesis
      by (simp add: rails_ok_def sold_by_def DripTicket wrote(6)) (auto simp: drip_grant_def)
  qed (use assms(3) DripTicket in \<open>simp add: sold_by_def\<close>)
qed

text \<open>The part of the invariant that does not mention the entitlement table or the flights.\<close>

definition books_ok :: "issuer_config \<Rightarrow> db \<Rightarrow> bool" where
  "books_ok config d \<longleftrightarrow>
     issuer_books (int (bundleSize config)) d \<and> distinct (map idempotency_key (idempotency_record d))
     \<and> image_mset id_paymentRef (mset (idempotency_record d)) \<subseteq># image_mset ir_paymentRef (mset (issuance_record d))"

definition ledger_ok :: "issuer_config \<Rightarrow> db \<Rightarrow> bool" where
  "ledger_ok config d \<longleftrightarrow> books_ok config d \<and> (\<forall>a \<in> set (reconciliation_alarm d). stale_alarm d a)"

definition sys_inv :: "issuer_config \<Rightarrow> 's system \<Rightarrow> bool" where
  "sys_inv config y \<longleftrightarrow>
     ledger_ok config (sys_db y) \<and> rows_ok (sys_clock y) (sys_db y) \<and> rails_ok (sys_sold y) (sys_db y)
     \<and> (\<forall>f \<in> set (sys_flights y). flight_ok config (sys_db y) f)
     \<and> (\<forall>c \<in> set (sys_cycles y). cycle_ok (sys_db y) c)"

text \<open>Both rails, as one fact about the transaction: it keeps the books and only ever adds to the ledger.\<close>

definition ledger_grows :: "db \<Rightarrow> db \<Rightarrow> bool" where
  "ledger_grows d d' \<longleftrightarrow> (\<forall>e. ledger_bundles e d \<le> ledger_bundles e d')"

lemma ledger_grows_cong: "issuance_record d' = issuance_record d \<Longrightarrow> ledger_grows d d'"
  by (simp add: ledger_grows_def ledger_bundles_def)

lemma stale_alarm_mono: "ledger_grows d d' \<Longrightarrow> stale_alarm d a \<Longrightarrow> stale_alarm d' a"
  by (force simp: stale_alarm_def ledger_grows_def intro: order_trans)

lemma cycle_ok_mono:
  assumes "ledger_grows d d'" and "cycle_ok d c"
  shows "cycle_ok d' c"
proof (cases c)
  case (LedgerRead ledger)
  with assms show ?thesis unfolding ledger_grows_def by simp (meson order_trans)
next
  case (Raising due)
  with assms stale_alarm_mono [OF assms(1)] show ?thesis by auto
qed

context issuance_grant
begin

lemma commit_books:
  assumes "issue_commit env g key request response d = (r, d')" and "rq_config env = config"
    and "length (blind_signatures response) = bundleSize config" and "ledger_ok config d"
    and "\<And>consume d1 d2. gr_consume g = Some consume \<Longrightarrow> consume d1 = Inr d2 \<Longrightarrow> reconciliation_alarm d2 = reconciliation_alarm d1"
  shows "ledger_ok config d' \<and> ledger_grows d d' \<and> reconciliation_alarm d' = reconciliation_alarm d"
proof -
  have books: "issuer_books (int (bundleSize config)) d'"
    using issue_commit_books [OF assms(1)] assms(2-4) by (simp add: ledger_ok_def books_ok_def)
  from assms(1) show ?thesis
  proof (cases rule: commit_effect)
    case kept
    with assms(4) show ?thesis by (simp add: ledger_grows_def)
  next
    case (wrote d4)
    have same: "reconciliation_alarm d' = reconciliation_alarm d"
      using wrote(2,3) assms(5) [of _ d4 d'] by (auto split: option.splits)
    moreover have grows: "ledger_grows d d'" by (simp add: ledger_grows_def ledger_bundles_snoc [OF wrote(6)])
    moreover have "image_mset id_paymentRef (mset (idempotency_record d')) \<subseteq># image_mset ir_paymentRef (mset (issuance_record d'))"
      using assms(4) wrote(5) by (auto simp: wrote(6) ledger_ok_def books_ok_def elim!: subset_mset.order_trans)
    ultimately show ?thesis
      using assms(4) wrote(4) books stale_alarm_mono [OF grows] by (simp add: ledger_ok_def books_ok_def)
  qed
qed

end

lemma commit_tables:
  assumes "issue_commit env (ticket_grant now t) key request response d = (r, d')" and "rq_config env = config"
    and "length (blind_signatures response) = bundleSize config" and "ledger_ok config d"
  shows "ledger_ok config d' \<and> ledger_grows d d' \<and> reconciliation_alarm d' = reconciliation_alarm d"
proof (cases t)
  case (PaidTicket claim)
  with assms paid.commit_books [of env claim key request response d r d' config] show ?thesis by (simp add: paid_grant_def)
next
  case (DripTicket sch)
  have "reconciliation_alarm d2 = reconciliation_alarm d1" if "advance now (sch_id sch) (sch_intervalSeconds sch) d1 = Inr d2" for d1 d2
    using that by (auto simp: advance_def Let_def split: if_splits)
  with assms DripTicket drip.commit_books [of env now sch key request response d r d' config] show ?thesis by (simp add: drip_grant_def)
qed


text \<open>A transaction that changes anything adds one ledger row, of the epoch of its request.\<close>

lemma commit_writes:
  assumes "issue_commit env (ticket_grant now t) key request response d = (r, d')" and "d' \<noteq> d"
  obtains row where "issuance_record d' = issuance_record d @ [row]" and "ir_epoch row = req_epoch request" and "ir_bundleCount row = 1"
proof (cases t)
  case (PaidTicket claim)
  from assms(1) [unfolded PaidTicket ticket_grant.simps] show ?thesis
  proof (cases rule: paid.commit_effect)
    case (wrote d4)
    show ?thesis by (rule that [OF wrote(6)]) simp_all
  qed (use assms(2) in blast)
next
  case (DripTicket sch)
  from assms(1) [unfolded DripTicket ticket_grant.simps] show ?thesis
  proof (cases rule: drip.commit_effect)
    case (wrote d4)
    show ?thesis by (rule that [OF wrote(6)]) simp_all
  qed (use assms(2) in blast)
qed


subsection \<open>Every step keeps it\<close>

lemma ledger_ok_cong:
  assumes "issuance_record d = issuance_record d'" and "idempotency_record d = idempotency_record d'"
    and "epoch_counter d = epoch_counter d'" and "reconciliation_alarm d = reconciliation_alarm d'"
  shows "ledger_ok config d = ledger_ok config d'"
  using assms
  by (simp add: ledger_ok_def books_ok_def issuer_books_def books_balanced_def row_balanced_def ledger_bundles_def stale_alarm_def)

lemma flight_ok_mono: "set (intervals d) \<subseteq> set (intervals d') \<Longrightarrow> flight_ok config d f \<Longrightarrow> flight_ok config d' f"
  by (auto simp: flight_ok_def split: ticket.splits)

lemma rails_ok_cong:
  "issuance_record d = issuance_record d' \<Longrightarrow> entitlement d = entitlement d' \<Longrightarrow> rails_ok sold d = rails_ok sold d'"
  by (simp add: rails_ok_def drips_of_def)

lemma admit_frame:
  assumes "admit rt config cenv now header d = (r, d')"
  shows "ledger_ok config d' = ledger_ok config d" and "entitlement d' = entitlement d" and "issuance_record d' = issuance_record d"
proof -
  have "d' = d \<or> (\<exists>reason. d' = record_rejection (ce_stored cenv) now reason d)"
    using assms by (auto simp: admit_def split: sum.splits claim_failure.splits)
  moreover have "ledger_ok config (record_rejection stored now reason d) = ledger_ok config d" for stored reason
    by (rule ledger_ok_cong) (simp_all add: table_simps)
  ultimately show "ledger_ok config d' = ledger_ok config d" "entitlement d' = entitlement d" "issuance_record d' = issuance_record d"
    by (auto simp: table_simps)
qed

lemma intervals_cong: "entitlement d = entitlement d' \<Longrightarrow> intervals d = intervals d'"
  by (simp add: intervals_def)

text \<open>A step that leaves the ledger and the entitlements alone.\<close>

lemma sys_inv_frame:
  assumes "sys_inv config y" and "ledger_ok config d' = ledger_ok config (sys_db y)" and "entitlement d' = entitlement (sys_db y)"
    and "issuance_record d' = issuance_record (sys_db y)"
  shows "ledger_ok config d'" "rows_ok (sys_clock y) d'" "rails_ok (sys_sold y) d'"
    "\<forall>f \<in> set (sys_flights y). flight_ok config d' f" "\<forall>c \<in> set (sys_cycles y). cycle_ok d' c" "intervals d' = intervals (sys_db y)"
  using assms rows_ok_cong [OF assms(3), of "sys_clock y"] rails_ok_cong [OF assms(4,3), of "sys_sold y"] intervals_cong [OF assms(3)]
    cycle_ok_mono [OF ledger_grows_cong [OF assms(4)]] flight_ok_mono [of "sys_db y" d' config]
  by (simp_all add: sys_inv_def)

lemma insert_entitlement_drips:
  assumes "insert_entitlement now uuid h i d = Inr d'"
  shows "drips_of j d' = drips_of j d"
proof -
  have one: "lookup_by en_entitlementId j [row] = (if en_entitlementId row = j then Some row else None)" for row
    by (simp add: lookup_by_def)
  have "uuid \<notin> set (map en_entitlementId (entitlement d)) \<Longrightarrow> lookup_by en_entitlementId uuid (entitlement d) = None"
    by (simp add: lookup_by_None)
  then show ?thesis
    using assms by (auto simp: insert_entitlement_def drips_of_def lookup_by_append one split: if_splits option.splits)
qed

lemma register_frame:
  assumes "register env body d = (r, d')" and "rows_ok (rq_queryNow env) d" and "rails_ok sold d"
  shows "ledger_ok config d' = ledger_ok config d" and "rows_ok (rq_queryNow env) d'" and "rails_ok sold d'"
    and "set (intervals d) \<subseteq> set (intervals d')" and "issuance_record d' = issuance_record d"
proof -
  have "d' = d \<or> (\<exists>h. insert_entitlement (rq_queryNow env) (rq_uuid env) h
      (int (entitlementDripIntervalSeconds (rq_config env))) d = Inr d')"
    using assms(1) by (auto simp: register_def Let_def split: if_splits sum.splits option.splits)
  then consider "d' = d" | h where "insert_entitlement (rq_queryNow env) (rq_uuid env) h
      (int (entitlementDripIntervalSeconds (rq_config env))) d = Inr d'" by blast
  then have "ledger_ok config d' = ledger_ok config d \<and> rows_ok (rq_queryNow env) d' \<and> rails_ok sold d'
      \<and> set (intervals d) \<subseteq> set (intervals d') \<and> issuance_record d' = issuance_record d"
  proof cases
    case 2
    have "entitlements_ok d'" by (rule insert_entitlement_ok [OF 2]) (use assms(2) in \<open>simp add: rows_ok_def\<close>)
    moreover have "ledger_ok config (d\<lparr>entitlement := rows\<rparr>) = ledger_ok config d" for rows
      by (rule ledger_ok_cong) simp_all
    moreover have "issuance_record d' = issuance_record d"
      using 2 by (auto simp: insert_entitlement_def split: if_splits)
    moreover from this have "rails_ok sold d'" using assms(3) insert_entitlement_drips [OF 2] by (simp add: rails_ok_def)
    ultimately show ?thesis
      using 2 assms(2) by (auto simp: insert_entitlement_def rows_ok_def row_timely_def intervals_def split: if_splits)
  qed (use assms(2,3) in simp)
  then show "ledger_ok config d' = ledger_ok config d" "rows_ok (rq_queryNow env) d'" "rails_ok sold d'"
    "set (intervals d) \<subseteq> set (intervals d')" "issuance_record d' = issuance_record d"
    by blast+
qed

text \<open>Reconciliation on balanced books: a cycle raises nothing unless its ledger is older than its counters, and what it then
  raises is a mismatch in favour of the counters.\<close>

lemma balanced_rows: "ledger_ok config d \<Longrightarrow> r \<in> set (epoch_counter d) \<Longrightarrow> row_balanced d r"
  by (simp add: ledger_ok_def books_ok_def issuer_books_def books_balanced_def)

lemma reconcile_quiet: "ledger_ok config d \<Longrightarrow> snd (reconcile now d d d') = d'"
  by (simp add: reconcile_silent list_all_iff balanced_rows)

lemma ledger_read_ok: "cycle_ok d (LedgerRead (ledgerBundlesByEpoch d))"
  by (simp add: ledger_get)

lemma counters_read_ok:
  assumes "ledger_ok config d" and "cycle_ok d (LedgerRead ledger)"
  shows "cycle_ok d (Raising (due_alarms ledger d))"
proof -
  have "stale_alarm d (alarm_of 0 (reconcile_epoch ledger c) kind)"
    if c: "c \<in> set (epoch_counter d)" and kind: "kind \<in> set (rc_alarms (reconcile_epoch ledger c))" for c kind
  proof -
    define seen where "seen = (case ledger (ec_epoch c) of None \<Rightarrow> 0 | Some n \<Rightarrow> n)"
    have paid: "ec_signaturesIssued c = ec_bundlesPaid c * ec_bundleSize c" "ec_bundlesPaid c = ledger_bundles (ec_epoch c) d"
      using balanced_rows [OF assms(1) c] by (simp_all add: row_balanced_def)
    have "seen \<le> ec_bundlesPaid c" using assms(2) by (simp add: seen_def paid(2))
    moreover have "kind = ledger_mismatch" "seen \<noteq> ec_bundlesPaid c"
      using kind paid(1) by (auto simp: reconcile_epoch_def Let_def seen_def split: if_splits)
    ultimately show ?thesis
      using paid(2) by (simp add: stale_alarm_def alarm_of_def reconcile_epoch_def Let_def seen_def [symmetric])
  qed
  then show ?thesis by (auto simp: due_alarms_def)
qed

text \<open>A ledger read just before a bundle is recorded, with counters read just after it.\<close>

lemma concat_single:
  assumes "distinct xs" and "x \<in> set xs" and "\<And>z. z \<in> set xs \<Longrightarrow> z \<noteq> x \<Longrightarrow> g z = []"
  shows "concat (map g xs) = g x"
proof -
  obtain before after where xs: "xs = before @ x # after" using assms(2) by (meson split_list)
  with assms(1,3) have "concat (map g before) = []" "concat (map g after) = []" by auto
  then show ?thesis by (simp only: xs map_append list.map concat_append concat.simps append_Nil append_Nil2)
qed

lemma stale_due:
  assumes "ledger_ok config d'" and "issuance_record d' = issuance_record d @ [row]" and "ir_bundleCount row = 1"
  obtains r where "due_alarms (ledgerBundlesByEpoch d) d' = [(r, ledger_mismatch)]" and "rc_epoch r = ir_epoch row"
    and "rc_ledgerBundles r = ledger_bundles (ir_epoch row) d" and "rc_bundlesPaid r = ledger_bundles (ir_epoch row) d + 1"
proof -
  have books: "distinct (map ec_epoch (epoch_counter d'))" "\<forall>r \<in> set (issuance_record d'). ir_epoch r \<in> set (map ec_epoch (epoch_counter d'))"
    using assms(1) by (simp_all add: ledger_ok_def books_ok_def issuer_books_def books_balanced_def)
  have "row \<in> set (issuance_record d')" by (simp add: assms(2))
  with books(2) obtain c where c: "c \<in> set (epoch_counter d')" "ec_epoch c = ir_epoch row" by auto
  let ?r = "\<lambda>c. reconcile_epoch (ledgerBundlesByEpoch d) c"
  have paid: "ec_signaturesIssued z = ec_bundlesPaid z * ec_bundleSize z"
    "ec_bundlesPaid z = ledger_bundles (ec_epoch z) d + (if ec_epoch z = ir_epoch row then 1 else 0)"
    if "z \<in> set (epoch_counter d')" for z
    using balanced_rows [OF assms(1) that] ledger_bundles_snoc [OF assms(2), of "ec_epoch z"] assms(3)
    by (auto simp: row_balanced_def)
  have "ec_epoch z \<noteq> ir_epoch row" if "z \<in> set (epoch_counter d')" "z \<noteq> c" for z
    using that c books(1) by (auto simp: distinct_map inj_on_def)
  then have others: "rc_alarms (?r z) = []" if "z \<in> set (epoch_counter d')" "z \<noteq> c" for z
    using that paid [of z] by (simp add: rc_alarms_Nil_iff row_balanced_def)
  have one: "rc_alarms (?r c) = [ledger_mismatch]" "rc_epoch (?r c) = ir_epoch row"
    "rc_ledgerBundles (?r c) = ledger_bundles (ir_epoch row) d" "rc_bundlesPaid (?r c) = ledger_bundles (ir_epoch row) d + 1"
    using paid [OF c(1)] by (simp_all add: c(2) reconcile_epoch_def Let_def ledger_get)
  have "distinct (all_counters d')" using books(1) by (simp add: all_counters_def distinct_map)
  then have "concat (map (\<lambda>z. map (Pair (?r z)) (rc_alarms (?r z))) (all_counters d')) = map (Pair (?r c)) (rc_alarms (?r c))"
    by (rule concat_single) (use c(1) others in simp_all)
  then have "due_alarms (ledgerBundlesByEpoch d) d' = [(?r c, ledger_mismatch)]"
    by (simp add: due_alarms_def comp_def one(1))
  from that [OF this one(2-4)] show ?thesis .
qed

lemma raise_kind_ok:
  assumes "sys_inv config y" and "stale_alarm (sys_db y) (alarm_of 0 r kind)"
  shows "sys_inv config (y\<lparr>sys_db := raise_kind now r kind (sys_db y)\<rparr>)"
proof -
  let ?d = "sys_db y" and ?d' = "raise_kind now r kind (sys_db y)"
  have same: "entitlement ?d' = entitlement ?d" "issuance_record ?d' = issuance_record ?d" by (simp_all add: raise_kind_alarm_of)
  have stale: "stale_alarm ?d' a = stale_alarm ?d a" for a by (simp add: stale_alarm_def ledger_bundles_def same(2))
  have "stale_alarm ?d (alarm_of now r kind)" using assms(2)
    by (cases kind) (simp_all add: stale_alarm_def alarm_of_def)
  moreover have "books_ok config ?d' = books_ok config ?d"
    by (simp add: raise_kind_alarm_of books_ok_def issuer_books_def books_balanced_def row_balanced_def ledger_bundles_def)
  ultimately have "ledger_ok config ?d'"
    using assms(1) by (auto simp: sys_inv_def ledger_ok_def stale) (auto simp: raise_kind_alarm_of)
  with assms(1) sys_inv_frame [of config y ?d'] same show ?thesis by (simp add: sys_inv_def)
qed

lemma prepared_flight_ok:
  assumes "issue_prepare env g body s = (Inr (request, response), s')" and "rq_config env = config"
    and "case t of PaidTicket _ \<Rightarrow> True | DripTicket sch \<Rightarrow> (uuid_value (sch_id sch), sch_intervalSeconds sch) \<in> set (intervals d)"
  shows "flight_ok config d \<lparr>fl_ticket = t, fl_key = key, fl_request = request, fl_response = response\<rparr>"
  using issue_prepare_count(1) [OF assms(1)] assms(2,3) by (simp add: flight_ok_def)

lemma schedule_interval:
  assumes "schedule now i d = Inr sch" and "rows_ok now d"
  shows "(uuid_value (sch_id sch), sch_intervalSeconds sch) \<in> set (intervals d)"
proof -
  have keyed: "entitlements_keyed d" using assms(2) by (simp add: rows_ok_def entitlements_ok_def)
  from assms(1) obtain row where "find_entitlement (sch_id sch) d = Some row" "sch_intervalSeconds sch = en_dripIntervalSeconds row"
    by (rule schedule_Inr)
  then show ?thesis by (force simp: find_entitlement_iff [OF keyed] intervals_def)
qed

lemma rows_ok_later: "rows_ok now d \<Longrightarrow> now \<le> t \<Longrightarrow> rows_ok t d"
  by (force simp: rows_ok_def row_timely_def)

lemma middle_removed: "xs = before @ x # after \<Longrightarrow> (\<forall>z \<in> set xs. P z) \<Longrightarrow> P x \<and> (\<forall>z \<in> set (before @ after). P z)"
  by auto

lemma middle_replaced: "xs = before @ x # after \<Longrightarrow> (\<forall>z \<in> set xs. P z) \<Longrightarrow> P x' \<Longrightarrow> \<forall>z \<in> set (before @ x' # after). P z"
  by auto

theorem sys_step_inv: "sys_step config cenv y y' \<Longrightarrow> sys_inv config y \<Longrightarrow> sys_inv config y'"
proof (induction rule: sys_step.induct)
  case (refuse_claim env stored y header e d')
  from sys_inv_frame [OF refuse_claim.prems admit_frame [OF refuse_claim(2)]] show ?case by (simp add: sys_inv_def)
next
  case (start_purchase env stored y header claim d' body request response s' key)
  from sys_inv_frame [OF start_purchase.prems admit_frame [OF start_purchase(2)]] show ?case
    using prepared_flight_ok [OF start_purchase(3,1), where t = "PaidTicket claim" and d = d' and key = key]
    by (simp add: sys_inv_def)
next
  case (start_pickup env y i sch key body request response s')
  then have "(uuid_value (sch_id sch), sch_intervalSeconds sch) \<in> set (intervals (sys_db y))"
    by (intro schedule_interval) (auto simp: sys_inv_def)
  with start_pickup show ?case
    using prepared_flight_ok [OF start_pickup(4,1), where t = "DripTicket sch" and d = "sys_db y" and key = key] by (simp add: sys_inv_def)
next
  case (refuse_request env g body y e s')
  then show ?case by (simp add: sys_inv_def)
next
  case (commit env y before f after r d')
  have old: "ledger_ok config (sys_db y)" "rows_ok (sys_clock y) (sys_db y)" "rails_ok (sys_sold y) (sys_db y)"
    "\<forall>g \<in> set (sys_flights y). flight_ok config (sys_db y) g" "\<forall>c \<in> set (sys_cycles y). cycle_ok (sys_db y) c"
    using commit.prems by (simp_all add: sys_inv_def)
  have f: "flight_ok config (sys_db y) f" "\<forall>g \<in> set (before @ after). flight_ok config (sys_db y) g"
    using middle_removed [OF commit(3) old(4)] by blast+
  have rows: "rows_ok (sys_clock y) d'" "intervals d' = intervals (sys_db y)"
    using commit_rows [OF commit(4) old(2)] f(1) by (auto simp: flight_ok_def split: ticket.splits)
  have "ledger_ok config d' \<and> ledger_grows (sys_db y) d' \<and> reconciliation_alarm d' = reconciliation_alarm (sys_db y)"
    by (rule commit_tables [OF commit(4,1) _ old(1)]) (use f(1) in \<open>simp add: flight_ok_def\<close>)
  with rows f(2) old(5) commit_rails [OF commit(4) old(2,3)] show ?case
    using flight_ok_mono [of "sys_db y" d' config] cycle_ok_mono [of "sys_db y" d'] by (simp add: sys_inv_def)
next
  case (abandon y before f after)
  then show ?case using middle_removed [OF abandon(1)] unfolding sys_inv_def by simp
next
  case (enrol env y body r d')
  then have "rows_ok (rq_queryNow env) (sys_db y)" "rails_ok (sys_sold y) (sys_db y)" by (simp_all add: sys_inv_def)
  from register_frame [OF enrol(3) this] enrol flight_ok_mono [of "sys_db y" d' config]
    cycle_ok_mono [of "sys_db y" d', OF ledger_grows_cong]
  show ?case by (simp add: sys_inv_def)
next
  case (cycle_ledger y)
  then show ?case using ledger_read_ok [of "sys_db y"] by (simp add: sys_inv_def del: cycle_ok.simps)
next
  case (cycle_counters y before ledger after)
  then have "cycle_ok (sys_db y) (LedgerRead ledger)" "ledger_ok config (sys_db y)" by (simp_all add: sys_inv_def)
  then have "cycle_ok (sys_db y) (Raising (due_alarms ledger (sys_db y)))" by (blast intro: counters_read_ok)
  with cycle_counters middle_replaced [OF cycle_counters(1)] show ?case by (simp add: sys_inv_def del: cycle_ok.simps)
next
  case (cycle_raise y before r kind due after)
  then have due: "cycle_ok (sys_db y) (Raising ((r, kind) # due))" by (simp add: sys_inv_def del: cycle_ok.simps)
  let ?y = "y\<lparr>sys_cycles := before @ Raising due # after\<rparr>"
  have "cycle_ok (sys_db y) (Raising due)" using due by simp
  with cycle_raise have "sys_inv config ?y" by (simp add: sys_inv_def del: cycle_ok.simps)
  from raise_kind_ok [OF this, of r kind "sys_clock y"] due show ?case by simp
next
  case (cycle_ends y before c after)
  then show ?case using middle_removed [OF cycle_ends(1)] unfolding sys_inv_def by simp
next
  case (tick y t)
  then show ?case using rows_ok_later by (auto simp: sys_inv_def)
qed

lemma sys_reachable_inv: "sys_reachable config cenv y \<Longrightarrow> sys_inv config y"
proof (induction rule: sys_reachable.induct)
  case (boot s t)
  have "issuer_books (int (bundleSize config)) empty_db" by (rule issuer_books_empty)
  then show ?case
    by (simp add: sys_inv_def ledger_ok_def books_ok_def)
      (simp add: empty_db_def rows_ok_def entitlements_ok_def entitlements_keyed_def rails_ok_def drips_of_def lookup_by_def)
qed (rule sys_step_inv)


subsection \<open>The handlers are runs of the system\<close>

text \<open>A handler that nothing interrupts: its steps in a row, from the state it finds to the state it leaves.\<close>

definition left_by :: "issuer_config \<Rightarrow> ('sk, 'pk) claim_env \<Rightarrow> 's system \<Rightarrow> 's \<Rightarrow> db \<Rightarrow> bool" where
  "left_by config cenv y s' d' \<longleftrightarrow>
     (\<exists>sold. (sys_step config cenv)\<^sup>*\<^sup>* y (y\<lparr>sys_store := s', sys_db := d', sys_sold := sold\<rparr>))"

lemma left_by_step:
  "sys_step config cenv y (y\<lparr>sys_store := s'\<rparr>) \<Longrightarrow> left_by config cenv y s' (sys_db y)"
  "sys_step config cenv y (y\<lparr>sys_db := d'\<rparr>) \<Longrightarrow> left_by config cenv y (sys_store y) d'"
  "left_by config cenv y (sys_store y) (sys_db y)"
proof -
  have "y\<lparr>sys_store := s', sys_db := sys_db y, sys_sold := sys_sold y\<rparr> = y\<lparr>sys_store := s'\<rparr>"
    "y\<lparr>sys_store := sys_store y, sys_db := d', sys_sold := sys_sold y\<rparr> = y\<lparr>sys_db := d'\<rparr>"
    "y\<lparr>sys_store := sys_store y, sys_db := sys_db y, sys_sold := sys_sold y\<rparr> = y" by (cases y, simp)+
  then show "sys_step config cenv y (y\<lparr>sys_store := s'\<rparr>) \<Longrightarrow> left_by config cenv y s' (sys_db y)"
    "sys_step config cenv y (y\<lparr>sys_db := d'\<rparr>) \<Longrightarrow> left_by config cenv y (sys_store y) d'"
    "left_by config cenv y (sys_store y) (sys_db y)"
    unfolding left_by_def by (metis r_into_rtranclp, metis r_into_rtranclp, metis rtranclp.rtrancl_refl)
qed

lemma start_commit:
  fixes y :: "'s system"
  assumes "sys_step config cenv y (y\<lparr>sys_store := s', sys_flights := sys_flights y @ [f]\<rparr>)"
    and "rq_config (env :: 's request_env) = config" and "rq_dbNow env = sys_clock y"
    and "issue_commit env (ticket_grant (sys_clock y) (fl_ticket f)) (fl_key f) (fl_request f) (fl_response f) (sys_db y) = (r, d')"
  shows "left_by config cenv y s' d'"
proof -
  let ?y1 = "y\<lparr>sys_store := s', sys_flights := sys_flights y @ [f]\<rparr>"
  let ?sold = "sys_sold y @ sold_by (fl_ticket f) (sys_db y) d'"
  have "sys_step config cenv ?y1 (?y1\<lparr>sys_db := d', sys_flights := sys_flights y @ [],
      sys_sold := sys_sold ?y1 @ sold_by (fl_ticket f) (sys_db ?y1) d'\<rparr>)"
    by (rule sys_step.commit [OF assms(2), where f = f and r = r]) (use assms(3,4) in simp_all)
  then have "sys_step config cenv ?y1 (y\<lparr>sys_store := s', sys_db := d', sys_sold := ?sold\<rparr>)" by simp
  with assms(1) show ?thesis unfolding left_by_def by (meson converse_rtranclp_into_rtranclp r_into_rtranclp)
qed

lemma issue_run:
  assumes "issue env g key body (sys_store y, sys_db y) = (r, s', d')" and "rq_config env = config" and "rq_dbNow env = sys_clock y"
    and "g = ticket_grant (sys_clock y) t"
    and "\<And>request response. issue_prepare env g body (sys_store y) = (Inr (request, response), s') \<Longrightarrow>
      sys_step config cenv y (y\<lparr>sys_store := s', sys_flights := sys_flights y @
        [\<lparr>fl_ticket = t, fl_key = key, fl_request = request, fl_response = response\<rparr>]\<rparr>)"
  shows "left_by config cenv y s' d'"
proof (cases "issue_prepare env g body (sys_store y)")
  case (Pair p s1)
  show ?thesis
  proof (cases p)
    case (Inl e)
    with Pair assms(1) have "s1 = s'" "d' = sys_db y" by (simp_all add: issue_def)
    with Pair Inl sys_step.refuse_request [of env g body y e s'] show ?thesis by (auto intro: left_by_step(1))
  next
    case (Inr q)
    obtain request response where q: "q = (request, response)" by force
    with Pair Inr assms(1) have "s1 = s'" "issue_commit env g key request response (sys_db y) = (r, d')"
      by (simp_all add: issue_def split: prod.splits)
    with Pair Inr q assms(5) show ?thesis
      by (intro start_commit [OF _ assms(2,3), where r = r]) (auto simp: assms(4))
  qed
qed

lemma purchase_run:
  assumes "purchase env (cenv\<lparr>ce_stored := stored\<rparr>) header key body (sys_store y, sys_db y) = (r, s', d')"
    and "rq_config env = config" and "rq_queryNow env = sys_clock y" and "rq_dbNow env = sys_clock y"
  shows "left_by config cenv y s' d'"
proof (cases "admit (rq_rt env) config (cenv\<lparr>ce_stored := stored\<rparr>) (sys_clock y) header (sys_db y)")
  case (Pair a d1)
  show ?thesis
  proof (cases a)
    case (Inl e)
    with Pair assms have "s' = sys_store y" "d' = d1" by (simp_all add: purchase_def)
    with sys_step.refuse_claim [OF assms(2) Pair [unfolded Inl]] show ?thesis by (simp add: left_by_step(2))
  next
    case (Inr claim)
    with Pair have d1: "d1 = sys_db y" by (simp add: admit_Inr)
    with Pair Inr assms have "issue env (paid_grant claim) key body (sys_store y, sys_db y) = (r, s', d')"
      by (simp add: purchase_def)
    then show ?thesis
    proof (rule issue_run [OF _ assms(2,4), where t = "PaidTicket claim"])
      fix request response
      assume "issue_prepare env (paid_grant claim) body (sys_store y) = (Inr (request, response), s')"
      from sys_step.start_purchase [OF assms(2) Pair [unfolded Inr] this, of key]
      show "sys_step config cenv y (y\<lparr>sys_store := s', sys_flights := sys_flights y @
        [\<lparr>fl_ticket = PaidTicket claim, fl_key = key, fl_request = request, fl_response = response\<rparr>]\<rparr>)" by (simp add: d1)
    qed simp
  qed
qed

lemma pickup_run:
  assumes "pickup env i key body (sys_store y, sys_db y) = (r, s', d')"
    and "rq_config env = config" and "rq_queryNow env = sys_clock y" and "rq_dbNow env = sys_clock y"
  shows "left_by config cenv y s' d'"
proof (cases "\<exists>sch. schedule (sys_clock y) i (sys_db y) = Inr sch \<and> (sch_due sch \<or> (\<exists>k. key = Some k \<and> isReplay (sch_id sch) k (sys_db y)))")
  case True
  then obtain sch where sch: "schedule (sys_clock y) i (sys_db y) = Inr sch"
    and ready: "sch_due sch \<or> (\<exists>k. key = Some k \<and> isReplay (sch_id sch) k (sys_db y))" by blast
  then have "issue env (drip_grant (sys_clock y) sch) key body (sys_store y, sys_db y) = (r, s', d')"
    using assms by (auto simp: pickup_def Let_def split: option.splits)
  then show ?thesis
    by (rule issue_run [OF _ assms(2,4), where t = "DripTicket sch"]) (use sys_step.start_pickup [OF assms(2) sch ready] in simp_all)
next
  case False
  then have "s' = sys_store y" "d' = sys_db y"
    using assms by (auto simp: pickup_def Let_def iso_text_def split: sum.splits option.splits if_splits)
  then show ?thesis by (simp add: left_by_step(3))
qed

lemma sys_reachable_run: "(sys_step config cenv)\<^sup>*\<^sup>* y y' \<Longrightarrow> sys_reachable config cenv y \<Longrightarrow> sys_reachable config cenv y'"
  by (induction rule: rtranclp_induct) (auto intro: sys_reachable.step)

end
