(* ===== verification/Schema.thy ===== *)
theory Schema
  imports Config
begin

text \<open>
  The database schema, twice: as the entities declare it (\<open>*.entity.ts\<close>) and as the migrations build it
  (\<open>database/migrations/\<close>), with the connection options of \<open>database/typeorm.config.ts\<close>. A migration is the list of
  statements its \<open>up\<close> and \<open>down\<close> run. Every column of either is \<open>NOT NULL\<close>.
\<close>

subsection \<open>Statements\<close>

datatype sql_type = SqlText | SqlUuid | SqlInteger | SqlBigint | SqlTimestamptz

datatype sql_default = NoDefault | DefaultNow | DefaultUuid | DefaultLiteral string

record sql_column =
  sc_name :: string
  sc_type :: sql_type
  sc_default :: sql_default

datatype sql_constraint = PrimaryKey string "string list" | UniqueKey string "string list"

datatype ddl =
    CreateTable string "sql_column list" "sql_constraint list"
  | CreateIndex string string "string list"
  | DropIndex string
  | DropTable string

record schema =
  sch_tables :: "(string \<times> sql_column list \<times> sql_constraint list) list"
  sch_indexes :: "(string \<times> string \<times> string list) list"  \<comment> \<open>name, table, columns\<close>

definition empty_schema :: schema where
  "empty_schema = \<lparr>sch_tables = [], sch_indexes = []\<rparr>"

text \<open>One statement; \<open>None\<close> when PostgreSQL refuses it. A dropped table takes its indexes with it.\<close>

fun exec_ddl :: "ddl \<Rightarrow> schema \<Rightarrow> schema option" where
  "exec_ddl (CreateTable t cols cs) s =
     (if t \<in> set (map fst (sch_tables s)) then None
      else Some (s\<lparr>sch_tables := sch_tables s @ [(t, cols, cs)]\<rparr>))"
| "exec_ddl (CreateIndex i t cols) s =
     (if i \<in> set (map fst (sch_indexes s)) then None
      else case map_of (sch_tables s) t of
        None \<Rightarrow> None
      | Some (tcols, _) \<Rightarrow>
          if list_all (\<lambda>c. c \<in> set (map sc_name tcols)) cols
          then Some (s\<lparr>sch_indexes := sch_indexes s @ [(i, t, cols)]\<rparr>) else None)"
| "exec_ddl (DropIndex i) s =
     (if i \<in> set (map fst (sch_indexes s))
      then Some (s\<lparr>sch_indexes := filter (\<lambda>(j, _). j \<noteq> i) (sch_indexes s)\<rparr>) else None)"
| "exec_ddl (DropTable t) s =
     (if t \<in> set (map fst (sch_tables s))
      then Some (s\<lparr>sch_tables := filter (\<lambda>(u, _). u \<noteq> t) (sch_tables s),
                   sch_indexes := filter (\<lambda>(_, u, _). u \<noteq> t) (sch_indexes s)\<rparr>) else None)"

fun exec_all :: "ddl list \<Rightarrow> schema \<Rightarrow> schema option" where
  "exec_all [] s = Some s"
| "exec_all (d # ds) s = Option.bind (exec_ddl d s) (exec_all ds)"

record migration =
  mg_name :: string
  mg_up :: "ddl list"
  mg_down :: "ddl list"

fun migrate_up :: "migration list \<Rightarrow> schema \<Rightarrow> schema option" where
  "migrate_up [] s = Some s"
| "migrate_up (m # ms) s = Option.bind (exec_all (mg_up m) s) (migrate_up ms)"

fun migrate_down :: "migration list \<Rightarrow> schema \<Rightarrow> schema option" where
  "migrate_down [] s = Some s"
| "migrate_down (m # ms) s = Option.bind (migrate_down ms s) (exec_all (mg_down m))"

subsection \<open>The migrations\<close>

abbreviation plain_column :: "string \<Rightarrow> sql_type \<Rightarrow> sql_column" where
  "plain_column n t \<equiv> \<lparr>sc_name = n, sc_type = t, sc_default = NoDefault\<rparr>"

abbreviation now_column :: "string \<Rightarrow> sql_column" where
  "now_column n \<equiv> \<lparr>sc_name = n, sc_type = SqlTimestamptz, sc_default = DefaultNow\<rparr>"

abbreviation id_column :: sql_column where
  "id_column \<equiv> \<lparr>sc_name = ''id'', sc_type = SqlUuid, sc_default = DefaultUuid\<rparr>"

definition InitialSchema1788487140225 :: migration where
  "InitialSchema1788487140225 =
     \<lparr>mg_name = ''InitialSchema1788487140225'',
      mg_up =
       [CreateTable ''issuance_record''
        [id_column,
         plain_column ''payment_ref'' SqlText,
         plain_column ''epoch'' SqlText,
         plain_column ''bundle_count'' SqlInteger,
         now_column ''timestamp'']
        [PrimaryKey ''PK_3f7b4fd9dfd4bbf85fa76b9c179'' [''id'']],
        CreateIndex ''IDX_80132d844592ff164513323494'' ''issuance_record'' [''payment_ref''],
        CreateIndex ''IDX_8442ac1921111ea961d4bb0aa7'' ''issuance_record'' [''epoch'']],
      mg_down = [DropIndex ''IDX_8442ac1921111ea961d4bb0aa7'', DropIndex ''IDX_80132d844592ff164513323494'', DropTable ''issuance_record'']\<rparr>"

definition IdempotencyRecord1788490167838 :: migration where
  "IdempotencyRecord1788490167838 =
     \<lparr>mg_name = ''IdempotencyRecord1788490167838'',
      mg_up =
       [CreateTable ''idempotency_record''
        [plain_column ''payment_ref'' SqlText,
         plain_column ''idempotency_key'' SqlText,
         plain_column ''request_fingerprint'' SqlText,
         now_column ''created_at'']
        [PrimaryKey ''PK_796132d58c0ffc34e5b0585cbf5'' [''payment_ref'', ''idempotency_key'']]],
      mg_down = [DropTable ''idempotency_record'']\<rparr>"

definition ClaimRejection1788500818407 :: migration where
  "ClaimRejection1788500818407 =
     \<lparr>mg_name = ''ClaimRejection1788500818407'',
      mg_up =
       [CreateTable ''claim_rejection''
        [plain_column ''reason'' SqlText,
         plain_column ''count'' SqlBigint,
         now_column ''updated_at'']
        [PrimaryKey ''PK_71fe3e8d13c64d5d8e0e1f829c3'' [''reason'']]],
      mg_down = [DropTable ''claim_rejection'']\<rparr>"

definition EpochAccounting1788543407510 :: migration where
  "EpochAccounting1788543407510 =
     \<lparr>mg_name = ''EpochAccounting1788543407510'',
      mg_up =
       [CreateTable ''epoch_counter''
        [plain_column ''epoch'' SqlText,
         plain_column ''bundle_size'' SqlInteger,
         plain_column ''bundles_paid'' SqlBigint,
         plain_column ''signatures_issued'' SqlBigint,
         now_column ''updated_at'']
        [PrimaryKey ''PK_76c339bbcf808e0afa3bc86862e'' [''epoch'']],
        CreateTable ''reconciliation_alarm''
        [id_column,
         plain_column ''epoch'' SqlText,
         plain_column ''kind'' SqlText,
         plain_column ''expected'' SqlBigint,
         plain_column ''actual'' SqlBigint,
         plain_column ''delta'' SqlBigint,
         now_column ''raised_at'']
        [PrimaryKey ''PK_2219eace8a5dd694d7d1c293f0c'' [''id'']],
        CreateIndex ''IDX_97d596a3507042d5f47ae612a0'' ''reconciliation_alarm'' [''epoch'']],
      mg_down = [DropIndex ''IDX_97d596a3507042d5f47ae612a0'', DropTable ''reconciliation_alarm'', DropTable ''epoch_counter'']\<rparr>"

definition EntitlementDrip1788559924122 :: migration where
  "EntitlementDrip1788559924122 =
     \<lparr>mg_name = ''EntitlementDrip1788559924122'',
      mg_up =
       [CreateTable ''entitlement''
        [plain_column ''entitlement_id'' SqlUuid,
         plain_column ''receipt_hash'' SqlText,
         plain_column ''drip_interval_seconds'' SqlInteger,
         plain_column ''next_drip_at'' SqlTimestamptz,
         \<lparr>sc_name = ''drips_issued'', sc_type = SqlInteger, sc_default = DefaultLiteral ''0''\<rparr>,
         now_column ''created_at'']
        [UniqueKey ''UQ_3e52dd290f54e645497b2d1a5fa'' [''receipt_hash''],
         PrimaryKey ''PK_20e8dddb0f54ba002ba97f085ef'' [''entitlement_id'']]],
      mg_down = [DropTable ''entitlement'']\<rparr>"

definition migrations :: "migration list" where
  "migrations = [InitialSchema1788487140225, IdempotencyRecord1788490167838, ClaimRejection1788500818407, EpochAccounting1788543407510, EntitlementDrip1788559924122]"

subsection \<open>The entities\<close>

datatype column_decorator = PrimaryColumn | PrimaryGeneratedColumn | Column | CreateDateColumn | UpdateDateColumn

record entity_column =
  en_decorator :: column_decorator
  en_name :: string
  en_type :: sql_type
  en_unique :: bool
  en_default :: "string option"
  en_index :: bool

record entity =
  et_table :: string
  et_columns :: "entity_column list"

abbreviation entity_field :: "column_decorator \<Rightarrow> string \<Rightarrow> sql_type \<Rightarrow> entity_column" where
  "entity_field d n t \<equiv> \<lparr>en_decorator = d, en_name = n, en_type = t, en_unique = False, en_default = None, en_index = False\<rparr>"

abbreviation indexed_field :: "string \<Rightarrow> sql_type \<Rightarrow> entity_column" where
  "indexed_field n t \<equiv> \<lparr>en_decorator = Column, en_name = n, en_type = t, en_unique = False, en_default = None, en_index = True\<rparr>"

definition IssuanceRecord_entity :: entity where
  "IssuanceRecord_entity =
     \<lparr>et_table = ''issuance_record'',
      et_columns =
       [entity_field PrimaryGeneratedColumn ''id'' SqlUuid,
        indexed_field ''payment_ref'' SqlText,
        indexed_field ''epoch'' SqlText,
        entity_field Column ''bundle_count'' SqlInteger,
        entity_field CreateDateColumn ''timestamp'' SqlTimestamptz]\<rparr>"

definition IdempotencyRecord_entity :: entity where
  "IdempotencyRecord_entity =
     \<lparr>et_table = ''idempotency_record'',
      et_columns =
       [entity_field PrimaryColumn ''payment_ref'' SqlText,
        entity_field PrimaryColumn ''idempotency_key'' SqlText,
        entity_field Column ''request_fingerprint'' SqlText,
        entity_field CreateDateColumn ''created_at'' SqlTimestamptz]\<rparr>"

definition ClaimRejection_entity :: entity where
  "ClaimRejection_entity =
     \<lparr>et_table = ''claim_rejection'',
      et_columns =
       [entity_field PrimaryColumn ''reason'' SqlText,
        entity_field Column ''count'' SqlBigint,
        entity_field UpdateDateColumn ''updated_at'' SqlTimestamptz]\<rparr>"

definition EpochCounter_entity :: entity where
  "EpochCounter_entity =
     \<lparr>et_table = ''epoch_counter'',
      et_columns =
       [entity_field PrimaryColumn ''epoch'' SqlText,
        entity_field Column ''bundle_size'' SqlInteger,
        entity_field Column ''bundles_paid'' SqlBigint,
        entity_field Column ''signatures_issued'' SqlBigint,
        entity_field UpdateDateColumn ''updated_at'' SqlTimestamptz]\<rparr>"

definition ReconciliationAlarm_entity :: entity where
  "ReconciliationAlarm_entity =
     \<lparr>et_table = ''reconciliation_alarm'',
      et_columns =
       [entity_field PrimaryGeneratedColumn ''id'' SqlUuid,
        indexed_field ''epoch'' SqlText,
        entity_field Column ''kind'' SqlText,
        entity_field Column ''expected'' SqlBigint,
        entity_field Column ''actual'' SqlBigint,
        entity_field Column ''delta'' SqlBigint,
        entity_field CreateDateColumn ''raised_at'' SqlTimestamptz]\<rparr>"

definition Entitlement_entity :: entity where
  "Entitlement_entity =
     \<lparr>et_table = ''entitlement'',
      et_columns =
       [entity_field PrimaryColumn ''entitlement_id'' SqlUuid,
        \<lparr>en_decorator = Column, en_name = ''receipt_hash'', en_type = SqlText, en_unique = True, en_default = None, en_index = False\<rparr>,
        entity_field Column ''drip_interval_seconds'' SqlInteger,
        entity_field Column ''next_drip_at'' SqlTimestamptz,
        \<lparr>en_decorator = Column, en_name = ''drips_issued'', en_type = SqlInteger, en_unique = False, en_default = Some ''0'', en_index = False\<rparr>,
        entity_field CreateDateColumn ''created_at'' SqlTimestamptz]\<rparr>"

definition entities :: "entity list" where
  "entities = [IssuanceRecord_entity, IdempotencyRecord_entity, ClaimRejection_entity, EpochCounter_entity, ReconciliationAlarm_entity, Entitlement_entity]"

subsection \<open>The shape of a table\<close>

text \<open>What of a table matters to the program: its columns, its keys and its indexes, not their generated names.\<close>

record table_shape =
  ts_columns :: "sql_column list"
  ts_primary :: "string list"
  ts_unique :: "string list list"
  ts_indexes :: "string list list"

definition entity_column_sql :: "entity_column \<Rightarrow> sql_column" where
  "entity_column_sql c =
     \<lparr>sc_name = en_name c, sc_type = en_type c,
      sc_default = (case en_decorator c of
          PrimaryGeneratedColumn \<Rightarrow> DefaultUuid
        | CreateDateColumn \<Rightarrow> DefaultNow
        | UpdateDateColumn \<Rightarrow> DefaultNow
        | _ \<Rightarrow> (case en_default c of None \<Rightarrow> NoDefault | Some d \<Rightarrow> DefaultLiteral d))\<rparr>"

definition entity_shape :: "entity \<Rightarrow> string \<times> table_shape" where
  "entity_shape e =
     (et_table e,
      \<lparr>ts_columns = map entity_column_sql (et_columns e),
       ts_primary = map en_name (filter (\<lambda>c. en_decorator c \<in> {PrimaryColumn, PrimaryGeneratedColumn}) (et_columns e)),
       ts_unique = map (\<lambda>c. [en_name c]) (filter en_unique (et_columns e)),
       ts_indexes = map (\<lambda>c. [en_name c]) (filter en_index (et_columns e))\<rparr>)"

fun constraint_primary :: "sql_constraint \<Rightarrow> string list" where
  "constraint_primary (PrimaryKey _ cols) = cols"
| "constraint_primary (UniqueKey _ _) = []"

fun constraint_unique :: "sql_constraint \<Rightarrow> string list list" where
  "constraint_unique (UniqueKey _ cols) = [cols]"
| "constraint_unique (PrimaryKey _ _) = []"

definition schema_shape :: "schema \<Rightarrow> (string \<times> table_shape) list" where
  "schema_shape s =
     map (\<lambda>(t, cols, cs).
       (t, \<lparr>ts_columns = cols, ts_primary = concat (map constraint_primary cs), ts_unique = concat (map constraint_unique cs),
            ts_indexes = map (\<lambda>(_, _, cols). cols) (filter (\<lambda>(_, u, _). u = t) (sch_indexes s))\<rparr>))
     (sch_tables s)"

subsection \<open>The connection\<close>

record data_source_options =
  ds_host :: string
  ds_port :: jsnumber
  ds_username :: string
  ds_password :: string
  ds_database :: string
  ds_entities :: "entity list"
  ds_synchronize :: bool

definition buildDataSourceOptions :: "runtime \<Rightarrow> (string \<rightharpoonup> string) \<Rightarrow> data_source_options" where
  "buildDataSourceOptions rt env =
     \<lparr>ds_host = env_or env ''POSTGRES_HOST'' ''localhost'',
      ds_port = (case env ''POSTGRES_PORT'' of None \<Rightarrow> Integer 5432 | Some p \<Rightarrow> js_Number rt p),
      ds_username = env_or env ''POSTGRES_USER'' ''app'',
      ds_password = env_or env ''POSTGRES_PASSWORD'' ''app'',
      ds_database = env_or env ''POSTGRES_DB'' ''app'',
      ds_entities = entities,
      ds_synchronize =
        (env_or env ''DB_SYNCHRONIZE'' (if env ''NODE_ENV'' \<noteq> Some ''production'' then ''true'' else ''false'') = ''true'')\<rparr>"

text \<open>The primary and unique keys the entities declare, by table: the keys the rows of \<open>Database\<close> are kept under.\<close>

definition declared_keys :: "(string \<times> string list \<times> string list list) list" where
  "declared_keys = map (\<lambda>(t, s). (t, ts_primary s, ts_unique s)) (map entity_shape entities)"

lemma declared_keys_eval:
  "declared_keys =
     [(''issuance_record'', [''id''], []), (''idempotency_record'', [''payment_ref'', ''idempotency_key''], []),
      (''claim_rejection'', [''reason''], []), (''epoch_counter'', [''epoch''], []),
      (''reconciliation_alarm'', [''id''], []), (''entitlement'', [''entitlement_id''], [[''receipt_hash'']])]"
  by code_simp

text \<open>In production nothing but the migrations changes the schema, unless it is asked for.\<close>

lemma production_keeps_schema:
  "env ''NODE_ENV'' = Some ''production'' \<Longrightarrow> env ''DB_SYNCHRONIZE'' \<noteq> Some ''true'' \<Longrightarrow>
     \<not> ds_synchronize (buildDataSourceOptions rt env)"
  by (auto simp: buildDataSourceOptions_def env_or_def split: option.split)

text \<open>The migrations in order build what the entities declare, and reverting any number of them leaves nothing behind.\<close>

lemma schema_built: "map_option schema_shape (migrate_up migrations empty_schema) = Some (map entity_shape entities)"
  by code_simp

lemma schema_reverted: "list_all (\<lambda>n. Option.bind (migrate_up (take n migrations) empty_schema) (migrate_down (take n migrations)) = Some empty_schema)
  [0..<6]"
  by code_simp

end
