(* ===== verification/PropertiesSystem.thy ===== *)
theory PropertiesSystem
  imports Samples System Schema
begin

text \<open>The properties of the whole issuer under any interleaving of its requests and its reconciliation cycles.\<close>

text \<open>C3. Whatever requests and reconciliation cycles overlap and in whatever order their statements run, the books balance:
  in every state the running issuer reaches, every epoch's counters agree with each other and with the ledger, no
  idempotency key was recorded twice and the keys recorded under a reference are no more than its ledger rows; a cycle
  whose two queries see that state raises nothing, and the only alarms there can ever be are ledger mismatches from a
  ledger that was read before the counters and too early, never an overissuance or an underissuance.\<close>

theorem concurrent_books_balance:
  assumes "sys_reachable config cenv y"
  shows "books_balanced (sys_db y) \<and> (\<forall>r \<in> set (epoch_counter (sys_db y)). ec_bundleSize r = int (bundleSize config))
    \<and> distinct (map idempotency_key (idempotency_record (sys_db y)))
    \<and> image_mset id_paymentRef (mset (idempotency_record (sys_db y))) \<subseteq># image_mset ir_paymentRef (mset (issuance_record (sys_db y)))
    \<and> snd (reconcile now (sys_db y) (sys_db y) d) = d
    \<and> (\<forall>a \<in> set (reconciliation_alarm (sys_db y)). al_kind a = ledger_mismatch
          \<and> al_expected a < al_actual a \<and> al_actual a \<le> ledger_bundles (al_epoch a) (sys_db y))"
  using sys_reachable_inv [OF assms] reconcile_quiet [of config "sys_db y" now d]
  by (simp add: sys_inv_def ledger_ok_def books_ok_def issuer_books_def stale_alarm_def)

definition boot_system :: "millis \<Rightarrow> mem_store system" where
  "boot_system t = \<lparr>sys_store = sample_store, sys_db = empty_db, sys_clock = t, sys_flights = [], sys_cycles = [], sys_sold = []\<rparr>"

lemma boot_reachable: "sys_reachable sample_config sample_claim_env (boot_system t)"
  unfolding boot_system_def by (rule sys_reachable.boot)

lemma sample_env_sel [simp]:
  "rq_config (sample_env t u) = sample_config" "rq_queryNow (sample_env t u) = t" "rq_dbNow (sample_env t u) = t"
  by (simp_all add: sample_env_def)

text \<open>A purchase up to its transaction, and the transaction.\<close>

definition sample_flight :: flight where
  "sample_flight = \<lparr>fl_ticket = PaidTicket (sample_claim ''1.0''), fl_key = Some ''k'', fl_request = sample_request, fl_response = sample_response\<rparr>"

lemma sample_flight_reachable:
  obtains y where "sys_reachable sample_config sample_claim_env y" and "sys_flights (y :: mem_store system) = [sample_flight]"
    and "sys_db y = empty_db" and "sys_clock y = 1"
proof -
  let ?g = "paid_grant (sample_claim ''1.0'')"
  obtain s' where "allow mem_redis sample_config 1 ''u'' (gr_reference ?g) sample_store = (Inr True, s')"
    using sample_allow [of 1 "''u''" "gr_reference ?g", folded sample_store_def] by (metis prod.collapse)
  from sample_prepare [OF _ _ this] have prepare: "issue_prepare (sample_env 1 ''u'') ?g sample_body sample_store =
      (Inr (sample_request, sample_response), s')" by simp
  let ?y = "boot_system 1"
  have admit: "admit (rq_rt (sample_env 1 ''u'')) sample_config (sample_claim_env\<lparr>ce_stored := True\<rparr>) (sys_clock ?y) (Some (sample_header ''1.0''))
      (sys_db ?y) = (Inr (sample_claim ''1.0''), empty_db)"
    using sample_admit [of 1 empty_db] by (simp add: sample_claim_env_def sample_env_def boot_system_def)
  have prepared: "issue_prepare (sample_env 1 ''u'') ?g sample_body (sys_store ?y) = (Inr (sample_request, sample_response), s')"
    using prepare by (simp add: boot_system_def)
  from sys_reachable.step [OF boot_reachable sys_step.start_purchase [OF _ admit prepared, of "Some ''k''"]]
  show ?thesis by (rule that) (simp_all add: boot_system_def sample_flight_def)
qed

lemma sample_flight_commits:
  "\<exists>d'. issue_commit (sample_env 1 ''u'') (ticket_grant 1 (fl_ticket sample_flight)) (fl_key sample_flight) (fl_request sample_flight)
      (fl_response sample_flight) empty_db = (Inr sample_response, d') \<and> d' \<noteq> empty_db"
proof -
  have g: "gr_consume (paid_grant c) = None" "gr_reference (paid_grant (sample_claim ''1.0'')) = ''ref''" for c
    by (simp_all add: paid_grant_def sample_claim_def)
  have "find_idempotency ''ref'' ''k'' empty_db = None" by (simp add: find_idempotency_def lookup_by_def empty_db_def)
  then obtain d' where d': "issue_commit (sample_env 1 ''u'') (paid_grant (sample_claim ''1.0'')) (Some ''k'') sample_request sample_response
      empty_db = (Inr sample_response, d')"
    using sample_commit_key [OF g(1), of "''k''" "sample_claim ''1.0''" empty_db, where env = "sample_env 1 ''u''"
        and request = sample_request and response = sample_response] g(2) by auto
  moreover have "issuance_record d' \<noteq> issuance_record empty_db" using d'
  proof (cases rule: paid.issue_commit_Inr)
    case (issued idem)
    then show ?thesis using paid.record_body_Inr(1) [OF issued(2)] by simp
  next
    case (replay k row)
    then show ?thesis by (simp add: find_idempotency_def lookup_by_def empty_db_def)
  qed
  then have "d' \<noteq> empty_db" by blast
  ultimately show ?thesis by (auto simp: sample_flight_def)
qed

theorem concurrent_books_balance_witness:
  "\<exists>y. sys_reachable sample_config sample_claim_env (y :: mem_store system) \<and> length (issuance_record (sys_db y)) = 1
     \<and> books_balanced (sys_db y) \<and> snd (reconcile 5 (sys_db y) (sys_db y) empty_db) = empty_db"
proof -
  obtain y where y: "sys_reachable sample_config sample_claim_env y" "sys_flights (y :: mem_store system) = [sample_flight]"
    "sys_db y = empty_db" "sys_clock y = 1" by (rule sample_flight_reachable)
  obtain d' where d': "issue_commit (sample_env 1 ''u'') (ticket_grant 1 (fl_ticket sample_flight)) (fl_key sample_flight)
      (fl_request sample_flight) (fl_response sample_flight) empty_db = (Inr sample_response, d')" "d' \<noteq> empty_db"
    using sample_flight_commits by blast
  have "sys_step sample_config sample_claim_env y (y\<lparr>sys_db := d', sys_flights := [] @ [],
      sys_sold := sys_sold y @ sold_by (fl_ticket sample_flight) (sys_db y) d'\<rparr>)"
    by (rule sys_step.commit [where env = "sample_env 1 ''u''"]) (use y d'(1) in simp_all)
  note reach = sys_reachable.step [OF y(1) this]
  obtain row where "issuance_record d' = issuance_record empty_db @ [row]" by (rule commit_writes [OF d'])
  then have "length (issuance_record d') = 1" by (simp add: empty_db_def)
  with concurrent_books_balance [OF reach, of 5 empty_db] reach show ?thesis by (intro exI) auto
qed

text \<open>C10. The two queries of a reconciliation cycle are not one snapshot: in any state of the running issuer, let a cycle
  read the ledger, then any request in flight commit a bundle, then the cycle read the counters. It then raises a ledger
  mismatch of one bundle for that epoch and nothing else, although the books balance before and after.\<close>

theorem reconcile_race_alarm:
  fixes y :: "'s system" and env :: "'s request_env"
  assumes "sys_reachable config cenv y" and "sys_flights y = before @ f # after"
    and "rq_config env = config" and "rq_dbNow env = sys_clock y"
    and "issue_commit env (ticket_grant (sys_clock y) (fl_ticket f)) (fl_key f) (fl_request f) (fl_response f) (sys_db y) = (r, d')"
    and "d' \<noteq> sys_db y"
  shows "\<exists>y'. (sys_step config cenv)\<^sup>*\<^sup>* y y' \<and> books_balanced (sys_db y) \<and> books_balanced (sys_db y')
    \<and> (let e = req_epoch (fl_request f); n = ledger_bundles e (sys_db y) in
       sys_db y' = d'\<lparr>reconciliation_alarm := reconciliation_alarm (sys_db y) @
         [\<lparr>al_epoch = e, al_kind = ledger_mismatch, al_expected = n, al_actual = n + 1, al_delta = 1, al_raisedAt = sys_clock y\<rparr>]\<rparr>)"
proof -
  let ?m = "ledgerBundlesByEpoch (sys_db y)" and ?sold = "sys_sold y @ sold_by (fl_ticket f) (sys_db y) d'"
  let ?y1 = "y\<lparr>sys_cycles := sys_cycles y @ [LedgerRead ?m]\<rparr>"
  let ?y2 = "?y1\<lparr>sys_db := d', sys_flights := before @ after, sys_sold := ?sold\<rparr>"
  have 1: "sys_step config cenv y ?y1" by (rule sys_step.cycle_ledger)
  have 2: "sys_step config cenv ?y1 ?y2"
    using sys_step.commit [OF assms(3), of ?y1 before f after r d' cenv] assms(2,4,5) by simp
  have "sys_inv config ?y2" using sys_reachable_inv [OF assms(1)] sys_step_inv [OF 1] sys_step_inv [OF 2] by blast
  then have ok: "ledger_ok config d'" by (simp add: sys_inv_def)
  have "ledger_ok config (sys_db y)" "\<forall>g \<in> set (sys_flights y). flight_ok config (sys_db y) g"
    using sys_reachable_inv [OF assms(1)] by (simp_all add: sys_inv_def)
  then have same: "reconciliation_alarm d' = reconciliation_alarm (sys_db y)"
    using commit_tables [OF assms(5,3)] assms(2) by (simp add: flight_ok_def)
  obtain row where row: "issuance_record d' = issuance_record (sys_db y) @ [row]" "ir_epoch row = req_epoch (fl_request f)" "ir_bundleCount row = 1"
    by (rule commit_writes [OF assms(5,6)])
  obtain rc where rc: "due_alarms ?m d' = [(rc, ledger_mismatch)]" "rc_epoch rc = ir_epoch row"
    "rc_ledgerBundles rc = ledger_bundles (ir_epoch row) (sys_db y)" "rc_bundlesPaid rc = ledger_bundles (ir_epoch row) (sys_db y) + 1"
    by (rule stale_due [OF ok row(1,3)])
  let ?y3 = "?y2\<lparr>sys_cycles := sys_cycles y @ [Raising [(rc, ledger_mismatch)]]\<rparr>"
  let ?y4 = "?y3\<lparr>sys_cycles := sys_cycles y @ [Raising []], sys_db := raise_kind (sys_clock y) rc ledger_mismatch d'\<rparr>"
  have 3: "sys_step config cenv ?y2 ?y3"
    using sys_step.cycle_counters [of ?y2 "sys_cycles y" ?m "[]" config cenv] rc(1) by simp
  have 4: "sys_step config cenv ?y3 ?y4"
    using sys_step.cycle_raise [of ?y3 "sys_cycles y" rc ledger_mismatch "[]" "[]" config cenv] by simp
  have run: "(sys_step config cenv)\<^sup>*\<^sup>* y ?y4"
    using 1 2 3 4 by (meson converse_rtranclp_into_rtranclp r_into_rtranclp)
  have "books_balanced (sys_db z)" if "sys_reachable config cenv z" for z :: "'s system"
    using sys_reachable_inv [OF that] by (simp add: sys_inv_def ledger_ok_def books_ok_def issuer_books_def)
  from this [OF assms(1)] this [OF sys_reachable_run [OF run assms(1)]] run show ?thesis
    by (intro exI [of _ ?y4]) (simp add: Let_def raise_kind_alarm_of alarm_of_def rc row(2) same)
qed

theorem reconcile_race_alarm_witness:
  "\<exists>y :: mem_store system. sys_reachable sample_config sample_claim_env y \<and> books_balanced (sys_db y)
     \<and> map al_kind (reconciliation_alarm (sys_db y)) = [ledger_mismatch]"
proof -
  obtain y where y: "sys_reachable sample_config sample_claim_env y" "sys_flights (y :: mem_store system) = [sample_flight]"
    "sys_db y = empty_db" "sys_clock y = 1" by (rule sample_flight_reachable)
  obtain d' where d': "issue_commit (sample_env 1 ''u'') (ticket_grant 1 (fl_ticket sample_flight)) (fl_key sample_flight)
      (fl_request sample_flight) (fl_response sample_flight) empty_db = (Inr sample_response, d')" "d' \<noteq> empty_db"
    using sample_flight_commits by blast
  have "sys_flights y = [] @ sample_flight # []" using y(2) by simp
  moreover have "rq_config (sample_env 1 ''u'') = sample_config" "rq_dbNow (sample_env 1 ''u'') = sys_clock y" by (simp_all add: y(4))
  ultimately have race: "\<exists>y'. (sys_step sample_config sample_claim_env)\<^sup>*\<^sup>* y y' \<and> books_balanced (sys_db y) \<and> books_balanced (sys_db y')
    \<and> (let e = req_epoch (fl_request sample_flight); n = ledger_bundles e (sys_db y) in
       sys_db y' = d'\<lparr>reconciliation_alarm := reconciliation_alarm (sys_db y) @
         [\<lparr>al_epoch = e, al_kind = ledger_mismatch, al_expected = n, al_actual = n + 1, al_delta = 1, al_raisedAt = sys_clock y\<rparr>]\<rparr>)"
    by (rule reconcile_race_alarm [OF y(1), of "[]" sample_flight "[]" "sample_env 1 ''u''" "Inr sample_response" d'])
      (use d' y(3,4) in simp_all)
  have "reconciliation_alarm (sys_db y) = []" by (simp add: y(3) empty_db_def)
  moreover obtain y' where y': "(sys_step sample_config sample_claim_env)\<^sup>*\<^sup>* y y'" "books_balanced (sys_db y')"
    "sys_db y' = d'\<lparr>reconciliation_alarm := reconciliation_alarm (sys_db y) @
         [\<lparr>al_epoch = req_epoch (fl_request sample_flight), al_kind = ledger_mismatch,
            al_expected = ledger_bundles (req_epoch (fl_request sample_flight)) (sys_db y),
            al_actual = ledger_bundles (req_epoch (fl_request sample_flight)) (sys_db y) + 1, al_delta = 1, al_raisedAt = sys_clock y\<rparr>]\<rparr>"
    using race unfolding Let_def by (elim exE conjE)
  ultimately have "map al_kind (reconciliation_alarm (sys_db y')) = [ledger_mismatch]" by simp
  with sys_reachable_run [OF y'(1) y(1)] y'(2) show ?thesis by (intro exI [of _ y'] conjI)
qed

text \<open>C4. No interleaving lets a subscriber collect faster than the schedule. The bundles an entitlement collected are the
  ledger rows under its id, in whatever spelling, less those that purchases wrote under such a reference; in every
  state the running issuer reaches they are as many as its row counts drips, \<open>n\<close> of them were collected no earlier
  than \<open>n - 1\<close> intervals after registration on the database clock, and all of them fit before the next due time.\<close>

theorem concurrent_drip_rate:
  assumes "sys_reachable config cenv y" and "row \<in> set (entitlement (sys_db y))"
    and "n = int (length (filter (\<lambda>r. uuid_value (ir_paymentRef r) = en_entitlementId row) (issuance_record (sys_db y))))
      - int (length (filter (\<lambda>c. uuid_value (payment_ref c) = en_entitlementId row) (sys_sold y)))"
  shows "0 \<le> n \<and> n = en_dripsIssued row
    \<and> (0 < n \<longrightarrow> en_createdAt row + (n - 1) * (en_dripIntervalSeconds row * 1000) \<le> sys_clock y)
    \<and> en_createdAt row + n * (en_dripIntervalSeconds row * 1000) \<le> en_nextDripAt row"
proof -
  have inv: "rows_ok (sys_clock y) (sys_db y)" "rails_ok (sys_sold y) (sys_db y)"
    using sys_reachable_inv [OF assms(1)] by (simp_all add: sys_inv_def)
  have find_distinct: "distinct (map en_entitlementId (entitlement (sys_db y)))"
    using inv(1) by (simp add: rows_ok_def entitlements_ok_def entitlements_keyed_def)
  have "lookup_by en_entitlementId (en_entitlementId row) (entitlement (sys_db y)) = Some row"
    unfolding lookup_by_def by (rule find_distinct_key) (use find_distinct assms(2) in auto)
  then have n: "n = en_dripsIssued row"
    using inv(2) assms(3) by (simp add: rails_ok_def named_by_def drips_of_def filter_map comp_def)
  have "row_paced row" "row_timely (sys_clock y) row"
    using inv(1) assms(2) by (simp_all add: rows_ok_def entitlements_ok_def)
  then show ?thesis unfolding n by (auto simp: row_paced_def row_timely_def algebra_simps split: if_splits)
qed

theorem concurrent_drip_rate_witness:
  "\<exists>y row. sys_reachable sample_config sample_claim_env (y :: mem_store system) \<and> row \<in> set (entitlement (sys_db y))
     \<and> int (length (filter (\<lambda>r. uuid_value (ir_paymentRef r) = en_entitlementId row) (issuance_record (sys_db y))))
       - int (length (filter (\<lambda>c. uuid_value (payment_ref c) = en_entitlementId row) (sys_sold y))) = 1
     \<and> en_createdAt row \<le> sys_clock y"
proof -
  obtain r1 where "register (sample_env 0 sample_uuid) (JObj [(''receipt'', JStr '' r '')]) (sys_db (boot_system 0)) = (Inr r1, sample_subscribed)"
    by (rule sample_registered) (simp add: boot_system_def)
  then have "sys_step sample_config sample_claim_env (boot_system 0) ((boot_system 0)\<lparr>sys_db := sample_subscribed\<rparr>)"
    by (rule sys_step.enrol [rotated 2]) (simp_all add: boot_system_def)
  note enrolled = sys_reachable.step [OF boot_reachable this]
  let ?y = "(boot_system 0)\<lparr>sys_db := sample_subscribed, sys_clock := 5000\<rparr>"
  have reach: "sys_reachable sample_config sample_claim_env ?y"
    by (rule sys_reachable.step [OF enrolled], rule sys_step.tick) (simp add: boot_system_def)
  obtain s' d' where p: "pickup (sample_env 5000 ''u'') (Some sample_uuid) None sample_body (sample_store, sample_subscribed) = (Inr sample_response, s', d')"
    by (rule sample_pickup)
  have at: "(sys_store ?y, sys_db ?y) = (sample_store, sample_subscribed)" by (simp add: boot_system_def)
  have "left_by sample_config sample_claim_env ?y s' d'" by (rule pickup_run [OF p [folded at]]) simp_all
  then obtain sold where "(sys_step sample_config sample_claim_env)\<^sup>*\<^sup>* ?y (?y\<lparr>sys_store := s', sys_db := d', sys_sold := sold\<rparr>)"
    unfolding left_by_def by blast
  note reached = sys_reachable_run [OF this reach]
  have "entitlement d' = [drip_row 5000 60 sample_entitlement]" by (rule sample_pickup_db(1) [OF p])
  then have "drip_row 5000 60 sample_entitlement \<in> set (entitlement d')" "en_dripsIssued (drip_row 5000 60 sample_entitlement) = 1"
    by (simp_all add: drip_row_def sample_entitlement_def)
  with concurrent_drip_rate [OF reached, of "drip_row 5000 60 sample_entitlement", OF _ refl] reached show ?thesis
    by (intro exI [of _ "?y\<lparr>sys_store := s', sys_db := d', sys_sold := sold\<rparr>"] exI [of _ "drip_row 5000 60 sample_entitlement"]) auto
qed

end
