(* ===== verification/Conformance.thy ===== *)
theory Conformance
  imports HarnessClient
begin

text \<open>
  The judging half of the buyer harness: the conformance checks (\<open>conformance.ts\<close>), blinding (\<open>blinding.ts\<close>) and one
  whole purchase (\<open>purchase.ts\<close>).

  \<open>@cloudflare/blindrsa-ts\<close> and its randomness are a parameter. Promises that run together are listed in order, so
  of several failures the first is reported.
\<close>

record bundle_parameters =
  bp_bundleSize :: nat
  bp_blankSizeBytes :: nat
  bp_signatureSizeBytes :: nat

definition DEFAULT_BUNDLE_PARAMETERS :: bundle_parameters where
  "DEFAULT_BUNDLE_PARAMETERS = \<lparr>bp_bundleSize = 10, bp_blankSizeBytes = 256, bp_signatureSizeBytes = 256\<rparr>"

subsection \<open>Checks\<close>

record check_result =
  ck_name :: string
  ck_passed :: bool
  ck_detail :: string

record conformance_report =
  cr_checks :: "check_result list"
  cr_passed :: bool

definition report :: "check_result list \<Rightarrow> conformance_report" where
  "report checks = \<lparr>cr_checks = checks, cr_passed = list_all ck_passed checks\<rparr>"

definition failures :: "conformance_report \<Rightarrow> check_result list" where
  "failures r = filter (\<lambda>c. \<not> ck_passed c) (cr_checks r)"

definition pass :: "string \<Rightarrow> string \<Rightarrow> check_result" where
  "pass name detail = \<lparr>ck_name = name, ck_passed = True, ck_detail = detail\<rparr>"

definition fail :: "string \<Rightarrow> string \<Rightarrow> check_result" where
  "fail name detail = \<lparr>ck_name = name, ck_passed = False, ck_detail = detail\<rparr>"

definition MAX_REPORTED_OFFENDERS :: nat where "MAX_REPORTED_OFFENDERS = 3"

text \<open>\<open>items.slice(0, 3).join(sep)\<close> and how many more there are.\<close>

definition shown :: "string \<Rightarrow> string list \<Rightarrow> string" where
  "shown sep items =
     (let rest = length items - MAX_REPORTED_OFFENDERS
      in joined_with sep (take MAX_REPORTED_OFFENDERS items)
         @ (if 0 < rest then '' (and '' @ show_nat rest @ '' more)'' else []))"

definition decodeStrict :: "runtime \<Rightarrow> jsval \<Rightarrow> bytes option" where
  "decodeStrict rt value =
     (case value of
        JStr s \<Rightarrow>
          if s = [] \<or> length s mod 4 \<noteq> 0 then None
          else if \<not> strict_pattern s then None
          else (let decoded = base64ToBytes rt s in if bytesToBase64 decoded = s then Some decoded else None)
      | _ \<Rightarrow> None)"

definition blob_offence :: "runtime \<Rightarrow> nat \<Rightarrow> nat \<times> jsval \<Rightarrow> string list" where
  "blob_offence rt expectedBytes ib =
     (case decodeStrict rt (snd ib) of
        None \<Rightarrow> [''blob '' @ show_nat (fst ib) @ '' is not valid base64'']
      | Some decoded \<Rightarrow>
          if length decoded \<noteq> expectedBytes
          then [''blob '' @ show_nat (fst ib) @ '' decoded to '' @ show_nat (length decoded) @ '' bytes''] else [])"

definition checkSignatureSize :: "runtime \<Rightarrow> jsval list \<Rightarrow> nat \<Rightarrow> check_result" where
  "checkSignatureSize rt blobs expectedBytes =
     (let offenders = concat (map (blob_offence rt expectedBytes) (enumerate 0 blobs)) in
      if offenders = []
      then pass ''signature size'' (''all '' @ show_nat (length blobs) @ '' blobs are '' @ show_nat expectedBytes @ '' bytes'')
      else fail ''signature size'' (''expected '' @ show_nat expectedBytes @ '' bytes: '' @ shown ''; '' offenders))"

text \<open>\<open>a === b\<close> of two parsed values: objects are never identical.\<close>

fun strict_equal :: "runtime \<Rightarrow> jsval \<Rightarrow> jsval \<Rightarrow> bool" where
  "strict_equal rt (JStr a) (JStr b) = (a = b)"
| "strict_equal rt (JBool a) (JBool b) = (a = b)"
| "strict_equal rt JNull JNull = True"
| "strict_equal rt JUndefined JUndefined = True"
| "strict_equal rt (JNum a) (JNum b) = (js_Number rt a = js_Number rt b \<and> js_Number rt a \<noteq> NaN)"
| "strict_equal rt _ _ = False"

definition checkBundle :: "runtime \<Rightarrow> jsval \<Rightarrow> jsval \<Rightarrow> bundle_parameters \<Rightarrow> conformance_report" where
  "checkBundle rt response expectedEpoch parameters =
     (case get_prop response ''blind_signatures'' of
        JArr blobs \<Rightarrow>
          report
            [if length blobs = bp_bundleSize parameters
             then pass ''bundle count'' (show_nat (length blobs) @ '' blobs, as configured'')
             else fail ''bundle count'' (''expected '' @ show_nat (bp_bundleSize parameters) @ '' blobs, got '' @ show_nat (length blobs)),
             checkSignatureSize rt blobs (bp_signatureSizeBytes parameters),
             let epoch = get_prop response ''epoch'' in
             if strict_equal rt epoch expectedEpoch then pass ''epoch echoed'' (''epoch '' @ js_text rt epoch)
             else fail ''epoch echoed'' (''expected epoch '' @ js_text rt expectedEpoch @ '', got '' @ js_text rt epoch)]
      | _ \<Rightarrow> report [fail ''bundle shape'' ''response has no blind_signatures array''])"

definition document_fields :: "string list" where
  "document_fields = [''epoch_id'', ''not_before'', ''not_after'', ''alg'', ''pubkey'']"

definition checkKeyDocument :: "runtime \<Rightarrow> jsval \<Rightarrow> conformance_report" where
  "checkKeyDocument rt document =
     (let missing = filter (\<lambda>field. nonempty_string (get_prop document field) = None) document_fields;
          text_of = (\<lambda>field. js_string (get_prop document field)) in
      if missing \<noteq> [] then report [fail ''key document fields'' (''missing or empty: '' @ joined_with '', '' missing)]
      else report
        [pass ''key document fields'' (''epoch '' @ text_of ''epoch_id''),
         if text_of ''alg'' = BLIND_SIGNATURE_SUITE then pass ''key document suite'' (text_of ''alg'')
         else fail ''key document suite'' (''expected '' @ BLIND_SIGNATURE_SUITE @ '', got '' @ text_of ''alg''),
         if (case (date_parse rt (text_of ''not_before''), date_parse rt (text_of ''not_after'')) of
               (Some notBefore, Some notAfter) \<Rightarrow> notBefore < notAfter | _ \<Rightarrow> False)
         then pass ''key document validity window'' (text_of ''not_before'' @ '' to '' @ text_of ''not_after'')
         else fail ''key document validity window''
           (''not_before '' @ text_of ''not_before'' @ '' must precede not_after '' @ text_of ''not_after'')])"

subsection \<open>Blinding\<close>

record credential =
  cd_message :: string
  cd_signature :: string

text \<open>The suite: importing a key, blinding blank number \<open>i\<close> of a purchase (prepared message, blinded message,
  inverse), finalizing and verifying. \<open>bs_loose\<close> is \<open>finalize\<close> of the harness on a value that is no array.\<close>

record ('k, 'inv) blind_suite =
  bs_import :: "bytes \<Rightarrow> string + 'k"
  bs_blind :: "'k \<Rightarrow> nat \<Rightarrow> string + bytes \<times> bytes \<times> 'inv"
  bs_finalize :: "'k \<Rightarrow> bytes \<Rightarrow> bytes \<Rightarrow> 'inv \<Rightarrow> string + bytes"
  bs_verify :: "'k \<Rightarrow> bytes \<Rightarrow> bytes \<Rightarrow> string + bool"
  bs_blindSettles :: "nat list"  \<comment> \<open>the order in which the promises of one \<open>prepare\<close> settle\<close>
  bs_finalizeSettles :: "nat list"  \<comment> \<open>and of one \<open>finalize\<close>\<close>
  bs_loose :: "jsval \<Rightarrow> string + credential list"

record ('k, 'inv) prepared_bundle =
  pb_key :: 'k
  pb_blinds :: "(bytes \<times> bytes \<times> 'inv) list"

definition buffer_of :: "runtime \<Rightarrow> jsval \<Rightarrow> string + bytes" where
  "buffer_of rt v = (case v of JStr s \<Rightarrow> Inr (base64ToBytes rt s) | _ \<Rightarrow> loose_buffer rt v)"

definition blind_prepare ::
  "runtime \<Rightarrow> ('k, 'inv) blind_suite \<Rightarrow> nat \<Rightarrow> jsval \<Rightarrow> harness_error + ('k, 'inv) prepared_bundle" where
  "blind_prepare rt S count publicKeySpki =
     (case buffer_of rt publicKeySpki of Inl e \<Rightarrow> Inl (HarnessTypeError e) | Inr spki \<Rightarrow>
      (case bs_import S spki of Inl e \<Rightarrow> Inl (HarnessError e) | Inr key \<Rightarrow>
      (case promise_all (bs_blindSettles S) (map (bs_blind S key) [0..<count]) of Inl e \<Rightarrow> Inl (HarnessError e)
       | Inr blinds \<Rightarrow> Inr \<lparr>pb_key = key, pb_blinds = blinds\<rparr>)))"

definition blindedBlanks :: "('k, 'inv) prepared_bundle \<Rightarrow> string list" where
  "blindedBlanks p = map (\<lambda>(prepared, blindedMsg, unblind). bytesToBase64 blindedMsg) (pb_blinds p)"

definition finalize_one ::
  "runtime \<Rightarrow> ('k, 'inv) blind_suite \<Rightarrow> 'k \<Rightarrow> (bytes \<times> bytes \<times> 'inv) \<times> jsval \<Rightarrow> string + credential" where
  "finalize_one rt S key bv =
     (case bv of ((prepared, blindedMsg, unblind), v) \<Rightarrow>
        (case buffer_of rt v of Inl e \<Rightarrow> Inl e | Inr blindSig \<Rightarrow>
        (case bs_finalize S key prepared blindSig unblind of Inl e \<Rightarrow> Inl e
         | Inr signature \<Rightarrow> Inr \<lparr>cd_message = bytesToBase64 prepared, cd_signature = bytesToBase64 signature\<rparr>)))"

definition blind_finalize ::
  "runtime \<Rightarrow> ('k, 'inv) blind_suite \<Rightarrow> ('k, 'inv) prepared_bundle \<Rightarrow> jsval \<Rightarrow> string + credential list" where
  "blind_finalize rt S p blindSignatures =
     (case blindSignatures of
        JArr vs \<Rightarrow>
          if length vs \<noteq> length (pb_blinds p)
          then Inl (''expected '' @ show_nat (length (pb_blinds p)) @ '' blind signatures to finalize, got '' @ show_nat (length vs))
          else promise_all (bs_finalizeSettles S) (map (finalize_one rt S (pb_key p)) (zip (pb_blinds p) vs))
      | _ \<Rightarrow> bs_loose S blindSignatures)"

definition blind_verify :: "runtime \<Rightarrow> ('k, 'inv) blind_suite \<Rightarrow> ('k, 'inv) prepared_bundle \<Rightarrow> credential \<Rightarrow> string + bool" where
  "blind_verify rt S p c = bs_verify S (pb_key p) (base64ToBytes rt (cd_signature c)) (base64ToBytes rt (cd_message c))"

definition checkSignaturesVerify ::
  "runtime \<Rightarrow> ('k, 'inv) blind_suite \<Rightarrow> ('k, 'inv) prepared_bundle \<Rightarrow> jsval \<Rightarrow> string + check_result \<times> credential list" where
  "checkSignaturesVerify rt S p blindSignatures =
     (case blind_finalize rt S p blindSignatures of
        Inl e \<Rightarrow> Inr (fail ''signature verifies'' (''could not unblind: '' @ e), [])
      | Inr credentials \<Rightarrow>
          (case map_result (blind_verify rt S p) credentials of
             Inl e \<Rightarrow> Inl e
           | Inr verified \<Rightarrow>
               (let invalid = map fst (filter (\<lambda>iv. \<not> snd iv) (enumerate 0 verified)) in
                if invalid \<noteq> []
                then Inr (fail ''signature verifies'' (''did not verify under the epoch public key: blob '' @ shown '', '' (map show_nat invalid)), credentials)
                else Inr (pass ''signature verifies'' (''all '' @ show_nat (length credentials) @ '' signatures verify under the epoch public key''), credentials))))"

subsection \<open>One purchase\<close>

record 'w purchase_options =
  po_client :: "'w client_options"
  po_parameters :: "bundle_parameters option"
  po_epoch :: "string option"

record purchase_result =
  pr_epoch :: jsval
  pr_paymentFlow :: payment_flow
  pr_response :: jsval
  pr_credentials :: "credential list"
  pr_conformance :: conformance_report

definition checkKeys :: "'w client_options \<Rightarrow> 'w \<Rightarrow> (harness_error + jsval \<times> conformance_report) \<times> client_event list \<times> 'w" where
  "checkKeys opts w =
     (case keyDocument opts (direct, w) of
        (Inl e, tr, _, w') \<Rightarrow> (Inl e, tr, w')
      | (Inr document, tr, _, w') \<Rightarrow>
          (Inr (document, report (cr_checks (checkKeyDocument (co_rt opts) document))), tr, w'))"

definition harness_purchaseBundle ::
  "('k, 'inv) blind_suite \<Rightarrow> 'w purchase_options \<Rightarrow> 'w \<Rightarrow> (harness_error + purchase_result) \<times> client_event list \<times> 'w"
where
  "harness_purchaseBundle S options w =
     (let opts = po_client options; rt = co_rt opts;
          parameters = (case po_parameters options of None \<Rightarrow> DEFAULT_BUNDLE_PARAMETERS | Some ps \<Rightarrow> ps)
      in case keyDocument opts (direct, w) of
           (Inl e, tr1, _, w1) \<Rightarrow> (Inl e, tr1, w1)
         | (Inr document, tr1, f1, w1) \<Rightarrow>
             if document = JNull then (Inl (HarnessTypeError ''null is not an object''), tr1, w1)
             else
               (let keyChecks = checkKeyDocument rt document;
                    epoch = (case po_epoch options of None \<Rightarrow> get_prop document ''epoch_id'' | Some e \<Rightarrow> JStr e)
                in case blind_prepare rt S (bp_bundleSize parameters) (get_prop document ''pubkey'') of
                     Inl e \<Rightarrow> (Inl e, tr1, w1)
                   | Inr prepared \<Rightarrow>
                       (case client_purchaseBundle opts epoch (blindedBlanks prepared) (f1, w1) of
                          (Inl e, tr2, _, w2) \<Rightarrow> (Inl e, tr1 @ tr2, w2)
                        | (Inr response, tr2, f2, w2) \<Rightarrow>
                            if response = JNull then (Inl (HarnessTypeError ''null is not an object''), tr1 @ tr2, w2)
                            else
                              (let bundleChecks = checkBundle rt response epoch parameters
                               in case checkSignaturesVerify rt S prepared (get_prop response ''blind_signatures'') of
                                    Inl e \<Rightarrow> (Inl (HarnessError e), tr1 @ tr2, w2)
                                  | Inr (check, credentials) \<Rightarrow>
                                      (Inr \<lparr>pr_epoch = epoch, pr_paymentFlow = f2, pr_response = response,
                                           pr_credentials = credentials,
                                           pr_conformance = report (cr_checks keyChecks @ cr_checks bundleChecks @ [check])\<rparr>,
                                       tr1 @ tr2, w2)))))"

subsection \<open>What the checks accept\<close>

lemma decodeStrict_agrees: "decodeStrict rt v = decodeStrictBase64 rt v"
  by (simp add: decodeStrict_def decodeStrictBase64_def)

lemma pass_fail [simp]: "ck_passed (pass n d)" "\<not> ck_passed (fail n d)"
  by (simp_all add: pass_def fail_def)

lemma cr_passed_report [simp]: "cr_passed (report cs) = list_all ck_passed cs" "cr_checks (report cs) = cs"
  by (simp_all add: report_def)

lemma blob_offence_Nil:
  assumes "0 < n"
  shows "blob_offence rt n ib = [] \<longleftrightarrow> (\<exists>sig. length sig = n \<and> snd ib = JStr (bytesToBase64 sig))"
proof (cases "decodeStrictBase64 rt (snd ib)")
  case None
  then have "snd ib \<noteq> JStr (bytesToBase64 sig) \<or> sig = []" for sig
    using decodeStrictBase64_iff [of rt "snd ib" sig] by simp
  then have "\<not> (\<exists>sig. length sig = n \<and> snd ib = JStr (bytesToBase64 sig))" using assms by fastforce
  with None show ?thesis by (simp add: blob_offence_def decodeStrict_agrees)
next
  case (Some decoded)
  then have "snd ib = JStr (bytesToBase64 decoded)" by (simp add: decodeStrictBase64_iff)
  moreover have "bytesToBase64 decoded = bytesToBase64 sig \<longleftrightarrow> decoded = sig" for sig
    by (metis base64_roundtrip)
  ultimately show ?thesis using Some by (auto simp: blob_offence_def decodeStrict_agrees)
qed

lemma all_encoded:
  "(\<forall>b \<in> set blobs. \<exists>sig. length sig = n \<and> b = JStr (bytesToBase64 sig)) \<longleftrightarrow>
   (\<exists>sigs. blobs = map (\<lambda>sig. JStr (bytesToBase64 sig)) sigs \<and> (\<forall>sig \<in> set sigs. length sig = n))"
proof
  assume "\<forall>b \<in> set blobs. \<exists>sig. length sig = n \<and> b = JStr (bytesToBase64 sig)"
  then obtain f where f: "\<forall>b \<in> set blobs. length (f b) = n \<and> b = JStr (bytesToBase64 (f b))" by metis
  then have "blobs = map (\<lambda>sig. JStr (bytesToBase64 sig)) (map f blobs)" by (simp add: map_idI)
  with f show "\<exists>sigs. blobs = map (\<lambda>sig. JStr (bytesToBase64 sig)) sigs \<and> (\<forall>sig \<in> set sigs. length sig = n)"
    by (intro exI [of _ "map f blobs"]) simp
qed (auto, blast)

lemma signature_size_passed:
  assumes "0 < n"
  shows "ck_passed (checkSignatureSize rt blobs n) \<longleftrightarrow>
    (\<exists>sigs. blobs = map (\<lambda>sig. JStr (bytesToBase64 sig)) sigs \<and> (\<forall>sig \<in> set sigs. length sig = n))"
proof -
  have "ck_passed (checkSignatureSize rt blobs n) \<longleftrightarrow> (\<forall>ib \<in> set (enumerate 0 blobs). blob_offence rt n ib = [])"
    by (simp add: checkSignatureSize_def Let_def)
  also have "\<dots> \<longleftrightarrow> (\<forall>b \<in> set (map snd (enumerate 0 blobs)). \<exists>sig. length sig = n \<and> b = JStr (bytesToBase64 sig))"
    by (simp add: blob_offence_Nil [OF assms] del: map_snd_enumerate)
  finally show ?thesis by (simp add: all_encoded)
qed

lemma bundle_passed:
  assumes "0 < bp_signatureSizeBytes ps"
  shows "cr_passed (checkBundle rt response (JStr epoch) ps) \<longleftrightarrow>
    (\<exists>sigs. get_prop response ''blind_signatures'' = JArr (map (\<lambda>sig. JStr (bytesToBase64 sig)) sigs)
       \<and> length sigs = bp_bundleSize ps \<and> (\<forall>sig \<in> set sigs. length sig = bp_signatureSizeBytes ps)
       \<and> get_prop response ''epoch'' = JStr epoch)"
proof (cases "\<exists>blobs. get_prop response ''blind_signatures'' = JArr blobs")
  case True
  then obtain blobs where blobs: "get_prop response ''blind_signatures'' = JArr blobs" by blast
  have eq: "strict_equal rt v (JStr epoch) \<longleftrightarrow> v = JStr epoch" for v by (cases v) auto
  have "cr_passed (checkBundle rt response (JStr epoch) ps) \<longleftrightarrow>
      length blobs = bp_bundleSize ps \<and> ck_passed (checkSignatureSize rt blobs (bp_signatureSizeBytes ps))
      \<and> get_prop response ''epoch'' = JStr epoch"
    by (simp add: checkBundle_def blobs Let_def eq)
  then show ?thesis unfolding signature_size_passed [OF assms] by (auto simp: blobs)
next
  case False
  then have "\<not> cr_passed (checkBundle rt response (JStr epoch) ps)"
    by (auto simp: checkBundle_def split: jsval.splits)
  with False show ?thesis by auto
qed

lemma document_passed:
  "cr_passed (checkKeyDocument rt document) \<longleftrightarrow>
     (\<forall>field \<in> set document_fields. nonempty_string (get_prop document field) \<noteq> None)
     \<and> get_prop document ''alg'' = JStr BLIND_SIGNATURE_SUITE
     \<and> (\<exists>t0 t1. date_parse rt (js_string (get_prop document ''not_before'')) = Some t0
            \<and> date_parse rt (js_string (get_prop document ''not_after'')) = Some t1 \<and> t0 < t1)"
proof (cases "\<forall>field \<in> set document_fields. nonempty_string (get_prop document field) \<noteq> None")
  case True
  then have none: "filter (\<lambda>field. nonempty_string (get_prop document field) = None) document_fields = []"
    by (simp add: filter_empty_conv)
  have "nonempty_string (get_prop document ''alg'') \<noteq> None" using True by (simp add: document_fields_def)
  then obtain a where a: "get_prop document ''alg'' = JStr a" by fastforce
  show ?thesis using True by (simp add: checkKeyDocument_def none a Let_def split: option.splits)
next
  case False
  then have "filter (\<lambda>field. nonempty_string (get_prop document field) = None) document_fields \<noteq> []"
    by (simp add: filter_empty_conv)
  with False show ?thesis by (simp add: checkKeyDocument_def Let_def)
qed

lemma finalize_count: "blind_finalize rt S p (JArr vs) = Inr cs \<Longrightarrow> length cs = length (pb_blinds p)"
  by (auto simp: blind_finalize_def promise_all_map_result split: if_splits dest: map_result_length)

lemma blind_prepare_count: "blind_prepare rt S n v = Inr p \<Longrightarrow> length (pb_blinds p) = n"
  by (auto simp: blind_prepare_def promise_all_map_result split: sum.splits dest: map_result_length)

lemma verified_passed:
  assumes "checkSignaturesVerify rt S p v = Inr (check, cs)" and "ck_passed check"
  shows "blind_finalize rt S p v = Inr cs" and "\<forall>c \<in> set cs. blind_verify rt S p c = Inr True"
proof -
  obtain cs' where f: "blind_finalize rt S p v = Inr cs'"
    using assms by (auto simp: checkSignaturesVerify_def split: sum.splits)
  with assms(1) obtain verified where v: "map_result (blind_verify rt S p) cs' = Inr verified"
    by (auto simp: checkSignaturesVerify_def split: sum.splits)
  with f have inv: "filter (\<lambda>iv. \<not> snd iv) (enumerate 0 verified) = []" "cs = cs'"
    using assms by (auto simp: checkSignaturesVerify_def Let_def split: if_splits)
  then have "\<forall>b \<in> set (map snd (enumerate 0 verified)). b"
    by (simp add: filter_empty_conv del: map_snd_enumerate)
  then have "set (map (blind_verify rt S p) cs') \<subseteq> {Inr True}"
    using v unfolding map_result_Inr_iff by auto
  with inv f show "blind_finalize rt S p v = Inr cs" "\<forall>c \<in> set cs. blind_verify rt S p c = Inr True" by auto
qed

lemma purchase_result:
  assumes "harness_purchaseBundle S options w = (Inr result, tr, w')"
    and "po_parameters options = Some ps"
  obtains document prepared check f1 w1 tr1 tr2 where
    "keyDocument (po_client options) (direct, w) = (Inr document, tr1, f1, w1)"
    and "blind_prepare (co_rt (po_client options)) S (bp_bundleSize ps) (get_prop document ''pubkey'') = Inr prepared"
    and "client_purchaseBundle (po_client options) (pr_epoch result) (blindedBlanks prepared) (f1, w1)
      = (Inr (pr_response result), tr2, pr_paymentFlow result, w')"
    and "pr_epoch result = (case po_epoch options of None \<Rightarrow> get_prop document ''epoch_id'' | Some e \<Rightarrow> JStr e)"
    and "checkSignaturesVerify (co_rt (po_client options)) S prepared (get_prop (pr_response result) ''blind_signatures'')
      = Inr (check, pr_credentials result)"
    and "pr_conformance result = report (cr_checks (checkKeyDocument (co_rt (po_client options)) document)
      @ cr_checks (checkBundle (co_rt (po_client options)) (pr_response result) (pr_epoch result) ps) @ [check])"
    and "tr = tr1 @ tr2"
  using assms
  by (auto simp: harness_purchaseBundle_def Let_def split: prod.splits sum.splits if_splits)

lemma entry_document_passed:
  assumes "keyring_ok k" and "currentEpoch k = Inr entry"
  shows "cr_passed (checkKeyDocument rt (published_json (publishedDocument entry)))"
proof -
  have "entry_ok entry" using assms(2) currentEpoch_ok [OF assms(1)] assms(1) by (auto simp: keyring_ok_def)
  then obtain t0 t1 der where t: "iso_time (not_before entry) = Some t0" "iso_time (not_after entry) = Some t1" "t0 < t1"
    "alg entry = BLIND_SIGNATURE_SUITE" "epoch_id entry \<noteq> []" "pubkey entry = bytesToBase64 der" "der \<noteq> []"
    by (auto simp: entry_ok_def)
  then have "not_before entry \<noteq> []" "not_after entry \<noteq> []" "pubkey entry \<noteq> []" "alg entry \<noteq> []"
    by (auto simp: iso_time_def iso_candidate_def BLIND_SIGNATURE_SUITE_def)
  with t show ?thesis
    unfolding document_passed by (simp add: document_fields_def published_json_def publishedDocument_def)
qed

lemma report_passes:
  "list_all ck_passed (cr_checks (checkKeyDocument rt document)) = cr_passed (checkKeyDocument rt document)"
  "list_all ck_passed (cr_checks (checkBundle rt response epoch ps)) = cr_passed (checkBundle rt response epoch ps)"
  by (simp_all add: checkKeyDocument_def checkBundle_def Let_def split: jsval.splits)

end
