(* ===== verification/HarnessCli.thy ===== *)
theory HarnessCli
  imports Conformance ParseArgs JsonPretty
begin

text \<open>
  The command line of the buyer harness, \<open>cli.ts\<close>: from the arguments to the lines it prints and the code it exits with.
  What it meets outside (runtime, network, Ed25519, files, random ids) is the record \<open>cli_world\<close>.
\<close>

datatype exit_status = EXIT_OK | EXIT_NONCONFORMING | EXIT_UNUSABLE | Uncaught harness_error

text \<open>The number the process ends with; for an uncaught exception that is the runtime's, 1.\<close>

fun exit_code :: "exit_status \<Rightarrow> nat" where
  "exit_code EXIT_OK = 0"
| "exit_code EXIT_NONCONFORMING = 1"
| "exit_code EXIT_UNUSABLE = 2"
| "exit_code (Uncaught _) = 1"

record ('sk, 'pk, 'w) cli_world =
  cw_rt :: runtime
  cw_fetch :: "'w fetch"
  cw_ed25519 :: "('sk, 'pk) ed25519"
  cw_readFile :: "string \<Rightarrow> string + string"  \<comment> \<open>\<open>Inl\<close>: the message of the error\<close>
  cw_args_message :: "args_error \<Rightarrow> string"
  cw_uuid :: string
  cw_payer :: string
  cw_txHash :: string

definition newline :: string where "newline = [CHR 0x0A]"

definition USAGE :: string where
  "USAGE =
     (let d = DEFAULT_BUNDLE_PARAMETERS in joined_with newline
       [''buyer-harness --url <issuer base url> [options]'',
        [],
        ''Buys one bundle and judges the response against the issuer contract.'',
        [],
        ''  --url <url>              issuer base URL (required)'',
        ''  --bundle-size <k>        credentials per bundle (default '' @ show_nat (bp_bundleSize d) @ '')'',
        ''  --blank-size <bytes>     blinded blank size (default '' @ show_nat (bp_blankSizeBytes d) @ '')'',
        ''  --signature-size <bytes> expected blob size (default '' @ show_nat (bp_signatureSizeBytes d) @ '')'',
        ''  --epoch <id>             epoch to request (default: the issuer's current epoch)'',
        ''  --payment-ref <ref>      payment reference to claim (default: random)'',
        ''  --idempotency-key <key>  send an Idempotency-Key header'',
        ''  --proxy-key <path>       proxy Ed25519 signing key (PKCS#8 PEM), required by'',
        ''                           --payment stub-claim because the issuer verifies'',
        ''                           proxy_sig from M1.4'',
        ''  --amount <decimal>       amount to claim (default 1.00)'',
        ''  --route-id <id>          route id to claim (default route-1)'',
        ''  --payment <mode>         stub-claim (default) talks straight to an issuer with a'',
        ''                           synthetic claim; stub-receipt runs the full'',
        ''                           request -> 402 -> pay -> retry flow through a proxy,'',
        ''                           with the payment itself stubbed; none sends nothing'',
        ''  --keys-only              check the key document and stop, buying nothing.'',
        ''                           The only conformance an outside caller can run'',
        ''                           against a deployment: purchasing needs the fronting'',
        ''                           proxy's signing key.'',
        ''  --json                   emit the report as JSON'',
        ''  --help'',
        [],
        ''Exit codes: '' @ show_nat (exit_code EXIT_OK) @ '' conforming, '' @ show_nat (exit_code EXIT_NONCONFORMING)
          @ '' nonconforming, '' @ show_nat (exit_code EXIT_UNUSABLE) @ '' unusable (bad flags, issuer unreachable).''])"

subsection \<open>Flags\<close>

definition cli_options :: arg_table where
  "cli_options =
     [(''url'', text_option None), (''bundle-size'', text_option None), (''blank-size'', text_option None),
      (''signature-size'', text_option None), (''epoch'', text_option None), (''payment-ref'', text_option None),
      (''idempotency-key'', text_option None), (''payment'', text_option (Some ''stub-claim'')),
      (''proxy-key'', text_option None), (''amount'', text_option None), (''route-id'', text_option None),
      (''keys-only'', switch_option), (''json'', switch_option), (''help'', switch_option)]"

record cli_values =
  cv_url :: "string option"
  cv_bundle_size :: "string option"
  cv_blank_size :: "string option"
  cv_signature_size :: "string option"
  cv_epoch :: "string option"
  cv_payment_ref :: "string option"
  cv_idempotency_key :: "string option"
  cv_payment :: "string option"
  cv_proxy_key :: "string option"
  cv_amount :: "string option"
  cv_route_id :: "string option"
  cv_keys_only :: bool
  cv_json :: bool
  cv_help :: bool

definition cli_flags :: "arg_values \<Rightarrow> cli_values" where
  "cli_flags v =
     \<lparr>cv_url = text_arg (v ''url''), cv_bundle_size = text_arg (v ''bundle-size''), cv_blank_size = text_arg (v ''blank-size''),
      cv_signature_size = text_arg (v ''signature-size''), cv_epoch = text_arg (v ''epoch''),
      cv_payment_ref = text_arg (v ''payment-ref''), cv_idempotency_key = text_arg (v ''idempotency-key''),
      cv_payment = text_arg (v ''payment''), cv_proxy_key = text_arg (v ''proxy-key''), cv_amount = text_arg (v ''amount''),
      cv_route_id = text_arg (v ''route-id''), cv_keys_only = switch_arg (v ''keys-only''), cv_json = switch_arg (v ''json''),
      cv_help = switch_arg (v ''help'')\<rparr>"

definition or_default :: "string option \<Rightarrow> string \<Rightarrow> string" where
  "or_default v d = (case v of None \<Rightarrow> d | Some s \<Rightarrow> s)"

definition cli_positiveInt :: "runtime \<Rightarrow> string option \<Rightarrow> nat \<Rightarrow> string \<Rightarrow> harness_error + nat" where
  "cli_positiveInt rt value fallback flag =
     (case value of
        None \<Rightarrow> Inr fallback
      | Some v \<Rightarrow>
          (case js_Number rt v of
             Integer n \<Rightarrow>
               if n \<le> 0 then Inl (HarnessTypeError (flag @ '' must be a positive integer, got '' @ json_quote v)) else Inr (nat n)
           | _ \<Rightarrow> Inl (HarnessTypeError (flag @ '' must be a positive integer, got '' @ json_quote v))))"

definition paymentProvider ::
  "('sk, 'pk, 'w) cli_world \<Rightarrow> string \<Rightarrow> claim_fields \<Rightarrow> string option \<Rightarrow> harness_error + payment_provider" where
  "paymentProvider world mode claim proxyKeyPath =
     (if mode = ''stub-claim'' then
        (if proxyKeyPath \<in> {None, Some []}
         then Inl (HarnessTypeError (''--payment stub-claim needs --proxy-key: the issuer verifies proxy_sig, so an ''
                @ ''unsigned claim is rejected. Behind a proxy use --payment stub-receipt instead.''))
         else (case cw_readFile world (the proxyKeyPath) of
                 Inl m \<Rightarrow> Inl (HarnessError m)
               | Inr pem \<Rightarrow> createStubClaimProvider (cw_rt world) (cw_ed25519 world) claim pem))
      else if mode = ''stub-receipt'' then Inr (StubReceiptProvider (cw_payer world) (cw_txHash world))
      else if mode = ''none'' then Inr NoPaymentProvider
      else Inl (HarnessTypeError (''unknown --payment mode '' @ json_quote mode)))"

definition cli_parameters :: "runtime \<Rightarrow> cli_values \<Rightarrow> harness_error + bundle_parameters" where
  "cli_parameters rt values =
     (let d = DEFAULT_BUNDLE_PARAMETERS in
      case cli_positiveInt rt (cv_bundle_size values) (bp_bundleSize d) ''--bundle-size'' of Inl e \<Rightarrow> Inl e | Inr k \<Rightarrow>
      (case cli_positiveInt rt (cv_blank_size values) (bp_blankSizeBytes d) ''--blank-size'' of Inl e \<Rightarrow> Inl e | Inr b \<Rightarrow>
      (case cli_positiveInt rt (cv_signature_size values) (bp_signatureSizeBytes d) ''--signature-size'' of Inl e \<Rightarrow> Inl e
       | Inr n \<Rightarrow> Inr \<lparr>bp_bundleSize = k, bp_blankSizeBytes = b, bp_signatureSizeBytes = n\<rparr>)))"

subsection \<open>What it prints\<close>

definition check_line :: "check_result \<Rightarrow> string" where
  "check_line c = (if ck_passed c then ''PASS'' else ''FAIL'') @ ''  '' @ ck_name c @ '': '' @ ck_detail c"

definition conformance_json :: "conformance_report \<Rightarrow> jsval" where
  "conformance_json r =
     JObj [(''checks'', JArr (map (\<lambda>c. JObj [(''name'', JStr (ck_name c)), (''passed'', JBool (ck_passed c)),
             (''detail'', JStr (ck_detail c))]) (cr_checks r))),
           (''passed'', JBool (cr_passed r))]"

fun flow_text :: "payment_flow \<Rightarrow> string" where
  "flow_text direct = ''direct''"
| "flow_text retry_402 = ''402-retry''"

definition keys_report :: "cli_values \<Rightarrow> jsval \<Rightarrow> conformance_report \<Rightarrow> console list" where
  "keys_report values document conformance =
     (if cv_json values
      then [Log (json_pretty 0 (JObj [(''epoch'', get_prop document ''epoch_id''), (''conformance'', conformance_json conformance)]))]
      else map (Log \<circ> check_line) (cr_checks conformance) @ [Log (newline @ ''bought nothing (--keys-only)'')])"

definition purchase_report :: "cli_values \<Rightarrow> payment_provider \<Rightarrow> purchase_result \<Rightarrow> console list" where
  "purchase_report values payment result =
     (if cv_json values
      then [Log (json_pretty 0 (JObj [(''epoch'', pr_epoch result), (''paymentFlow'', JStr (flow_text (pr_paymentFlow result))),
                                     (''conformance'', conformance_json (pr_conformance result))]))]
      else map (Log \<circ> check_line) (cr_checks (pr_conformance result))
           @ [Log (case pr_paymentFlow result of
                     retry_402 \<Rightarrow> newline @ ''payment: 402 answered and retried via '' @ pp_name payment
                   | direct \<Rightarrow> newline @ ''payment: direct, no 402 ('' @ pp_name payment @ '')'')])"

subsection \<open>The program\<close>

definition keys_client :: "('sk, 'pk, 'w) cli_world \<Rightarrow> cli_values \<Rightarrow> 'w client_options" where
  "keys_client world values =
     \<lparr>co_rt = cw_rt world, co_baseUrl = the (cv_url values), co_idempotencyKey = None, co_payment = NoPaymentProvider,
      co_fetch = cw_fetch world\<rparr>"

definition cli_claim :: "('sk, 'pk, 'w) cli_world \<Rightarrow> cli_values \<Rightarrow> claim_fields" where
  "cli_claim world values =
     \<lparr>cf_payment_ref = or_default (cv_payment_ref values) (''harness-'' @ cw_uuid world),
      cf_amount = or_default (cv_amount values) ''1.00'', cf_route_id = or_default (cv_route_id values) ''route-1''\<rparr>"

definition cli_purchase ::
  "('sk, 'pk, 'w) cli_world \<Rightarrow> cli_values \<Rightarrow> payment_provider \<Rightarrow> bundle_parameters \<Rightarrow> 'w purchase_options" where
  "cli_purchase world values payment parameters =
     \<lparr>po_client = \<lparr>co_rt = cw_rt world, co_baseUrl = the (cv_url values), co_idempotencyKey = cv_idempotency_key values,
        co_payment = payment, co_fetch = cw_fetch world\<rparr>,
      po_parameters = Some parameters, po_epoch = cv_epoch values\<rparr>"

definition cli_main ::
  "('sk, 'pk, 'w) cli_world \<Rightarrow> ('k, 'inv) blind_suite \<Rightarrow> string list \<Rightarrow> 'w
     \<Rightarrow> (harness_error + exit_status) \<times> console list \<times> client_event list \<times> 'w"
where
  "cli_main world S argv w =
     (case parseArgs cli_options argv of
        Inl e \<Rightarrow> (Inl (HarnessTypeError (cw_args_message world e)), [], [], w)
      | Inr parsed \<Rightarrow>
      (let values = cli_flags parsed; rt = cw_rt world in
      if cv_help values then (Inr EXIT_OK, [Log USAGE], [], w)
      else if cv_url values \<in> {None, Some []}
      then (Inr EXIT_UNUSABLE, [ErrorLog (''missing --url'' @ newline), ErrorLog USAGE], [], w)
      else if cv_keys_only values then
        (case checkKeys (keys_client world values) w of
           (Inl e, tr, w') \<Rightarrow> (Inl e, [], tr, w')
         | (Inr (document, conformance), tr, w') \<Rightarrow>
             if cv_json values \<and> document = JNull then (Inl (HarnessTypeError ''null is not an object''), [], tr, w')
             else (Inr (if failures conformance = [] then EXIT_OK else EXIT_NONCONFORMING),
                   keys_report values document conformance, tr, w'))
      else
        (case paymentProvider world (or_default (cv_payment values) ''stub-claim'') (cli_claim world values) (cv_proxy_key values) of
           Inl e \<Rightarrow> (Inl e, [], [], w)
         | Inr payment \<Rightarrow>
             (case cli_parameters rt values of
                Inl e \<Rightarrow> (Inl e, [], [], w)
              | Inr parameters \<Rightarrow>
                  (case harness_purchaseBundle S (cli_purchase world values payment parameters) w of
                     (Inl e, tr, w') \<Rightarrow> (Inl e, [], tr, w')
                   | (Inr result, tr, w') \<Rightarrow>
                       (let out = purchase_report values payment result in
                        if cr_passed (pr_conformance result) then (Inr EXIT_OK, out, tr, w')
                        else (Inr EXIT_NONCONFORMING,
                              out @ [ErrorLog (newline @ ''nonconforming issuer: ''
                                @ joined_with '', '' (map ck_name (failures (pr_conformance result))))], tr, w')))))))"

text \<open>The exception a run catches, with the line it prints for it; what it does not catch ends the process.\<close>

definition process_exit :: "harness_error + exit_status \<Rightarrow> exit_status \<times> console list" where
  "process_exit r =
     (case r of
        Inr status \<Rightarrow> (status, [])
      | Inl (IssuerRequestError m _ _) \<Rightarrow> (EXIT_UNUSABLE, [ErrorLog m])
      | Inl (PaymentRequiredError m) \<Rightarrow> (EXIT_UNUSABLE, [ErrorLog m])
      | Inl (HarnessTypeError m) \<Rightarrow> (EXIT_UNUSABLE, [ErrorLog m])
      | Inl e \<Rightarrow> (Uncaught e, []))"

definition cli_run ::
  "('sk, 'pk, 'w) cli_world \<Rightarrow> ('k, 'inv) blind_suite \<Rightarrow> string list \<Rightarrow> 'w \<Rightarrow> exit_status \<times> console list \<times> client_event list \<times> 'w"
where
  "cli_run world S argv w =
     (case cli_main world S argv w of
        (r, out, tr, w') \<Rightarrow> (case process_exit r of (status, caught) \<Rightarrow> (status, out @ caught, tr, w')))"

subsection \<open>What a run does\<close>

interpretation harness_flags: flag_table cli_options
  by unfold_locales (auto simp: cli_options_def text_option_def switch_option_def split: if_splits)

text \<open>A flag the table does not know, or a value it does not allow, ends the run before anything is sent.\<close>

lemma cli_run_bad_flags:
  "parseArgs cli_options argv = Inl e \<Longrightarrow> cli_run world S argv w = (EXIT_UNUSABLE, [ErrorLog (cw_args_message world e)], [], w)"
  by (simp add: cli_run_def cli_main_def process_exit_def)

lemma process_exit_OK: "process_exit r = (EXIT_OK, caught) \<longleftrightarrow> r = Inr EXIT_OK \<and> caught = []"
  by (auto simp: process_exit_def split: sum.splits harness_error.splits)

text \<open>A run that bought a bundle and exits with 0 went through the library's purchase and printed its report.\<close>

lemma cli_run_bought:
  assumes "cli_run world S argv w = (EXIT_OK, out, tr, w')" and "parseArgs cli_options argv = Inr parsed"
    and "\<not> cv_help (cli_flags parsed)" and "\<not> cv_keys_only (cli_flags parsed)"
  obtains payment parameters result where
    "paymentProvider world (or_default (cv_payment (cli_flags parsed)) ''stub-claim'') (cli_claim world (cli_flags parsed))
       (cv_proxy_key (cli_flags parsed)) = Inr payment"
    and "cli_parameters (cw_rt world) (cli_flags parsed) = Inr parameters"
    and "harness_purchaseBundle S (cli_purchase world (cli_flags parsed) payment parameters) w = (Inr result, tr, w')"
    and "cr_passed (pr_conformance result)" and "out = purchase_report (cli_flags parsed) payment result"
proof -
  from assms(1) have "cli_main world S argv w = (Inr EXIT_OK, out, tr, w')"
    by (auto simp: cli_run_def process_exit_OK split: prod.splits)
  with assms(2-4) show ?thesis
    by (auto simp: cli_main_def Let_def split: if_splits prod.splits sum.splits intro: that)
qed

lemma cli_run_buys:
  assumes "parseArgs cli_options argv = Inr parsed" and "\<not> cv_help (cli_flags parsed)" and "\<not> cv_keys_only (cli_flags parsed)"
    and "cv_url (cli_flags parsed) = Some url" and "url \<noteq> []"
    and "paymentProvider world (or_default (cv_payment (cli_flags parsed)) ''stub-claim'') (cli_claim world (cli_flags parsed))
       (cv_proxy_key (cli_flags parsed)) = Inr payment"
    and "cli_parameters (cw_rt world) (cli_flags parsed) = Inr parameters"
    and "harness_purchaseBundle S (cli_purchase world (cli_flags parsed) payment parameters) w = (Inr result, tr, w')"
    and "cr_passed (pr_conformance result)"
  shows "cli_run world S argv w = (EXIT_OK, purchase_report (cli_flags parsed) payment result, tr, w')"
  using assms by (simp add: cli_run_def cli_main_def process_exit_def Let_def)

text \<open>An unreadable key file is an error the command line does not catch, unlike an unknown flag value.\<close>

lemma unreadable_key_uncaught:
  assumes "parseArgs cli_options argv = Inr parsed" and "values = cli_flags parsed"
    and "\<not> cv_help values" and "cv_url values = Some url" and "url \<noteq> []" and "\<not> cv_keys_only values"
    and "cv_payment values = Some ''stub-claim''" and "cv_proxy_key values = Some path" and "path \<noteq> []"
    and "cw_readFile world path = Inl m"
  shows "fst (cli_run world S argv w) = Uncaught (HarnessError m)" and "exit_code (fst (cli_run world S argv w)) = 1"
  using assms by (simp_all add: cli_run_def cli_main_def paymentProvider_def process_exit_def or_default_def Let_def)

text \<open>The lines of a report whose checks all passed.\<close>

lemma passed_lines:
  assumes "harness_purchaseBundle S options w = (Inr result, tr, w')" and "po_parameters options = Some ps"
    and "cr_passed (pr_conformance result)" and "\<not> cv_json values"
  shows "butlast (purchase_report values payment result) =
    map (\<lambda>c. Log (''PASS  '' @ ck_name c @ '': '' @ ck_detail c)) (cr_checks (pr_conformance result))"
proof -
  obtain checks where "pr_conformance result = report checks" using purchase_result [OF assms(1,2)] by metis
  with assms(3,4) show ?thesis by (auto simp: purchase_report_def check_line_def list_all_iff butlast_append)
qed

end
