(* ===== verification/PropertiesHarness.thy ===== *)
theory PropertiesHarness
  imports Samples HarnessCli Server
begin

text \<open>The properties of the buyer harness, alone and against the issuer, with their witnesses.\<close>

subsection \<open>Payment\<close>

text \<open>C36. One request pays at most once, and only to a 402 that names payment requirements: the payment answers the
  requirements of the first response, and a server that answers 402 again is not paid again.\<close>

theorem harness_pays_once:
  assumes "request_flow opts path i (f, w) = (r, tr, f', w')"
  shows "length (filter is_paid tr) \<le> 1
    \<and> (\<forall>q. Paid q \<in> set tr \<longrightarrow>
         (\<exists>r1 w1. send opts path i (pp_initialHeaders (co_payment opts)) w = (Inr r1, w1)
            \<and> http_code r1 = 402 \<and> q = parsePaymentRequirement (readJsonOrNull r1) \<and> key_count q \<noteq> 0))"
  using assms by (cases rule: request_trace) auto

text \<open>An issuer's refusal of a claim is never answered with a payment: its 402 has an error body and no
  requirements, and the harness reports code and message after a single request.\<close>

theorem refusal_not_paid:
  assumes "send opts path i (pp_initialHeaders (co_payment opts)) w = (Inr r1, w1)"
    and "http_code r1 = STATUS CLAIM_INVALID" and "http_body r1 = json_stringify (exception_body CLAIM_INVALID message)"
    and "valid_utf8 message" and "message \<noteq> []"
  shows "request_flow opts path i (f, w) =
    (Inl (IssuerRequestError (path @ '' returned 402 CLAIM_INVALID: '' @ message) (Some 402) (JStr ''CLAIM_INVALID'')),
     [Sent (pp_initialHeaders (co_payment opts))], f, w1)"
proof -
  have "readJsonOrNull r1 = exception_body CLAIM_INVALID message"
    by (simp add: readJsonOrNull_def assms(3) exception_body_plain [OF assms(4)])
  moreover have "show_nat 402 = ''402''" by code_simp
  ultimately show ?thesis
    using assms(1,2,5)
    by (simp add: request_flow_def Let_def parsePaymentRequirement_def exception_body_def returned_def errorFrom_def)
qed

text \<open>C39. A claim the harness signs with the proxy's key is read by the issuer as exactly the claim's fields and its
  signature verifies there: it is admitted when the amount is the bundle price as a number, and refused as an amount
  mismatch otherwise.\<close>

theorem harness_claim_admitted:
  assumes "createStubClaimProvider rt C fs pem = Inr P" and "importProxySigningKey rt C pem = Inr sk" and "claim_texts fs"
    and "\<forall>m. ed_sign C sk m \<noteq> [] \<and> ed_verify C pk (ed_sign C sk m) m"
  shows "\<exists>h claim. pp_initialHeaders P = [(''x-payment-claim'', h)] \<and> payment_ref claim = cf_payment_ref fs
    \<and> admit rt config \<lparr>ce_ed25519 = C, ce_proxyKey = Some pk, ce_stored = stored\<rparr> now (Some h) d =
       (if decimalEquals (cf_amount fs) (bundlePrice config) then (Inr claim, d)
        else (Inl (IssuerException CLAIM_INVALID ''claimed amount does not match the bundle price''),
              record_rejection stored now amount_mismatch d))"
proof -
  let ?sig = "bytesToBase64url (ed_sign C sk (harness_canonicalClaimPayload fs))"
  let ?claim = "\<lparr>payment_ref = cf_payment_ref fs, amount = JStr (cf_amount fs), route_id = JStr (cf_route_id fs), proxy_sig = JStr ?sig\<rparr>"
  have "pp_initialHeaders P = [(''x-payment-claim'', signPaymentClaim C fs sk)]"
    using assms(1,2) by (auto simp: createStubClaimProvider_def StubClaimProvider_def)
  moreover have "verify_claim rt C config (Some pk) ?claim =
      (if decimalEquals (cf_amount fs) (bundlePrice config) then Inr ()
       else Inl (ClaimRejected amount_mismatch ''claimed amount does not match the bundle price''))"
    using assms(3,4) by (simp add: verify_claim_def claim_texts_def payload_agrees Let_def)
  moreover have "parsePaymentClaim rt (Some (signPaymentClaim C fs sk)) = Inr ?claim"
    by (rule signed_claim_parsed [OF assms(3)])
  ultimately show ?thesis
    by (intro exI [of _ "signPaymentClaim C fs sk"] exI [of _ ?claim]) (simp add: admit_def)
qed

subsection \<open>Conformance\<close>

text \<open>The issuer conforms to the harness: what it answers to a purchase passes the bundle checks when its pool
  returns signatures of the agreed size, and the key document it serves from an acceptable keyring passes the
  document checks.\<close>

theorem issuer_conforms:
  assumes "issue env g key body (s, d) = (Inr resp, s', d')" and "get_prop body ''epoch'' = JStr epoch"
    and "bp_bundleSize ps = bundleSize (rq_config env)" and "0 < bp_signatureSizeBytes ps"
    and "\<forall>e b x. rq_pool_sign env e b = Inr x \<longrightarrow> (\<exists>sig. x = bytesToBase64 sig \<and> length sig = bp_signatureSizeBytes ps)"
    and "keyring_ok k" and "currentEpoch k = Inr entry"
  shows "cr_passed (checkBundle rt (response_json resp) (JStr epoch) ps)
    \<and> cr_passed (checkKeyDocument rt (published_json (publishedDocument entry)))"
proof
  obtain request where p: "issue_prepare env g body s = (Inr (request, resp), s')"
    using issue_success [OF assms(1)] by blast
  have v: "validateBundleRequest (rq_rt env) body (rq_config env) = Inr request"
    and sb: "signBundle (rq_settles env) (rq_pool_sign env) request = Inr resp" using issue_prepare_Inr [OF p] by blast+
  have "resp_epoch resp = epoch"
    using issue_prepare_count(2) [OF p] v assms(2) by (elim validateBundleRequest_Inr) simp
  moreover have "\<forall>b \<in> set (map JStr (blind_signatures resp)). \<exists>sig. length sig = bp_signatureSizeBytes ps \<and> b = JStr (bytesToBase64 sig)"
  proof -
    have "\<exists>e b. rq_pool_sign env e b = Inr x" if "x \<in> set (blind_signatures resp)" for x
      using that signBundle_Inr(2) [OF sb] by (metis (no_types, lifting) imageE image_eqI list.set_map)
    then show ?thesis using assms(5) by fastforce
  qed
  then obtain sigs where sigs: "map JStr (blind_signatures resp) = map (\<lambda>sig. JStr (bytesToBase64 sig)) sigs"
    "\<forall>sig \<in> set sigs. length sig = bp_signatureSizeBytes ps" unfolding all_encoded by blast
  moreover have "length sigs = bp_bundleSize ps"
    using issue_prepare_count(1) [OF p] assms(3) arg_cong [OF sigs(1), of length] by simp
  ultimately show "cr_passed (checkBundle rt (response_json resp) (JStr epoch) ps)"
    unfolding bundle_passed [OF assms(4)] by (intro exI [of _ sigs]) (simp add: response_json_def)
next
  show "cr_passed (checkKeyDocument rt (published_json (publishedDocument entry)))"
    by (rule entry_document_passed [OF assms(6,7)])
qed

text \<open>A purchase that passes means what it says: the buyer holds as many credentials as the bundle size, and every
  one was finalized from the issuer's answer and verifies under the key of the document the issuer served.\<close>

theorem passed_purchase_verified:
  assumes "harness_purchaseBundle S options w = (Inr result, tr, w')" and "po_parameters options = Some ps"
    and "cr_passed (pr_conformance result)"
  shows "\<exists>document f1 w1 tr1 prepared. keyDocument (po_client options) (direct, w) = (Inr document, tr1, f1, w1)
    \<and> blind_prepare (co_rt (po_client options)) S (bp_bundleSize ps) (get_prop document ''pubkey'') = Inr prepared
    \<and> length (pr_credentials result) = bp_bundleSize ps
    \<and> (\<forall>c \<in> set (pr_credentials result). blind_verify (co_rt (po_client options)) S prepared c = Inr True)
    \<and> length (filter is_paid tr) \<le> 2"
proof -
  let ?rt = "co_rt (po_client options)"
  obtain document prepared check f1 w1 tr1 tr2 where doc: "keyDocument (po_client options) (direct, w) = (Inr document, tr1, f1, w1)"
    and prep: "blind_prepare ?rt S (bp_bundleSize ps) (get_prop document ''pubkey'') = Inr prepared"
    and buy: "client_purchaseBundle (po_client options) (pr_epoch result) (blindedBlanks prepared) (f1, w1)
      = (Inr (pr_response result), tr2, pr_paymentFlow result, w')"
    and check: "checkSignaturesVerify ?rt S prepared (get_prop (pr_response result) ''blind_signatures'') = Inr (check, pr_credentials result)"
    and conf: "pr_conformance result = report (cr_checks (checkKeyDocument ?rt document)
      @ cr_checks (checkBundle ?rt (pr_response result) (pr_epoch result) ps) @ [check])" and tr: "tr = tr1 @ tr2"
    by (rule purchase_result [OF assms(1,2)])
  have ok: "list_all ck_passed (cr_checks (checkBundle ?rt (pr_response result) (pr_epoch result) ps))" "ck_passed check"
    using assms(3) by (simp_all add: conf)
  then obtain blobs where blobs: "get_prop (pr_response result) ''blind_signatures'' = JArr blobs"
    by (auto simp: checkBundle_def split: jsval.splits)
  have "length (pr_credentials result) = bp_bundleSize ps"
    using finalize_count [OF verified_passed(1) [OF check ok(2), unfolded blobs]] blind_prepare_count [OF prep] by simp
  moreover have "length (filter is_paid tr1) \<le> 1" "length (filter is_paid tr2) \<le> 1"
    using doc buy by (auto simp: keyDocument_def client_purchaseBundle_def split: prod.splits sum.splits dest!: request_pays_once)
  ultimately show ?thesis
    using doc prep verified_passed(2) [OF check ok(2)] by (simp add: tr)
qed

text \<open>C40. Exit code 0 means what it says: when the harness, run on any arguments that ask for a purchase, exits with 0, then
  the library bought a bundle with the parameters the flags give, the buyer holds as many credentials as the flags ask
  for, every one was finalized from the issuer's answer and verifies under the key of the document the issuer served,
  at most two payments were made (one per request), and unless JSON was asked for every check is printed as PASS.\<close>

theorem exit_zero_verified:
  assumes "cli_run world S argv w = (EXIT_OK, out, tr, w')" and "parseArgs cli_options argv = Inr parsed"
    and "values = cli_flags parsed" and "\<not> cv_help values" and "\<not> cv_keys_only values"
  shows "\<exists>payment ps result document f1 w1 tr1 prepared.
      cli_parameters (cw_rt world) values = Inr ps
    \<and> harness_purchaseBundle S (cli_purchase world values payment ps) w = (Inr result, tr, w')
    \<and> keyDocument (po_client (cli_purchase world values payment ps)) (direct, w) = (Inr document, tr1, f1, w1)
    \<and> blind_prepare (cw_rt world) S (bp_bundleSize ps) (get_prop document ''pubkey'') = Inr prepared
    \<and> length (pr_credentials result) = bp_bundleSize ps
    \<and> (\<forall>c \<in> set (pr_credentials result). blind_verify (cw_rt world) S prepared c = Inr True)
    \<and> length (filter is_paid tr) \<le> 2
    \<and> (\<not> cv_json values \<longrightarrow>
         butlast out = map (\<lambda>c. Log (''PASS  '' @ ck_name c @ '': '' @ ck_detail c)) (cr_checks (pr_conformance result)))"
proof -
  obtain payment ps result where ps: "cli_parameters (cw_rt world) values = Inr ps"
    and buy: "harness_purchaseBundle S (cli_purchase world values payment ps) w = (Inr result, tr, w')"
    and ok: "cr_passed (pr_conformance result)" and out: "out = purchase_report values payment result"
    by (rule cli_run_bought [OF assms(1,2) assms(4,5) [unfolded assms(3)]]) (simp add: assms(3))
  have sel: "po_parameters (cli_purchase world values payment ps) = Some ps"
    "co_rt (po_client (cli_purchase world values payment ps)) = cw_rt world" by (simp_all add: cli_purchase_def)
  have "butlast out = map (\<lambda>c. Log (''PASS  '' @ ck_name c @ '': '' @ ck_detail c)) (cr_checks (pr_conformance result))"
    if "\<not> cv_json values"
    using passed_lines [OF buy sel(1) ok that] by (simp add: out)
  with passed_purchase_verified [OF buy sel(1) ok] ps buy show ?thesis unfolding sel by blast
qed

subsection \<open>Witnesses\<close>

text \<open>A server that answers every request with the same response and counts them.\<close>

definition constant_server :: "http_response \<Rightarrow> nat fetch" where
  "constant_server r = (\<lambda>method url hs body n. (Inr r, Suc n))"

definition constant_client :: "http_response \<Rightarrow> payment_provider \<Rightarrow> nat client_options" where
  "constant_client r P =
     \<lparr>co_rt = strict_runtime, co_baseUrl = ''http://issuer/'', co_idempotencyKey = None, co_payment = P,
      co_fetch = constant_server r\<rparr>"

lemma constant_send: "send (constant_client r P) path i hs n = (Inr r, Suc n)"
  by (simp add: send_def constant_client_def constant_server_def)

lemma constant_sel [simp]: "co_payment (constant_client r P) = P" "co_rt (constant_client r P) = strict_runtime"
  by (simp_all add: constant_client_def)

definition greedy :: http_response where
  "greedy = \<lparr>http_code = 402, http_body = json_stringify (JObj [(''payment'', JObj [(''amount'', JStr ''1.0'')])])\<rparr>"

lemma greedy_code: "http_code greedy = 402"
  by (simp add: greedy_def)

lemma greedy_read: "readJsonOrNull greedy = JObj [(''payment'', JObj [(''amount'', JStr ''1.0'')])]"
proof -
  have "valid_utf8 ''payment''" "valid_utf8 ''amount''" "valid_utf8 ''1.0''"
    by (rule valid_utf8_all_ascii, simp add: ascii_def in_range_def)+
  then have "json_plain (JObj [(''payment'', JObj [(''amount'', JStr ''1.0'')])])" by simp
  then show ?thesis using json_roundtrip by (simp add: readJsonOrNull_def greedy_def del: json_stringify.simps)
qed

theorem harness_pays_once_witness:
  "\<exists>r tr f' n. request_flow (constant_client greedy (StubReceiptProvider ''p'' ''t'')) ''/v1/bundles'' get_init (direct, 0) = (r, tr, f', n)
     \<and> length tr = 3 \<and> length (filter is_paid tr) \<le> 1"
proof -
  let ?P = "StubReceiptProvider ''p'' ''t''"
  obtain r tr f' n where flow: "request_flow (constant_client greedy ?P) ''/v1/bundles'' get_init (direct, 0) = (r, tr, f', n)"
    by (metis prod.exhaust)
  then have "length tr = 3"
    by (auto simp: request_flow_def Let_def constant_send greedy_read greedy_code parsePaymentRequirement_def
        StubReceiptProvider_def)
  with harness_pays_once [OF flow] flow show ?thesis by blast
qed

definition refusal :: http_response where
  "refusal = \<lparr>http_code = 402, http_body = json_stringify (exception_body CLAIM_INVALID ''ref'')\<rparr>"

theorem refusal_not_paid_witness:
  "fst (request_flow (constant_client refusal NoPaymentProvider) ''/v1/bundles'' get_init (direct, 0)) =
     Inl (IssuerRequestError (''/v1/bundles'' @ '' returned 402 CLAIM_INVALID: '' @ ''ref'') (Some 402) (JStr ''CLAIM_INVALID''))"
  using refusal_not_paid [of "constant_client refusal NoPaymentProvider" "''/v1/bundles''" get_init 0 refusal 1 "''ref''" direct]
  by (simp add: constant_send refusal_def sample_literals)

definition sample_fields :: claim_fields where
  "sample_fields = \<lparr>cf_payment_ref = ''ref'', cf_amount = ''1.0'', cf_route_id = ''route''\<rparr>"

theorem harness_claim_admitted_witness:
  "\<exists>P h claim. createStubClaimProvider strict_runtime sample_ed25519 sample_fields (derToPkcs8Pem ''key'') = Inr P
     \<and> pp_initialHeaders P = [(''x-payment-claim'', h)]
     \<and> admit strict_runtime sample_config \<lparr>ce_ed25519 = sample_ed25519, ce_proxyKey = Some (), ce_stored = True\<rparr> 0 (Some h) empty_db
       = (Inr claim, empty_db)"
proof -
  have key: "importProxySigningKey strict_runtime sample_ed25519 (derToPkcs8Pem ''key'') = Inr ()"
    using pkcs8_roundtrip [of strict_runtime "''key''"]
    by (auto simp: importProxySigningKey_def pkcs8PemToDer_def pem_body_def Let_def sample_ed25519_def split: if_splits)
  then obtain P where P: "createStubClaimProvider strict_runtime sample_ed25519 sample_fields (derToPkcs8Pem ''key'') = Inr P"
    by (simp add: createStubClaimProvider_def)
  have "claim_texts sample_fields" by (simp add: claim_texts_def sample_fields_def sample_literals)
  moreover have "\<forall>m. ed_sign sample_ed25519 () m \<noteq> [] \<and> ed_verify sample_ed25519 () (ed_sign sample_ed25519 () m) m"
    by (simp add: sample_ed25519_def)
  moreover have "decimalEquals (cf_amount sample_fields) (bundlePrice sample_config)" using sample_price by (simp add: sample_fields_def)
  ultimately show ?thesis
    using harness_claim_admitted [OF P key, of "()" sample_config True 0 empty_db] P by auto
qed

theorem issuer_conforms_witness:
  "\<exists>resp. cr_passed (checkBundle strict_runtime (response_json resp) (JStr ''7'')
        \<lparr>bp_bundleSize = 2, bp_blankSizeBytes = 3, bp_signatureSizeBytes = 3\<rparr>)
     \<and> cr_passed (checkKeyDocument strict_runtime (published_json (publishedDocument sample_entry)))"
proof -
  let ?ps = "\<lparr>bp_bundleSize = 2, bp_blankSizeBytes = 3, bp_signatureSizeBytes = 3\<rparr>"
  let ?env = "sample_env 1 ''u''\<lparr>rq_pool_sign := \<lambda>e b. Inr (bytesToBase64 [CHR ''x'', CHR ''y'', CHR ''z''])\<rparr>"
  have "fst (allow mem_redis sample_config 1 ''u'' ''ref'' sample_store) = Inr True"
    using sample_allow by (simp add: sample_store_def)
  then obtain resp s' where prep: "issue_prepare ?env sample_grant sample_body sample_store = (Inr (sample_request, resp), s')"
    using sample_usable [of 1] sample_valid
    by (cases "allow mem_redis sample_config 1 ''u'' ''ref'' sample_store")
      (auto simp: issue_prepare_def sample_env_def sample_grant_def sample_request_def signBundle_def signBlindedBlank_def promise_all_ok)
  then obtain d' where issued: "issue ?env sample_grant None sample_body (sample_store, empty_db) = (Inr resp, s', d')"
    by (auto simp: issue_def issue_commit_def record_issuance_def transaction_def record_body_def sample_grant_def Let_def
        split: prod.splits)
  have "find_epoch sample_keyring ''7'' = Some sample_entry"
    by (simp add: find_epoch_def sample_keyring_def) (simp add: sample_entry_def)
  then have "currentEpoch sample_keyring = Inr sample_entry" by (simp add: currentEpoch_def) (simp add: sample_keyring_def)
  moreover have "\<exists>sig. bytesToBase64 ''xyz'' = bytesToBase64 sig \<and> length sig = 3" by (rule exI [of _ "''xyz''"]) simp
  ultimately show ?thesis
    using issuer_conforms [OF issued, of "''7''" ?ps sample_keyring sample_entry strict_runtime] sample_keyring_ok
    by (intro exI [of _ resp]) (simp add: sample_body_def sample_env_def sample_config_def)
qed

text \<open>A shop that serves the sample key document and one signature, and a suite whose signature is the blank itself.\<close>

definition shop_bundle :: jsval where
  "shop_bundle = response_json \<lparr>resp_epoch = ''7'', blind_signatures = [bytesToBase64 ''sig'']\<rparr>"

definition shop :: "unit fetch" where
  "shop = (\<lambda>method url hs body w.
     (Inr \<lparr>http_code = 200, http_body = json_stringify (if method = ''GET'' then published_json (publishedDocument sample_entry)
        else shop_bundle)\<rparr>, w))"

definition shop_options :: "unit purchase_options" where
  "shop_options =
     \<lparr>po_client = \<lparr>co_rt = strict_runtime, co_baseUrl = ''http://shop'', co_idempotencyKey = None, co_payment = NoPaymentProvider,
                   co_fetch = shop\<rparr>,
      po_parameters = Some \<lparr>bp_bundleSize = 1, bp_blankSizeBytes = 3, bp_signatureSizeBytes = 3\<rparr>, po_epoch = None\<rparr>"

definition shop_suite :: "(unit, unit) blind_suite" where
  "shop_suite =
     \<lparr>bs_import = (\<lambda>_. Inr ()), bs_blind = (\<lambda>_ i. Inr (''msg'', ''bld'', ())), bs_finalize = (\<lambda>_ m s _. Inr s),
      bs_verify = (\<lambda>_ sig m. Inr (sig = ''sig'' \<and> m = ''msg'')), bs_blindSettles = [], bs_finalizeSettles = [], bs_loose = (\<lambda>_. Inl [])\<rparr>"

lemma shop_plain: "json_plain shop_bundle"
proof -
  have "valid_utf8 ''epoch''" "valid_utf8 ''blind_signatures''"
    by (rule valid_utf8_all_ascii, simp add: ascii_def in_range_def)+
  then show ?thesis by (simp add: shop_bundle_def response_json_def keyring_values)
qed

lemma shop_purchase:
  obtains result tr where "harness_purchaseBundle shop_suite shop_options () = (Inr result, tr, ())"
    and "cr_passed (pr_conformance result)"
proof -
  let ?opts = "po_client shop_options" and ?doc = "published_json (publishedDocument sample_entry)"
  let ?ps = "\<lparr>bp_bundleSize = 1, bp_blankSizeBytes = 3, bp_signatureSizeBytes = 3\<rparr>"
  let ?p = "\<lparr>pb_key = (), pb_blinds = [(''msg'', ''bld'', ())]\<rparr>"
  have flow: "request_flow ?opts path i (f, w) = (Inr \<lparr>http_code = 200, http_body = json_stringify
      (if in_method i = ''GET'' then ?doc else shop_bundle)\<rparr>, [Sent []], f, w)" for path i f w
    by (simp add: request_flow_def send_def finish_def response_ok_def shop_options_def shop_def NoPaymentProvider_def Let_def
        del: json_stringify.simps)
  have doc: "keyDocument ?opts (direct, ()) = (Inr ?doc, [Sent []], direct, ())"
    using sample_document_plain by (simp add: keyDocument_def flow get_init_def readJson_def del: json_stringify.simps)
  have prep: "blind_prepare strict_runtime shop_suite 1 (get_prop ?doc ''pubkey'') = Inr ?p"
    by (simp add: blind_prepare_def buffer_of_def published_json_def shop_suite_def promise_all_ok)
  have buy: "client_purchaseBundle ?opts e bs (direct, ()) = (Inr shop_bundle, [Sent []], direct, ())" for e bs
    using shop_plain by (simp add: client_purchaseBundle_def flow bundle_init_def readJson_def del: json_stringify.simps)
  have epoch: "get_prop ?doc ''epoch_id'' = JStr ''7''" by (simp add: published_json_def publishedDocument_def sample_entry_def)
  have blobs: "get_prop shop_bundle ''blind_signatures'' = JArr (map (\<lambda>sig. JStr (bytesToBase64 sig)) [''sig''])"
    "get_prop shop_bundle ''epoch'' = JStr ''7''"
    by (simp_all add: shop_bundle_def response_json_def)
  have passed: "cr_passed (checkBundle strict_runtime shop_bundle (JStr ''7'') ?ps)"
    by (rule bundle_passed [THEN iffD2]) (simp, intro exI [of _ "[''sig'']"], simp add: blobs)
  obtain detail cs where check: "checkSignaturesVerify strict_runtime shop_suite ?p (get_prop shop_bundle ''blind_signatures'')
      = Inr (pass ''signature verifies'' detail, cs)"
    by (simp add: checkSignaturesVerify_def blind_finalize_def blobs finalize_one_def buffer_of_def shop_suite_def blind_verify_def promise_all_ok Let_def)
  have "currentEpoch sample_keyring = Inr sample_entry"
    by (simp add: currentEpoch_def find_epoch_def sample_keyring_def) (simp add: sample_entry_def)
  then have keys: "cr_passed (checkKeyDocument strict_runtime ?doc)"
    using entry_document_passed sample_keyring_ok by blast
  have "?doc \<noteq> JNull" "shop_bundle \<noteq> JNull" by (simp_all add: published_json_def shop_bundle_def response_json_def)
  then have "harness_purchaseBundle shop_suite shop_options () =
    (Inr \<lparr>pr_epoch = JStr ''7'', pr_paymentFlow = direct, pr_response = shop_bundle, pr_credentials = cs,
          pr_conformance = report (cr_checks (checkKeyDocument strict_runtime ?doc)
            @ cr_checks (checkBundle strict_runtime shop_bundle (JStr ''7'') ?ps) @ [pass ''signature verifies'' detail])\<rparr>, [Sent [], Sent []], ())"
    using doc prep buy epoch check
    by (simp add: harness_purchaseBundle_def Let_def) (simp add: shop_options_def)
  then show ?thesis
    by (rule that) (use passed keys in \<open>simp add: report_passes\<close>)
qed

definition shop_world :: "(unit, unit, unit) cli_world" where
  "shop_world =
     \<lparr>cw_rt = strict_runtime, cw_fetch = shop, cw_ed25519 = sample_ed25519, cw_readFile = Inl, cw_args_message = (\<lambda>_. []),
      cw_uuid = ''u'', cw_payer = ''p'', cw_txHash = ''t''\<rparr>"

definition shop_flags :: "(string \<times> arg_value) list" where
  "shop_flags =
     [(''url'', TextArg ''http://shop''), (''bundle-size'', TextArg ''1''), (''blank-size'', TextArg ''3''),
      (''signature-size'', TextArg ''3''), (''payment'', TextArg ''none'')]"

lemma shop_parsed: "parseArgs cli_options (concat (map written_flag shop_flags)) = Inr (filled cli_options shop_flags)"
  by (rule harness_flags.parse_written) (simp add: shop_flags_def cli_options_def text_option_def)

lemma shop_values:
  "cli_flags (filled cli_options shop_flags) =
     \<lparr>cv_url = Some ''http://shop'', cv_bundle_size = Some ''1'', cv_blank_size = Some ''3'', cv_signature_size = Some ''3'',
      cv_epoch = None, cv_payment_ref = None, cv_idempotency_key = None, cv_payment = Some ''none'', cv_proxy_key = None,
      cv_amount = None, cv_route_id = None, cv_keys_only = False, cv_json = False, cv_help = False\<rparr>"
  by (simp add: cli_flags_def filled_def shop_flags_def cli_options_def text_option_def switch_option_def)

theorem exit_zero_verified_witness:
  "\<exists>out tr. cli_run shop_world shop_suite (concat (map written_flag shop_flags)) () = (EXIT_OK, out, tr, ())
     \<and> (\<exists>options result. harness_purchaseBundle shop_suite options () = (Inr result, tr, ()) \<and> length (pr_credentials result) = 1)"
proof -
  let ?v = "cli_flags (filled cli_options shop_flags)"
  obtain result tr where buy: "harness_purchaseBundle shop_suite shop_options () = (Inr result, tr, ())"
    and ok: "cr_passed (pr_conformance result)" by (rule shop_purchase)
  have ps: "cli_parameters (cw_rt shop_world) ?v = Inr \<lparr>bp_bundleSize = 1, bp_blankSizeBytes = 3, bp_signatureSizeBytes = 3\<rparr>"
    by (simp add: shop_values cli_parameters_def cli_positiveInt_def js_Number_def is_digit_def read_nat_def digit_val_def max_safe_def Let_def)
  have opts: "cli_purchase shop_world ?v NoPaymentProvider \<lparr>bp_bundleSize = 1, bp_blankSizeBytes = 3, bp_signatureSizeBytes = 3\<rparr> = shop_options"
    by (simp add: shop_values cli_purchase_def shop_options_def shop_world_def)
  have buy': "harness_purchaseBundle shop_suite (cli_purchase shop_world ?v NoPaymentProvider
      \<lparr>bp_bundleSize = 1, bp_blankSizeBytes = 3, bp_signatureSizeBytes = 3\<rparr>) () = (Inr result, tr, ())"
    unfolding opts by (rule buy)
  have run: "cli_run shop_world shop_suite (concat (map written_flag shop_flags)) () =
      (EXIT_OK, purchase_report ?v NoPaymentProvider result, tr, ())"
    by (rule cli_run_buys [OF shop_parsed _ _ _ _ _ ps buy' ok, where url = "''http://shop''"])
      (simp_all add: shop_values or_default_def paymentProvider_def)
  have "\<not> cv_help ?v" "\<not> cv_keys_only ?v" by (simp_all add: shop_values)
  from exit_zero_verified [OF run shop_parsed refl this] obtain payment ps' result' where "cli_parameters (cw_rt shop_world) ?v = Inr ps'"
      and "harness_purchaseBundle shop_suite (cli_purchase shop_world ?v payment ps') () = (Inr result', tr, ())"
      and "length (pr_credentials result') = bp_bundleSize ps'" by metis
  with ps have "harness_purchaseBundle shop_suite (cli_purchase shop_world ?v payment ps') () = (Inr result', tr, ())
      \<and> length (pr_credentials result') = 1" by simp
  with run show ?thesis by blast
qed

end
