(* ===== verification/EndToEnd.thy ===== *)
theory EndToEnd
  imports Conformance FakeProxy
begin

text \<open>
  A whole purchase of the buyer harness, through the proxy, at the issuer: reading the key document, blinding, paying,
  issuing, unblinding and judging the answer. What the blind signature scheme contributes is \<open>blind_session\<close>: the
  pool's signature of a blinded blank, unblinded, verifies (RFC 9474).
\<close>

definition blind_session ::
  "('k, 'inv) blind_suite \<Rightarrow> 'k \<Rightarrow> 's request_env \<Rightarrow> string \<Rightarrow> nat \<Rightarrow> nat
     \<Rightarrow> (nat \<Rightarrow> bytes \<times> bytes \<times> 'inv) \<Rightarrow> (nat \<Rightarrow> bytes) \<Rightarrow> (nat \<Rightarrow> bytes) \<Rightarrow> bool"
where
  "blind_session S key env epoch n sz blinds sigs creds \<longleftrightarrow>
     (\<forall>i < n. bs_blind S key i = Inr (blinds i) \<and> length (fst (snd (blinds i))) = blankSizeBytes (rq_config env)
        \<and> rq_pool_sign env epoch (bytesToBase64 (fst (snd (blinds i)))) = Inr (bytesToBase64 (sigs i)) \<and> length (sigs i) = sz
        \<and> bs_finalize S key (fst (blinds i)) (sigs i) (snd (snd (blinds i))) = Inr (creds i)
        \<and> bs_verify S key (creds i) (fst (blinds i)) = Inr True)"

definition session_blanks :: "(nat \<Rightarrow> bytes \<times> bytes \<times> 'inv) \<Rightarrow> nat \<Rightarrow> string list" where
  "session_blanks blinds n = map (\<lambda>i. bytesToBase64 (fst (snd (blinds i)))) [0..<n]"

definition session_credentials :: "(nat \<Rightarrow> bytes \<times> bytes \<times> 'inv) \<Rightarrow> (nat \<Rightarrow> bytes) \<Rightarrow> nat \<Rightarrow> credential list" where
  "session_credentials blinds creds n =
     map (\<lambda>i. \<lparr>cd_message = bytesToBase64 (fst (blinds i)), cd_signature = bytesToBase64 (creds i)\<rparr>) [0..<n]"

definition session_response :: "string \<Rightarrow> (nat \<Rightarrow> bytes) \<Rightarrow> nat \<Rightarrow> bundle_response" where
  "session_response epoch sigs n = \<lparr>resp_epoch = epoch, blind_signatures = map (\<lambda>i. bytesToBase64 (sigs i)) [0..<n]\<rparr>"

text \<open>Where the issuer signs inline, with the suite it selected and the key it holds, the pool's part of a session is the
  library's \<open>blindSign\<close>.\<close>

lemma inline_session:
  assumes "rq_pool_sign env = signInline rt L (Some sel) keys" and "keys epoch = Some (Inr sk)"
    and "\<And>i. i < n \<Longrightarrow> bs_blind S key i = Inr (blinds i) \<and> length (fst (snd (blinds i))) = blankSizeBytes (rq_config env)"
    and "\<And>i. i < n \<Longrightarrow> blindSign L (sel_suite sel) sk (fst (snd (blinds i))) = Inr (sigs i) \<and> length (sigs i) = sz"
    and "\<And>i. i < n \<Longrightarrow> bs_finalize S key (fst (blinds i)) (sigs i) (snd (snd (blinds i))) = Inr (creds i)
      \<and> bs_verify S key (creds i) (fst (blinds i)) = Inr True"
  shows "blind_session S key env epoch n sz blinds sigs creds"
  using assms by (simp add: blind_session_def signInline_def)

subsection \<open>The buyer's side\<close>

lemma session_prepared:
  assumes "blind_session S key env epoch n sz blinds sigs creds" and "bs_import S spki = Inr key"
  shows "blind_prepare rt S n (JStr (bytesToBase64 spki)) = Inr \<lparr>pb_key = key, pb_blinds = map blinds [0..<n]\<rparr>"
    and "blindedBlanks \<lparr>pb_key = key, pb_blinds = map blinds [0..<n]\<rparr> = session_blanks blinds n"
proof -
  have "map_result (bs_blind S key) [0..<n] = Inr (map blinds [0..<n])"
    using assms(1) by (intro map_result_cong_Inr) (simp add: blind_session_def)
  then show "blind_prepare rt S n (JStr (bytesToBase64 spki)) = Inr \<lparr>pb_key = key, pb_blinds = map blinds [0..<n]\<rparr>"
    using assms(2) by (simp add: blind_prepare_def buffer_of_def promise_all_map_result [THEN iffD2])
  show "blindedBlanks \<lparr>pb_key = key, pb_blinds = map blinds [0..<n]\<rparr> = session_blanks blinds n"
    by (simp add: blindedBlanks_def session_blanks_def comp_def split_beta)
qed

lemma session_finalized:
  assumes "blind_session S key env epoch n sz blinds sigs creds"
  shows "blind_finalize rt S \<lparr>pb_key = key, pb_blinds = map blinds [0..<n]\<rparr> (JArr (map (\<lambda>i. JStr (bytesToBase64 (sigs i))) [0..<n])) =
    Inr (session_credentials blinds creds n)"
proof -
  have "map_result (finalize_one rt S key) (map (\<lambda>i. (blinds i, JStr (bytesToBase64 (sigs i)))) [0..<n]) =
      Inr (session_credentials blinds creds n)"
    unfolding map_result_Inr_iff session_credentials_def using assms
    by (auto simp: blind_session_def finalize_one_def buffer_of_def split_beta)
  moreover have "zip (map blinds [0..<n]) (map (\<lambda>i. JStr (bytesToBase64 (sigs i))) [0..<n]) =
      map (\<lambda>i. (blinds i, JStr (bytesToBase64 (sigs i)))) [0..<n]"
    by (simp add: zip_map_map zip_same_conv_map)
  ultimately show ?thesis by (simp add: blind_finalize_def promise_all_map_result [THEN iffD2] del: map_map)
qed

lemma session_verified:
  assumes "blind_session S key env epoch n sz blinds sigs creds"
  obtains detail where
    "checkSignaturesVerify rt S \<lparr>pb_key = key, pb_blinds = map blinds [0..<n]\<rparr> (JArr (map (\<lambda>i. JStr (bytesToBase64 (sigs i))) [0..<n])) =
      Inr (pass ''signature verifies'' detail, session_credentials blinds creds n)"
proof -
  have verified: "map_result (blind_verify rt S \<lparr>pb_key = key, pb_blinds = map blinds [0..<n]\<rparr>) (session_credentials blinds creds n)
      = Inr (map (\<lambda>_. True) (session_credentials blinds creds n))"
    by (rule map_result_cong_Inr) (use assms in \<open>auto simp: session_credentials_def blind_verify_def blind_session_def\<close>)
  have "filter (\<lambda>iv. \<not> snd iv) (enumerate 0 (map (\<lambda>_. True) (session_credentials blinds creds n))) = []"
    by (auto simp: filter_empty_conv enumerate_eq_zip dest!: set_zip_rightD)
  then show ?thesis
    by (intro that) (simp add: checkSignaturesVerify_def session_finalized [OF assms] verified Let_def)
qed

text \<open>The response the issuer gives in such a session passes the checks of the bundle.\<close>

lemma session_bundle_passed:
  assumes "blind_session S key env epoch n sz blinds sigs creds" and "0 < sz"
    and "bp_bundleSize ps = n" and "bp_signatureSizeBytes ps = sz"
  shows "cr_passed (checkBundle rt (response_json (session_response epoch sigs n)) (JStr epoch) ps)"
proof -
  have "\<forall>sig \<in> set (map sigs [0..<n]). length sig = sz" using assms(1) by (auto simp: blind_session_def)
  then show ?thesis
    using assms(2-4) by (intro bundle_passed [THEN iffD2] exI [of _ "map sigs [0..<n]"])
      (simp_all add: response_json_def session_response_def comp_def)
qed

subsection \<open>The issuer's side\<close>

lemma session_issued:
  assumes "blind_session S key env epoch n sz blinds sigs creds" and "n = bundleSize (rq_config env)"
    and "0 < blankSizeBytes (rq_config env)" and "epoch \<noteq> []"
    and "fst (allow (rq_redis env) (rq_config env) (rq_now env) (rq_uuid env) ref s) = Inr True"
    and "keys_usable (rq_rt env) (rq_keys env) epoch (rq_signNow env) = Inr (Some e)"
    and "ref \<notin> claimed_references d"
  shows "\<exists>s' d'. issue env (reference_grant ref) idem (bundle_body epoch (session_blanks blinds n)) (s, d) =
    (Inr (session_response epoch sigs n), s', d')"
proof -
  let ?blanks = "session_blanks blinds n"
  have "check_blanks (rq_rt env) (rq_config env) 0 (map JStr ?blanks) = Inr ?blanks"
    unfolding check_blanks_Inr_iff [OF assms(3)]
    by (rule exI [of _ "map (\<lambda>i. fst (snd (blinds i))) [0..<n]"])
      (use assms(1) in \<open>auto simp: blind_session_def session_blanks_def\<close>)
  then have valid: "validateBundleRequest (rq_rt env) (bundle_body epoch ?blanks) (rq_config env) =
      Inr \<lparr>req_epoch = epoch, blinded_blanks = ?blanks\<rparr>"
    using assms(2,4) by (simp add: validateBundleRequest_def bundle_body_def session_blanks_def)
  have "map_result (signBlindedBlank (rq_pool_sign env) epoch) ?blanks = Inr (map (\<lambda>i. bytesToBase64 (sigs i)) [0..<n])"
    unfolding map_result_Inr_iff session_blanks_def using assms(1) by (auto simp: blind_session_def signBlindedBlank_def)
  then have signed: "signBundle (rq_settles env) (rq_pool_sign env) \<lparr>req_epoch = epoch, blinded_blanks = ?blanks\<rparr> = Inr (session_response epoch sigs n)"
    by (simp add: signBundle_def session_response_def promise_all_map_result [THEN iffD2])
  obtain s' where allow: "allow (rq_redis env) (rq_config env) (rq_now env) (rq_uuid env) ref s = (Inr True, s')"
    using assms(5) by (cases "allow (rq_redis env) (rq_config env) (rq_now env) (rq_uuid env) ref s") simp
  then have prepared: "issue_prepare env (reference_grant ref) (bundle_body epoch ?blanks) s =
      (Inr (\<lparr>req_epoch = epoch, blinded_blanks = ?blanks\<rparr>, session_response epoch sigs n), s')"
    using assms(6) valid signed by (simp add: issue_prepare_def reference_grant_def)
  have "(ref, k) \<notin> set (map idempotency_key (idempotency_record d))" for k
    using assms(7) image_eqI [of ref fst "(ref, k)"] by (auto simp: claimed_references_def)
  then show ?thesis
    using prepared by (simp add: issue_def issue_commit_def record_issuance_def transaction_def record_body_def
        insert_idempotency_def reference_grant_def Let_def)
qed

subsection \<open>The key document, through the proxy\<close>

lemma sandbox_key_document:
  assumes "sandbox_wired b" and "keys_current (rq_keys (sb_envs b (iw_requests (pw_issuer w)))) = Inr doc"
    and "json_plain (published_json doc)"
  shows "keyDocument (sb_client b) (f, w) =
    (Inr (published_json doc), [Sent []], f, w\<lparr>pw_issuer := (pw_issuer w)\<lparr>iw_requests := Suc (iw_requests (pw_issuer w))\<rparr>\<rparr>)"
proof -
  let ?N = "sb_nest b" and ?opts = "sb_client b" and ?url = "strip_slashes (fp_issuerUrl (sb_proxy b))" and ?i = "pw_issuer w"
  let ?path = "''/v1/keys/current''" and ?r = "\<lparr>http_code = 200, http_body = json_stringify (published_json doc)\<rparr>"
  let ?sent = "spread_headers (put_header (lower_headers (spread_headers [] [])) (''host'', url_host ?url)) []"
  have wired: "nest_documented ?N" "plain_origin (base_url ?opts)" "co_payment ?opts = StubReceiptProvider (sb_payer b) (sb_tx b)"
    "co_fetch ?opts = proxy_fetch (sb_rt b) (ce_ed25519 (sb_claims b)) (sb_uuid b) (sb_proxy b)
       (issuer_fetch ?N (sb_envs b) (sb_claims b) ?url)"
    using assms(1) unfolding sandbox_wired_def by blast+
  obtain h body where h: "handle (sb_envs b (iw_requests ?i)) (sb_claims b) GetCurrentKey ?sent body (iw_store ?i, iw_db ?i) =
      (h, iw_store ?i, iw_db ?i)"
    and served: "serve ?N (sb_envs b) (sb_claims b) ''GET'' (snd (route_path GetCurrentKey)) ?sent None ?i =
      (nest_reply ?N ''GET'' h, ?i\<lparr>iw_requests := Suc (iw_requests ?i)\<rparr>)"
    by (rule serve_get [OF wired(1), of GetCurrentKey "sb_envs b" ?i "sb_claims b" ?sent]) simp
  have "h = Returned (published_json doc)" using h assms(2) by (simp add: keys_controller_current_def)
  moreover have "nest_created ?N ''GET'' = 200" using wired(1) by (simp add: nest_documented_def)
  ultimately have "issuer_fetch ?N (sb_envs b) (sb_claims b) ?url ''GET'' (?url @ ?path) ?sent None ?i =
      (Inr ?r, ?i\<lparr>iw_requests := Suc (iw_requests ?i)\<rparr>)"
    using served by (simp add: issuer_fetch_def startsWith_def del: json_stringify.simps)
  moreover have "pathname (base_url ?opts @ ?path) = ?path"
    using pathname_plain [OF wired(2), of "''v1/keys/current''"] by simp
  ultimately have sent: "send ?opts ?path get_init [] w = (Inr ?r, w\<lparr>pw_issuer := ?i\<lparr>iw_requests := Suc (iw_requests ?i)\<rparr>\<rparr>)"
    by (simp add: send_def wired(4) proxy_fetch_def proxy_serve_def forward_def get_init_def Let_def del: json_stringify.simps)
  have "pp_initialHeaders (co_payment ?opts) = []" by (simp add: wired(3) StubReceiptProvider_def)
  with sent show ?thesis
    using assms(3) by (simp add: keyDocument_def request_flow_def finish_def response_ok_def readJson_def Let_def del: json_stringify.simps)
qed

text \<open>The whole purchase: the reports of the document, of the bundle and of the signatures, joined.\<close>

lemma purchase_assembled:
  assumes "po_parameters options = Some ps" and "po_epoch options = None"
    and "keyDocument (po_client options) (direct, w) = (Inr document, tr1, f1, w1)" and "document \<noteq> JNull"
    and "get_prop document ''epoch_id'' = JStr epoch"
    and "blind_prepare (co_rt (po_client options)) S (bp_bundleSize ps) (get_prop document ''pubkey'') = Inr prepared"
    and "client_purchaseBundle (po_client options) (JStr epoch) (blindedBlanks prepared) (f1, w1) = (Inr response, tr2, f2, w2)"
    and "response \<noteq> JNull"
    and "checkSignaturesVerify (co_rt (po_client options)) S prepared (get_prop response ''blind_signatures'') = Inr (check, cs)"
    and "cr_passed (checkKeyDocument (co_rt (po_client options)) document)"
    and "cr_passed (checkBundle (co_rt (po_client options)) response (JStr epoch) ps)" and "ck_passed check"
  shows "\<exists>result. harness_purchaseBundle S options w = (Inr result, tr1 @ tr2, w2) \<and> cr_passed (pr_conformance result)
    \<and> pr_credentials result = cs \<and> pr_paymentFlow result = f2"
  using assms by (simp add: harness_purchaseBundle_def Let_def report_passes)

lemma session_fits:
  assumes "valid_utf8 epoch"
  shows "json_plain (bundle_body epoch (session_blanks blinds n))"
proof -
  have "valid_utf8 ''epoch''" "valid_utf8 ''blinded_blanks''"
    by (rule valid_utf8_all_ascii, simp add: ascii_def in_range_def)+
  then show ?thesis using assms by (simp add: bundle_body_def session_blanks_def)
qed

end
