(* ===== verification/FakeIssuer.thy ===== *)
theory FakeIssuer
  imports Conformance FakeProxy
begin

text \<open>
  \<open>testing/fake-issuer.ts\<close> of the buyer harness: an issuer that can be told to return one blob of the wrong size, so
  that the harness can be tested against nonconformance. Its random bytes are the argument \<open>random\<close>: \<open>random i n\<close> are
  the \<open>n\<close> bytes it draws for blob \<open>i\<close>. Its key pair is the argument \<open>spki\<close>.
\<close>

record fake_options = bundle_parameters +
  wrongSizedBlobIndex :: "nat option"

definition fake_keyDocument :: "bytes \<Rightarrow> jsval" where
  "fake_keyDocument spki =
     JObj [(''epoch_id'', JStr ''0''), (''not_before'', JStr ''2026-01-01T00:00:00.000Z''),
           (''not_after'', JStr ''2027-01-01T00:00:00.000Z''), (''alg'', JStr ''RSABSSA-SHA384-PSS-Randomized''),
           (''pubkey'', JStr (bytesToBase64 spki))]"

definition fake_blob_size :: "fake_options \<Rightarrow> nat \<Rightarrow> nat" where
  "fake_blob_size opts index =
     (if wrongSizedBlobIndex opts = Some index then bp_signatureSizeBytes opts - 1 else bp_signatureSizeBytes opts)"

definition fake_blobs :: "(nat \<Rightarrow> nat \<Rightarrow> bytes) \<Rightarrow> fake_options \<Rightarrow> bytes list" where
  "fake_blobs random opts = map (\<lambda>index. random index (fake_blob_size opts index)) [0..<bp_bundleSize opts]"

definition fake_answer :: "(nat \<Rightarrow> nat \<Rightarrow> bytes) \<Rightarrow> fake_options \<Rightarrow> bytes \<Rightarrow> jsval" where
  "fake_answer random opts spki =
     JObj [(''epoch'', get_prop (fake_keyDocument spki) ''epoch_id''),
           (''blind_signatures'', JArr (map (\<lambda>b. JStr (bytesToBase64 b)) (fake_blobs random opts)))]"

definition fake_issuer_fetch :: "(nat \<Rightarrow> nat \<Rightarrow> bytes) \<Rightarrow> fake_options \<Rightarrow> bytes \<Rightarrow> 'w fetch" where
  "fake_issuer_fetch random opts spki meth url hs body w =
     (let path = pathname url in
      if path = ''/v1/keys/current'' then (Inr \<lparr>http_code = 200, http_body = json_stringify (fake_keyDocument spki)\<rparr>, w)
      else if path \<noteq> ''/v1/bundles'' then (Inr \<lparr>http_code = 404, http_body = ''not found''\<rparr>, w)
      else (Inr \<lparr>http_code = 201, http_body = json_stringify (fake_answer random opts spki)\<rparr>, w))"

lemma fake_answer_plain: "json_plain (fake_answer random opts spki)"
proof -
  have "valid_utf8 ''epoch''" "valid_utf8 ''blind_signatures''" "valid_utf8 ''0''"
    by (rule valid_utf8_all_ascii, simp add: ascii_def in_range_def)+
  then show ?thesis by (simp add: fake_answer_def fake_keyDocument_def)
qed

text \<open>A purchase from the fake issuer ends in its answer, whatever the buyer sends.\<close>

lemma fake_purchase:
  assumes "co_fetch client = fake_issuer_fetch random opts spki" and "plain_origin (base_url client)"
  shows "client_purchaseBundle client epoch blanks (f, w) =
    (Inr (fake_answer random opts spki), [Sent (pp_initialHeaders (co_payment client))], f, w)"
proof -
  have "pathname (base_url client @ ''/v1/bundles'') = ''/v1/bundles''"
    using pathname_plain [OF assms(2), of "''v1/bundles''"] by simp
  then show ?thesis
    using fake_answer_plain [of random opts spki]
    by (simp add: client_purchaseBundle_def request_flow_def send_def assms(1) fake_issuer_fetch_def Let_def finish_def
        response_ok_def readJson_def del: json_stringify.simps)
qed

text \<open>Which of its blobs are the right size.\<close>

lemma fake_blobs_sized:
  assumes "\<And>i n. length (random i n) = n" and "0 < bp_signatureSizeBytes opts"
  shows "(\<forall>b \<in> set (fake_blobs random opts). length b = bp_signatureSizeBytes opts)
    \<longleftrightarrow> \<not> (\<exists>i < bp_bundleSize opts. wrongSizedBlobIndex opts = Some i)"
  using assms by (auto simp: fake_blobs_def fake_blob_size_def)

lemma fake_blob_list:
  "get_prop (fake_answer random opts spki) ''blind_signatures'' = JArr (map (\<lambda>b. JStr (bytesToBase64 b)) (fake_blobs random opts))"
  "get_prop (fake_answer random opts spki) ''epoch'' = JStr ''0''" "length (fake_blobs random opts) = bp_bundleSize opts"
  by (simp_all add: fake_answer_def fake_keyDocument_def fake_blobs_def)

lemma fake_bundle_passed:
  assumes "\<And>i n. length (random i n) = n" and "0 < bp_signatureSizeBytes opts"
    and "ps = bundle_parameters.truncate opts"
  shows "cr_passed (checkBundle rt (fake_answer random opts spki) (JStr ''0'') ps)
    \<longleftrightarrow> \<not> (\<exists>i < bp_bundleSize opts. wrongSizedBlobIndex opts = Some i)"
proof -
  have ps: "0 < bp_signatureSizeBytes ps" "bp_signatureSizeBytes ps = bp_signatureSizeBytes opts" "bp_bundleSize ps = bp_bundleSize opts"
    using assms(2,3) by (simp_all add: bundle_parameters.truncate_def)
  have inj: "map (\<lambda>b. JStr (bytesToBase64 b)) xs = map (\<lambda>b. JStr (bytesToBase64 b)) ys \<longleftrightarrow> xs = ys" for xs ys
    by (rule inj_map_eq_map) (auto intro!: injI dest: arg_cong [of _ _ "base64ToBytes rt"])
  show ?thesis
    unfolding bundle_passed [OF ps(1)] fake_blob_list jsval.inject inj ps
    using fake_blobs_sized [OF assms(1,2)] fake_blob_list(3) by auto
qed

end
