(* ===== verification/TestVectors.thy ===== *)
theory TestVectors
  imports Conformance JsonPretty
begin

text \<open>
  \<open>vector-file.ts\<close> and \<open>scripts/generate-test-vectors.ts\<close>: the published RFC 9474 vectors. Regenerating replaces the
  vectors this repository produced and keeps those of the other implementation. The suite and the key generation of
  \<open>@cloudflare/blindrsa-ts\<close> are the record \<open>vector_suite\<close>; a key is exported as its PKCS#8 and SPKI bytes.
\<close>

definition VECTOR_SUITE :: string where "VECTOR_SUITE = ''RSABSSA-SHA384-PSS-Randomized''"

definition TS_ORIGIN :: string where "TS_ORIGIN = ''blindrsa-ts''"

record test_vector =
  tv_name :: string
  tv_origin :: string
  tv_modulus_bits :: nat
  tv_private_key_pkcs8 :: string
  tv_public_key_spki :: string
  tv_prepared_msg :: string
  tv_blinded_msg :: string
  tv_blind_sig :: string
  tv_inv :: "string option"
  tv_sig :: string

record test_vector_file =
  tf_suite :: string
  tf_vectors :: "test_vector list"

record ('sk, 'pk) vector_suite =
  vs_generateKey :: "nat \<Rightarrow> 'sk \<times> 'pk"
  vs_pkcs8 :: "'sk \<Rightarrow> bytes"
  vs_spki :: "'pk \<Rightarrow> bytes"
  vs_prepare :: "bytes \<Rightarrow> bytes"
  vs_blind :: "'pk \<Rightarrow> bytes \<Rightarrow> string + bytes \<times> bytes"
  vs_blindSign :: "'sk \<Rightarrow> bytes \<Rightarrow> string + bytes"
  vs_finalize :: "'pk \<Rightarrow> bytes \<Rightarrow> bytes \<Rightarrow> bytes \<Rightarrow> string + bytes"
  vs_verify :: "'pk \<Rightarrow> bytes \<Rightarrow> bytes \<Rightarrow> bool"

definition generate :: "('sk, 'pk) vector_suite \<Rightarrow> nat \<Rightarrow> string + test_vector" where
  "generate S index =
     (case vs_generateKey S index of
        (privateKey, publicKey) \<Rightarrow>
          (let prepared = vs_prepare S (utf8_encode (''anyone-credential-serial-'' @ show_nat index)) in
           case vs_blind S publicKey prepared of
             Inl e \<Rightarrow> Inl e
           | Inr (blindedMsg, blindInv) \<Rightarrow>
               (case vs_blindSign S privateKey blindedMsg of
                  Inl e \<Rightarrow> Inl e
                | Inr blindSig \<Rightarrow>
                    (case vs_finalize S publicKey prepared blindSig blindInv of
                       Inl e \<Rightarrow> Inl e
                     | Inr signature \<Rightarrow>
                         if \<not> vs_verify S publicKey signature prepared
                         then Inl (''generated vector '' @ show_nat index @ '' does not verify against its own key'')
                         else Inr \<lparr>tv_name = ''blindrsa-ts-'' @ show_nat index, tv_origin = TS_ORIGIN, tv_modulus_bits = 2048,
                                   tv_private_key_pkcs8 = bytes_hex (vs_pkcs8 S privateKey),
                                   tv_public_key_spki = bytes_hex (vs_spki S publicKey),
                                   tv_prepared_msg = bytes_hex prepared, tv_blinded_msg = bytes_hex blindedMsg,
                                   tv_blind_sig = bytes_hex blindSig, tv_inv = Some (bytes_hex blindInv),
                                   tv_sig = bytes_hex signature\<rparr>))))"

text \<open>The script, from the file it found to the file it writes; \<open>None\<close>: there was none.\<close>

definition preserved :: "test_vector_file option \<Rightarrow> test_vector list" where
  "preserved existing = filter (\<lambda>v. tv_origin v \<noteq> TS_ORIGIN) (case existing of None \<Rightarrow> [] | Some file \<Rightarrow> tf_vectors file)"

definition regenerate :: "('sk, 'pk) vector_suite \<Rightarrow> test_vector_file option \<Rightarrow> string + test_vector_file" where
  "regenerate S existing =
     (case map_result (generate S) [0, 1] of
        Inl e \<Rightarrow> Inl e
      | Inr generated \<Rightarrow> Inr \<lparr>tf_suite = VECTOR_SUITE, tf_vectors = generated @ preserved existing\<rparr>)"

text \<open>Every vector that was generated names bytes that verify.\<close>

lemma generate_verified:
  assumes "generate S index = Inr v"
  obtains sk pk prepared signature where "vs_generateKey S index = (sk, pk)" and "tv_origin v = TS_ORIGIN"
    and "tv_public_key_spki v = bytes_hex (vs_spki S pk)" and "tv_prepared_msg v = bytes_hex prepared"
    and "tv_sig v = bytes_hex signature" and "vs_verify S pk signature prepared"
  using assms by (auto simp: generate_def Let_def split: prod.splits sum.splits if_splits)

lemma regenerate_preserves:
  assumes "regenerate S existing = Inr file"
  shows "filter (\<lambda>v. tv_origin v \<noteq> TS_ORIGIN) (tf_vectors file) = preserved existing" and "preserved (Some file) = preserved existing"
proof -
  obtain generated where g: "map_result (generate S) [0, 1] = Inr generated" "tf_vectors file = generated @ preserved existing"
    using assms by (auto simp: regenerate_def split: sum.splits)
  then have "map (generate S) [0, 1] = map Inr generated" by (simp only: map_result_Inr_iff)
  have "tv_origin v = TS_ORIGIN" if "v \<in> set generated" for v
  proof -
    have "Inr v \<in> set (map (generate S) [0, 1])" unfolding \<open>map (generate S) [0, 1] = map Inr generated\<close> using that by simp
    then obtain i where "generate S i = Inr v" by auto
    then show ?thesis by (rule generate_verified)
  qed
  then have "filter (\<lambda>v. tv_origin v \<noteq> TS_ORIGIN) generated = []" by (simp add: filter_empty_conv)
  moreover have "filter (\<lambda>v. tv_origin v \<noteq> TS_ORIGIN) (preserved existing) = preserved existing"
    by (auto simp: preserved_def)
  ultimately show "filter (\<lambda>v. tv_origin v \<noteq> TS_ORIGIN) (tf_vectors file) = preserved existing" by (simp add: g(2))
  then show "preserved (Some file) = preserved existing" by (simp add: preserved_def)
qed

end
