(* ===== verification/PropertiesSandbox.thy ===== *)
theory PropertiesSandbox
  imports Samples EndToEnd FakeIssuer TestVectors
begin

text \<open>
  The properties of the issuer as a web server, and of a buyer, a proxy and an issuer wired together, with their
  witnesses.
\<close>

subsection \<open>The server\<close>

text \<open>C9. The rail a credential came from cannot be read off a success: when a purchase and a pickup of the same request
  body are both answered with a status of the two hundreds, on issuers with the same configuration and signing keys,
  status and body of the two responses are the same, namely 201 and the bundle, whatever headers authorised them.
  (Refusals do differ: each rail has its own.)\<close>

theorem rails_indistinguishable:
  assumes "nest_documented N" and "json_plain (JObj kvs)" and "length (json_stringify (JObj kvs)) \<le> 102400"
    and "header_value ''content-type'' hs1 = Some ''application/json''" and "header_value ''content-type'' hs2 = Some ''application/json''"
    and "rq_rt (envs1 (iw_requests w1)) = rq_rt (envs2 (iw_requests w2))"
    and "rq_config (envs1 (iw_requests w1)) = rq_config (envs2 (iw_requests w2))"
    and "rq_pool_sign (envs1 (iw_requests w1)) = rq_pool_sign (envs2 (iw_requests w2))"
    and "serve N envs1 cenv ''POST'' ''/v1/bundles'' hs1 (Some (json_stringify (JObj kvs))) w1 = (r1, w1')" and "200 \<le> http_code r1" and "http_code r1 < 300"
    and "serve N envs2 cenv ''POST'' ''/v1/entitlements/pickup'' hs2 (Some (json_stringify (JObj kvs))) w2 = (r2, w2')" and "200 \<le> http_code r2" and "http_code r2 < 300"
  shows "r1 = r2 \<and> http_code r1 = 201
    \<and> (\<exists>request resp. validateBundleRequest (rq_rt (envs1 (iw_requests w1))) (JObj kvs) (rq_config (envs1 (iw_requests w1))) = Inr request
          \<and> signBundle (rq_settles (envs1 (iw_requests w1))) (rq_pool_sign (envs1 (iw_requests w1))) request = Inr resp \<and> http_body r1 = json_stringify (response_json resp))"
proof -
  let ?env1 = "envs1 (iw_requests w1)" and ?env2 = "envs2 (iw_requests w2)"
  obtain h1 s1 d1 where h1: "handle ?env1 cenv PostBundles hs1 (JObj kvs) (iw_store w1, iw_db w1) = (h1, s1, d1)"
    by (metis prod_cases3)
  obtain h2 s2 d2 where h2: "handle ?env2 cenv PostPickup hs2 (JObj kvs) (iw_store w2, iw_db w2) = (h2, s2, d2)"
    by (metis prod_cases3)
  have r: "r1 = nest_reply N ''POST'' h1" "r2 = nest_reply N ''POST'' h2"
    using serve_post [where envs = envs1 and w = w1, OF assms(1) _ assms(2,3,4) h1]
      serve_post [where envs = envs2 and w = w2, OF assms(1) _ assms(2,3,5) h2] assms(9,12)
    by (simp_all del: json_stringify.simps)
  with assms(10,11,13,14) obtain v1 v2 where "h1 = Returned v1" "h2 = Returned v2"
    using reply_success [OF assms(1)] by metis
  with h1 h2 obtain resp1 resp2 g1 g2 k1 k2 sd1 sd2 where
      i1: "issue ?env1 g1 k1 (JObj kvs) sd1 = (Inr resp1, s1, d1)" "v1 = response_json resp1"
    and i2: "issue ?env2 g2 k2 (JObj kvs) sd2 = (Inr resp2, s2, d2)" "v2 = response_json resp2"
    by (auto simp: bundles_controller_purchase_def entitlements_controller_pickup_def purchase_def pickup_def Let_def
        handled_with_Returned split: prod.splits sum.splits if_splits option.splits)
  obtain q1 where q1: "issue_prepare ?env1 g1 (JObj kvs) (fst sd1) = (Inr (q1, resp1), s1)"
    using issue_success [of ?env1 g1 k1 "JObj kvs" "fst sd1" "snd sd1"] i1 by auto
  obtain q2 where q2: "issue_prepare ?env2 g2 (JObj kvs) (fst sd2) = (Inr (q2, resp2), s2)"
    using issue_success [of ?env2 g2 k2 "JObj kvs" "fst sd2" "snd sd2"] i2 by auto
  have "q1 = q2 \<and> resp1 = resp2"
    using issue_prepare_Inr [OF q1] issue_prepare_Inr [OF q2] assms(6-8) by (metis Inr_inject signBundle_settles)
  moreover have "http_code r1 = 201"
    using reply_created [OF assms(1)] r(1) \<open>h1 = Returned v1\<close> by blast
  moreover have "validateBundleRequest (rq_rt ?env1) (JObj kvs) (rq_config ?env1) = Inr q1" "signBundle (rq_settles ?env1) (rq_pool_sign ?env1) q1 = Inr resp1"
    using q1 by (elim issue_prepare_Inr, simp)+
  ultimately show ?thesis using r i1(2) i2(2) \<open>h1 = Returned v1\<close> \<open>h2 = Returned v2\<close> by (auto simp del: json_stringify.simps)
qed

subsection \<open>A buyer, a proxy and an issuer\<close>

text \<open>A purchase through the proxy is paid for once and issued once. The buyer asks, pays the one requirement it is
  sent and asks again; the proxy settles one fresh reference and signs a claim for it; the issuer admits that claim and
  does exactly what \<open>issue\<close> does for the reference and the request. The buyer gets the issuer's bundle, or the status of
  its refusal.\<close>

theorem sandbox_purchase_issues:
  fixes w :: "'s issuer_world proxy_world"
  assumes "sandbox_wired b" and "json_plain (bundle_body epoch blanks)"
    and "length (json_stringify (bundle_body epoch blanks)) \<le> 102400"
    and "ref = minted (sb_uuid b (Suc (pw_drawn w)))" and "i = pw_issuer w"
    and "issue (sb_envs b (iw_requests i)) (reference_grant ref) (sent_key (co_idempotencyKey (sb_client b)))
       (bundle_body epoch blanks) (iw_store i, iw_db i) = (res, s', d')"
  shows "\<exists>r tr w'. client_purchaseBundle (sb_client b) (JStr epoch) blanks (f, w) = (r, tr, retry_402, w')
    \<and> length (filter is_paid tr) = 1 \<and> pw_settled w' = pw_settled w @ [ref]
    \<and> iw_store (pw_issuer w') = s' \<and> iw_db (pw_issuer w') = d'
    \<and> (case res of Inr resp \<Rightarrow> r = Inr (response_json resp)
         | Inl e \<Rightarrow> \<exists>msg code. r = Inl (IssuerRequestError msg (Some (http_status e)) code))"
proof -
  obtain r tr where "client_purchaseBundle (sb_client b) (JStr epoch) blanks (f, w) =
      (r, tr, retry_402, \<lparr>pw_issuer = \<lparr>iw_store = s', iw_db = d', iw_requests = Suc (iw_requests (pw_issuer w))\<rparr>,
         pw_settled = pw_settled w @ [ref], pw_drawn = Suc (Suc (pw_drawn w))\<rparr>)"
    and "length (filter is_paid tr) = 1"
    and "case res of Inr resp \<Rightarrow> r = Inr (response_json resp)
       | Inl e \<Rightarrow> \<exists>msg code. r = Inl (IssuerRequestError msg (Some (http_status e)) code)"
    by (rule sandbox_purchase [OF assms(1-4) assms(6) [unfolded assms(5)]])
  then show ?thesis by auto
qed

text \<open>C15. Behind this proxy an idempotency key does not help: the proxy names a fresh payment reference per request, so
  the retry of a purchase under the same key is settled again, paid again and issued again.\<close>

theorem proxy_retry_issues_again:
  fixes w :: "'s issuer_world proxy_world"
  assumes "sandbox_wired b" and "json_plain (bundle_body epoch blanks)"
    and "length (json_stringify (bundle_body epoch blanks)) \<le> 102400"
    and "inj (sb_uuid b)" and "\<forall>n. minted (sb_uuid b n) \<notin> claimed_references (iw_db (pw_issuer w))"
    and "client_purchaseBundle (sb_client b) (JStr epoch) blanks (f, w) = (Inr v1, tr1, f1, w1)"
    and "client_purchaseBundle (sb_client b) (JStr epoch) blanks (f1, w1) = (Inr v2, tr2, f2, w2)"
  shows "length (issuance_record (iw_db (pw_issuer w2))) = length (issuance_record (iw_db (pw_issuer w))) + 2
    \<and> length (pw_settled w2) = length (pw_settled w) + 2 \<and> length (filter is_paid (tr1 @ tr2)) = 2"
  using sandbox_success [OF assms(1-3,6)] sandbox_success [OF assms(1-3,7)] assms(4,5)
  by (fastforce simp: minted_def inj_eq)

text \<open>C7. A whole purchase through the proxy passes. The buyer reads the issuer's key document, blinds, pays once, and
  the issuer's pool signs: when the keyring is acceptable, its epoch is usable, the reference fresh and within its rate,
  and the blind signature scheme does what RFC 9474 says of it, the harness reports conformance and holds the
  credentials of the session; one reference is settled and one bundle is entered in the ledger.\<close>

theorem sandbox_purchase_passes:
  fixes w :: "'s issuer_world proxy_world"
  assumes "sandbox_wired b" and "po_client options = sb_client b" and "po_epoch options = None"
    and "n = iw_requests (pw_issuer w)" and "env = sb_envs b (Suc n)" and "ref = minted (sb_uuid b (Suc (pw_drawn w)))"
    and "keyring_ok k" and "ks_keyring (rq_keys (sb_envs b n)) = Some k" and "currentEpoch k = Inr entry"
    and "json_plain (published_json (publishedDocument entry))" and "pubkey entry = bytesToBase64 spki" and "bs_import S spki = Inr key"
    and "blind_session S key env (epoch_id entry) (bundleSize (rq_config env)) sz blinds sigs creds"
    and "po_parameters options = Some \<lparr>bp_bundleSize = bundleSize (rq_config env), bp_blankSizeBytes = blankSizeBytes (rq_config env),
       bp_signatureSizeBytes = sz\<rparr>" and "0 < sz" and "0 < blankSizeBytes (rq_config env)"
    and "length (json_stringify (bundle_body (epoch_id entry) (session_blanks blinds (bundleSize (rq_config env))))) \<le> 102400"
    and "fst (allow (rq_redis env) (rq_config env) (rq_now env) (rq_uuid env) ref (iw_store (pw_issuer w))) = Inr True"
    and "keys_usable (rq_rt env) (rq_keys env) (epoch_id entry) (rq_signNow env) = Inr (Some e)"
    and "ref \<notin> claimed_references (iw_db (pw_issuer w))"
  shows "\<exists>result tr w'. harness_purchaseBundle S options w = (Inr result, tr, w') \<and> cr_passed (pr_conformance result)
    \<and> pr_credentials result = session_credentials blinds creds (bundleSize (rq_config env))
    \<and> length (filter is_paid tr) = 1 \<and> pw_settled w' = pw_settled w @ [ref]
    \<and> length (issuance_record (iw_db (pw_issuer w'))) = Suc (length (issuance_record (iw_db (pw_issuer w))))"
proof -
  let ?i = "pw_issuer w" and ?k = "bundleSize (rq_config env)" and ?epoch = "epoch_id entry"
  let ?w1 = "w\<lparr>pw_issuer := ?i\<lparr>iw_requests := Suc (iw_requests ?i)\<rparr>\<rparr>" and ?doc = "published_json (publishedDocument entry)"
  let ?resp = "session_response ?epoch sigs ?k" and ?rt = "co_rt (po_client options)"
  let ?body = "bundle_body ?epoch (session_blanks blinds ?k)"
  have "keys_current (rq_keys (sb_envs b (iw_requests ?i))) = Inr (publishedDocument entry)"
    using assms(4,8,9) by (simp add: keys_current_def require_keyring_def)
  note doc = sandbox_key_document [where f = direct, OF assms(1) this assms(10)]
  have entry: "?epoch \<noteq> []" "get_prop ?doc ''epoch_id'' = JStr ?epoch" "get_prop ?doc ''pubkey'' = JStr (bytesToBase64 spki)" "?doc \<noteq> JNull"
    using currentEpoch_ok [OF assms(7)] assms(7,9,11)
    by (auto simp: published_json_def publishedDocument_def keyring_ok_def entry_ok_def)
  have utf8: "valid_utf8 ?epoch" using assms(10) by (simp add: published_json_def publishedDocument_def)
  obtain s' d' where issue: "issue env (reference_grant ref) (sent_key (co_idempotencyKey (sb_client b))) ?body (iw_store ?i, iw_db ?i) = (Inr ?resp, s', d')"
    using session_issued [OF assms(13) refl assms(16) entry(1) assms(18-20)] by blast
  then have served: "issue (sb_envs b (iw_requests (pw_issuer ?w1))) (reference_grant ref) (sent_key (co_idempotencyKey (sb_client b))) ?body
      (iw_store (pw_issuer ?w1), iw_db (pw_issuer ?w1)) = (Inr ?resp, s', d')"
    using assms(4,5) by simp
  have drawn: "ref = minted (sb_uuid b (Suc (pw_drawn ?w1)))" using assms(6) by simp
  obtain r tr where buy: "client_purchaseBundle (sb_client b) (JStr ?epoch) (session_blanks blinds ?k) (direct, ?w1) =
      (r, tr, retry_402, \<lparr>pw_issuer = \<lparr>iw_store = s', iw_db = d', iw_requests = Suc (iw_requests (pw_issuer ?w1))\<rparr>,
         pw_settled = pw_settled ?w1 @ [ref], pw_drawn = Suc (Suc (pw_drawn ?w1))\<rparr>)"
    and paid: "length (filter is_paid tr) = 1"
    and "case Inr ?resp of Inr resp \<Rightarrow> r = Inr (response_json resp)
       | Inl e \<Rightarrow> \<exists>msg code. r = Inl (IssuerRequestError msg (Some (http_status e)) code)"
    by (rule sandbox_purchase [OF assms(1) session_fits [OF utf8] assms(17) drawn served])
  then have r: "r = Inr (response_json ?resp)" by simp
  obtain detail where check: "checkSignaturesVerify ?rt S \<lparr>pb_key = key, pb_blinds = map blinds [0..<?k]\<rparr>
      (get_prop (response_json ?resp) ''blind_signatures'') = Inr (pass ''signature verifies'' detail, session_credentials blinds creds ?k)"
    using session_verified [OF assms(13), of ?rt] by (auto simp: response_json_def session_response_def comp_def)
  have "\<exists>result. harness_purchaseBundle S options w = (Inr result, [Sent []] @ tr, \<lparr>pw_issuer = \<lparr>iw_store = s', iw_db = d',
       iw_requests = Suc (iw_requests (pw_issuer ?w1))\<rparr>, pw_settled = pw_settled ?w1 @ [ref], pw_drawn = Suc (Suc (pw_drawn ?w1))\<rparr>)
    \<and> cr_passed (pr_conformance result) \<and> pr_credentials result = session_credentials blinds creds ?k \<and> pr_paymentFlow result = retry_402"
    by (rule purchase_assembled [OF assms(14,3) doc [folded assms(2)] entry(4,2) _ _ _ check entry_document_passed [OF assms(7,9)]
        session_bundle_passed [OF assms(13,15)]])
      (use buy r session_prepared [OF assms(13,12)] entry(3) in \<open>simp_all add: assms(2) response_json_def\<close>)
  then show ?thesis using paid fresh_reference_issues(1) [OF issue assms(20)] by auto
qed

subsection \<open>The test issuer\<close>

text \<open>The harness catches a blob of the wrong size: from the test issuer it gets the bundle that issuer was told to
  make, and the only check of it that fails is the signature size, exactly when one of its blobs was told to be short.\<close>

theorem wrong_size_detected:
  assumes "co_fetch client = fake_issuer_fetch random opts spki" and "plain_origin (base_url client)"
    and "\<forall>i n. length (random i n) = n" and "0 < bp_signatureSizeBytes opts"
  shows "\<exists>response tr. client_purchaseBundle client epoch blanks (f, w) = (Inr response, tr, f, w)
    \<and> map ck_name (failures (checkBundle rt response (JStr ''0'') (bundle_parameters.truncate opts))) =
       (case wrongSizedBlobIndex opts of None \<Rightarrow> []
        | Some i \<Rightarrow> if i < bp_bundleSize opts then [''signature size''] else [])"
proof -
  let ?ps = "bundle_parameters.truncate opts" and ?blobs = "map (\<lambda>b. JStr (bytesToBase64 b)) (fake_blobs random opts)"
  have sel: "bp_bundleSize ?ps = bp_bundleSize opts" "bp_signatureSizeBytes ?ps = bp_signatureSizeBytes opts"
    by (simp_all add: bundle_parameters.truncate_def)
  let ?size = "checkSignatureSize rt ?blobs (bp_signatureSizeBytes opts)"
  have checks: "failures (checkBundle rt (fake_answer random opts spki) (JStr ''0'') ?ps) = filter (\<lambda>c. \<not> ck_passed c) [?size]"
    by (simp add: checkBundle_def failures_def fake_blob_list sel Let_def)
  have "ck_name ?size = ''signature size''"
    by (simp add: checkSignatureSize_def pass_def fail_def Let_def)
  moreover have "ck_passed ?size \<longleftrightarrow> \<not> (\<exists>i < bp_bundleSize opts. wrongSizedBlobIndex opts = Some i)"
    using fake_bundle_passed [of random opts ?ps rt spki] assms(3,4)
    by (simp add: checkBundle_def fake_blob_list sel Let_def)
  ultimately have "map ck_name (failures (checkBundle rt (fake_answer random opts spki) (JStr ''0'') ?ps)) =
      (case wrongSizedBlobIndex opts of None \<Rightarrow> [] | Some i \<Rightarrow> if i < bp_bundleSize opts then [''signature size''] else [])"
    unfolding checks by (auto split: option.split)
  with fake_purchase [OF assms(1,2), of epoch blanks f w] show ?thesis by blast
qed

subsection \<open>Witnesses\<close>

text \<open>A framework that does what is documented and nothing else.\<close>

definition plain_nest :: nest where
  "plain_nest =
     \<lparr>nest_match = (\<lambda>meth path. List.find (\<lambda>r. route_path r = (meth, path))
        [PostBundles, PostEntitlements, PostPickup, GetCurrentKey, GetHealth]),
      nest_parse = (\<lambda>hs body. case body of None \<Rightarrow> Some JUndefined | Some t \<Rightarrow> json_parse t),
      nest_created = (\<lambda>meth. if meth = ''POST'' then 201 else 200),
      nest_exception = (\<lambda>e. \<lparr>http_code = http_status e,
        http_body = (case e of IssuerException c m \<Rightarrow> json_stringify (exception_body c m) | _ \<Rightarrow> [])\<rparr>),
      nest_unavailable = (\<lambda>v. \<lparr>http_code = 503, http_body = json_stringify v\<rparr>),
      nest_refused = \<lparr>http_code = 400, http_body = []\<rparr>, nest_missing = \<lparr>http_code = 404, http_body = []\<rparr>\<rparr>"

lemma plain_nest_documented: "nest_documented plain_nest"
proof -
  have "nest_match plain_nest (fst (route_path r)) (snd (route_path r)) = Some r" for r
    by (cases r) (simp_all add: plain_nest_def)
  then show ?thesis
    by (simp add: nest_documented_def plain_nest_def del: json_stringify.simps json_plain.simps)
qed

text \<open>The sample issuer behind a proxy that asks the bundle price. The pool answers every blank with three bytes.\<close>

definition sandbox_env :: "nat \<Rightarrow> mem_store request_env" where
  "sandbox_env n = (sample_env 1 (show_nat n))\<lparr>rq_pool_sign := \<lambda>e t. Inr (bytesToBase64 ''xyz'')\<rparr>"

definition sandbox_proxy :: "proxy_options" where
  "sandbox_proxy =
     \<lparr>fp_issuerUrl = ''http://issuer'', fp_signingKeyPem = derToPkcs8Pem ''key'', fp_amount = Some ''1.0'', fp_routeId = Some ''route'',
      fp_crash = \<lparr>http_code = 500, http_body = []\<rparr>\<rparr>"

definition sandbox_sample :: "string option \<Rightarrow> (mem_store, unit, unit) sandbox" where
  "sandbox_sample key =
     \<lparr>sb_rt = strict_runtime, sb_client = \<lparr>co_rt = strict_runtime, co_baseUrl = ''http://proxy'', co_idempotencyKey = key,
        co_payment = StubReceiptProvider ''payer'' ''tx'',
        co_fetch = proxy_fetch strict_runtime sample_ed25519 show_nat sandbox_proxy
          (issuer_fetch plain_nest sandbox_env sample_claim_env (strip_slashes ''http://issuer''))\<rparr>,
      sb_proxy = sandbox_proxy, sb_nest = plain_nest, sb_envs = sandbox_env, sb_claims = sample_claim_env,
      sb_uuid = show_nat, sb_payer = ''payer'', sb_tx = ''tx''\<rparr>"

lemma sandbox_sample_wired: "sandbox_wired (sandbox_sample key)"
proof -
  have "plain_origin (base_url (sb_client (sandbox_sample key)))"
    unfolding plain_origin_def
    by (rule exI [of _ "''http''"], rule exI [of _ "''proxy''"]) (simp add: sandbox_sample_def base_url_def)
  moreover have "proxy_texts sandbox_proxy (show_nat n)" for n
    by (simp add: proxy_texts_def sandbox_proxy_def proxy_amount_def proxy_route_def sample_literals)
  moreover have "decimalEquals (proxy_amount sandbox_proxy) (bundlePrice (rq_config (sandbox_env n)))" for n
    using sample_price(1) by (simp add: proxy_amount_def sandbox_proxy_def sandbox_env_def sample_env_def)
  moreover have "\<exists>holds. blank_signer (rq_pool_sign (sandbox_env n)) holds" for n
    by (rule exI [of _ "\<lambda>_. True"], unfold_locales) (auto simp: sandbox_env_def)
  moreover have "importProxySigningKey strict_runtime sample_ed25519 (fp_signingKeyPem sandbox_proxy) = Inr ()"
    using pkcs8_roundtrip [of strict_runtime "''key''"]
    by (auto simp: importProxySigningKey_def pkcs8PemToDer_def pem_body_def Let_def sample_ed25519_def sandbox_proxy_def split: if_splits)
  ultimately show ?thesis
    using plain_nest_documented
    by (simp add: sandbox_wired_def sandbox_sample_def sample_claim_env_def)
      (simp add: sandbox_env_def sample_ed25519_def, simp add: sandbox_proxy_def)
qed

lemma sandbox_body: "bundle_body ''7'' [''AAAA'', ''BBBB''] = sample_body"
  by (simp add: bundle_body_def sample_body_def)

lemma sandbox_body_fits:
  "json_plain (bundle_body ''7'' [''AAAA'', ''BBBB''])"
  "length (json_stringify (bundle_body ''7'' [''AAAA'', ''BBBB''])) \<le> 102400"
proof -
  have "valid_utf8 ''7''" "valid_utf8 ''AAAA''" "valid_utf8 ''BBBB''" "valid_utf8 ''epoch''" "valid_utf8 ''blinded_blanks''"
    by (rule valid_utf8_all_ascii, simp add: ascii_def in_range_def)+
  then show "json_plain (bundle_body ''7'' [''AAAA'', ''BBBB''])" by (simp add: bundle_body_def)
  have "json_stringify (bundle_body ''7'' [''AAAA'', ''BBBB'']) = ''{\"epoch\":\"7\",\"blinded_blanks\":[\"AAAA\",\"BBBB\"]}''"
    by code_simp
  then show "length (json_stringify (bundle_body ''7'' [''AAAA'', ''BBBB''])) \<le> 102400" by simp
qed

lemma fresh_allow:
  "s (rl_key ref) = [] \<Longrightarrow> allow mem_redis sample_config t u ref s = (Inr True, s(rl_key ref := [(rl_member t u, t)]))"
  by (simp add: allow_def mem_redis_def sample_config_def Let_def)

definition sandbox_response :: bundle_response where
  "sandbox_response = \<lparr>resp_epoch = ''7'', blind_signatures = [bytesToBase64 ''xyz'', bytesToBase64 ''xyz'']\<rparr>"

lemma sandbox_issue:
  assumes "s (rl_key ref) = []" and "ref \<notin> claimed_references d" and "k \<noteq> []"
  shows "\<exists>d'. issue (sandbox_env n) (reference_grant ref) (Some k) sample_body (s, d) =
    (Inr sandbox_response, s(rl_key ref := [(rl_member 1 (show_nat n), 1)]), d')"
proof -
  have "issue_prepare (sandbox_env n) (reference_grant ref) sample_body s =
      (Inr (sample_request, sandbox_response), s(rl_key ref := [(rl_member 1 (show_nat n), 1)]))"
    using sample_usable [of 1] sample_valid fresh_allow [of s ref 1 "show_nat n", OF assms(1)]
    by (simp add: issue_prepare_def sandbox_env_def sample_env_def reference_grant_def sample_request_def signBundle_def promise_all_ok
        signBlindedBlank_def sandbox_response_def)
  moreover have "(ref, k) \<notin> set (map idempotency_key (idempotency_record d))"
    using assms(2) image_eqI [of ref fst "(ref, k)"] by (auto simp: claimed_references_def)
  ultimately show ?thesis
    using assms(3) by (simp add: issue_def issue_commit_def record_issuance_def transaction_def record_body_def
        insert_idempotency_def reference_grant_def Let_def)
qed

definition sandbox_start :: "mem_store issuer_world proxy_world" where
  "sandbox_start = \<lparr>pw_issuer = \<lparr>iw_store = sample_store, iw_db = empty_db, iw_requests = 0\<rparr>, pw_settled = [], pw_drawn = 0\<rparr>"

theorem sandbox_purchase_issues_witness:
  "\<exists>tr w'. client_purchaseBundle (sb_client (sandbox_sample (Some ''k''))) (JStr ''7'') [''AAAA'', ''BBBB''] (direct, sandbox_start) =
      (Inr (response_json sandbox_response), tr, retry_402, w') \<and> length (filter is_paid tr) = 1
    \<and> pw_settled w' = [minted (show_nat 1)]"
proof -
  obtain d' where issue: "issue (sandbox_env 0) (reference_grant (minted (show_nat 1))) (Some ''k'') sample_body (sample_store, empty_db) =
    (Inr sandbox_response, sample_store(rl_key (minted (show_nat 1)) := [(rl_member 1 (show_nat 0), 1)]), d')"
    using sandbox_issue [of sample_store "minted (show_nat 1)" empty_db "''k''" 0]
    by (auto simp: sample_store_def claimed_references_def empty_db_def)
  show ?thesis
    using sandbox_purchase_issues [OF sandbox_sample_wired [of "Some ''k''"] sandbox_body_fits refl refl, where w = sandbox_start and f = direct] issue
    by (simp add: sandbox_sample_def sandbox_start_def sandbox_body sent_key_def) blast
qed

lemma sandbox_run:
  assumes "ref = minted (show_nat (Suc (pw_drawn w)))" and "iw_store (pw_issuer w) (rl_key ref) = []"
    and "ref \<notin> claimed_references (iw_db (pw_issuer w))"
  obtains tr w' x where
    "client_purchaseBundle (sb_client (sandbox_sample (Some ''k''))) (JStr ''7'') [''AAAA'', ''BBBB''] (f, w) =
      (Inr (response_json sandbox_response), tr, retry_402, w')"
    and "iw_store (pw_issuer w') = (iw_store (pw_issuer w))(rl_key ref := x)" and "pw_drawn w' = Suc (Suc (pw_drawn w))"
    and "claimed_references (iw_db (pw_issuer w')) \<subseteq> insert ref (claimed_references (iw_db (pw_issuer w)))"
proof -
  let ?b = "sandbox_sample (Some ''k'')" and ?i = "pw_issuer w"
  let ?s = "(iw_store ?i)(rl_key ref := [(rl_member 1 (show_nat (iw_requests ?i)), 1)])"
  obtain d' where issue: "issue (sandbox_env (iw_requests ?i)) (reference_grant ref) (Some ''k'') sample_body (iw_store ?i, iw_db ?i) =
      (Inr sandbox_response, ?s, d')"
    using sandbox_issue [of "iw_store ?i" ref "iw_db ?i" "''k''" "iw_requests ?i"] assms(2,3) by auto
  have sel: "sb_uuid ?b = show_nat" "sb_envs ?b = sandbox_env" "sent_key (co_idempotencyKey (sb_client ?b)) = Some ''k''"
    by (simp_all add: sandbox_sample_def sent_key_def)
  have served: "issue (sb_envs ?b (iw_requests ?i)) (reference_grant ref) (sent_key (co_idempotencyKey (sb_client ?b)))
      (bundle_body ''7'' [''AAAA'', ''BBBB'']) (iw_store ?i, iw_db ?i) = (Inr sandbox_response, ?s, d')"
    using issue by (simp only: sel sandbox_body)
  have "ref = minted (sb_uuid ?b (Suc (pw_drawn w)))" using assms(1) by (simp only: sel)
  then obtain r tr where "client_purchaseBundle (sb_client ?b) (JStr ''7'') [''AAAA'', ''BBBB''] (f, w) =
      (r, tr, retry_402, \<lparr>pw_issuer = \<lparr>iw_store = ?s, iw_db = d', iw_requests = Suc (iw_requests ?i)\<rparr>,
         pw_settled = pw_settled w @ [ref], pw_drawn = Suc (Suc (pw_drawn w))\<rparr>)"
    and "case Inr sandbox_response of Inr resp \<Rightarrow> r = Inr (response_json resp)
       | Inl e \<Rightarrow> \<exists>msg code. r = Inl (IssuerRequestError msg (Some (http_status e)) code)"
    by (rule sandbox_purchase [OF sandbox_sample_wired sandbox_body_fits _ served])
  then have "client_purchaseBundle (sb_client ?b) (JStr ''7'') [''AAAA'', ''BBBB''] (f, w) =
      (Inr (response_json sandbox_response), tr, retry_402, \<lparr>pw_issuer = \<lparr>iw_store = ?s, iw_db = d', iw_requests = Suc (iw_requests ?i)\<rparr>,
         pw_settled = pw_settled w @ [ref], pw_drawn = Suc (Suc (pw_drawn w))\<rparr>)" by simp
  from this show ?thesis
    by (rule that [of _ _ "[(rl_member 1 (show_nat (iw_requests ?i)), 1)]"])
      (simp_all add: fresh_reference_issues(2) [OF issue assms(3)])
qed

theorem proxy_retry_issues_again_witness:
  "\<exists>v1 tr1 w1 v2 tr2 w2. client_purchaseBundle (sb_client (sandbox_sample (Some ''k''))) (JStr ''7'') [''AAAA'', ''BBBB''] (direct, sandbox_start) =
      (Inr v1, tr1, retry_402, w1)
    \<and> client_purchaseBundle (sb_client (sandbox_sample (Some ''k''))) (JStr ''7'') [''AAAA'', ''BBBB''] (retry_402, w1) = (Inr v2, tr2, retry_402, w2)
    \<and> length (issuance_record (iw_db (pw_issuer w2))) = 2"
proof -
  have start: "claimed_references (iw_db (pw_issuer sandbox_start)) = {}" "pw_drawn sandbox_start = 0"
    "iw_store (pw_issuer sandbox_start) = sample_store" "issuance_record (iw_db (pw_issuer sandbox_start)) = []"
    by (simp_all add: sandbox_start_def claimed_references_def empty_db_def)
  obtain tr1 w1 x where one: "client_purchaseBundle (sb_client (sandbox_sample (Some ''k''))) (JStr ''7'') [''AAAA'', ''BBBB''] (direct, sandbox_start) =
      (Inr (response_json sandbox_response), tr1, retry_402, w1)"
    and after: "iw_store (pw_issuer w1) = sample_store(rl_key (minted (show_nat 1)) := x)" "pw_drawn w1 = 2"
      "claimed_references (iw_db (pw_issuer w1)) \<subseteq> {minted (show_nat 1)}"
    by (rule sandbox_run [of "minted (show_nat 1)" sandbox_start direct]) (simp_all add: start sample_store_def)
  have other: "minted (show_nat 3) \<noteq> minted (show_nat 1)" by (simp add: minted_def)
  obtain tr2 w2 y where two: "client_purchaseBundle (sb_client (sandbox_sample (Some ''k''))) (JStr ''7'') [''AAAA'', ''BBBB''] (retry_402, w1) =
      (Inr (response_json sandbox_response), tr2, retry_402, w2)"
    by (rule sandbox_run [of "minted (show_nat 3)" w1 retry_402]) (use after other in \<open>auto simp: sample_store_def numeral_3_eq_3\<close>)
  have "inj (sb_uuid (sandbox_sample (Some ''k'')))" by (simp add: sandbox_sample_def inj_def)
  from proxy_retry_issues_again [OF sandbox_sample_wired sandbox_body_fits this _ one two] one two show ?thesis
    by (auto simp: start)
qed

text \<open>A purchase and a pickup of one body.\<close>

lemma sample_served:
  assumes "handle (sample_env 5000 ''u'') sample_claim_env route hs sample_body (sample_store, d) = (Returned v, s', d')"
    and "fst (route_path route) = ''POST''" and "header_value ''content-type'' hs = Some ''application/json''"
  obtains r w' where "serve plain_nest (\<lambda>_. sample_env 5000 ''u'') sample_claim_env ''POST'' (snd (route_path route)) hs
      (Some (json_stringify sample_body)) \<lparr>iw_store = sample_store, iw_db = d, iw_requests = 0\<rparr> = (r, w')" and "http_code r = 201"
proof -
  have "serve plain_nest (\<lambda>_. sample_env 5000 ''u'') sample_claim_env ''POST'' (snd (route_path route)) hs
      (Some (json_stringify sample_body)) \<lparr>iw_store = sample_store, iw_db = d, iw_requests = 0\<rparr> =
    (nest_reply plain_nest ''POST'' (Returned v), \<lparr>iw_store = s', iw_db = d', iw_requests = Suc 0\<rparr>)"
    by (rule serve_post [OF plain_nest_documented assms(2) sandbox_body_fits [unfolded bundle_body_def] assms(3),
        unfolded sandbox_body [unfolded bundle_body_def], where envs = "\<lambda>_. sample_env 5000 ''u''"
        and w = "\<lparr>iw_store = sample_store, iw_db = d, iw_requests = 0\<rparr>", unfolded issuer_world.simps, OF assms(1)])
  then show ?thesis by (rule that) (simp add: reply_created [OF plain_nest_documented] del: nest_reply.simps)
qed

theorem rails_indistinguishable_witness:
  "\<exists>r w1 w2. serve plain_nest (\<lambda>_. sample_env 5000 ''u'') sample_claim_env ''POST'' ''/v1/bundles''
       [(''content-type'', ''application/json''), (''x-payment-claim'', sample_header ''1.0'')] (Some (json_stringify sample_body))
       \<lparr>iw_store = sample_store, iw_db = empty_db, iw_requests = 0\<rparr> = (r, w1)
     \<and> serve plain_nest (\<lambda>_. sample_env 5000 ''u'') sample_claim_env ''POST'' ''/v1/entitlements/pickup''
       [(''content-type'', ''application/json''), (''x-entitlement'', sample_uuid)] (Some (json_stringify sample_body))
       \<lparr>iw_store = sample_store, iw_db = sample_subscribed, iw_requests = 0\<rparr> = (r, w2)
     \<and> http_code r = 201"
proof -
  let ?paid = "[(''content-type'', ''application/json''), (''x-payment-claim'', sample_header ''1.0'')]"
  let ?sub = "[(''content-type'', ''application/json''), (''x-entitlement'', sample_uuid)]"
  have hs: "header_value ''content-type'' ?paid = Some ''application/json''" "header_value PAYMENT_CLAIM_HEADER ?paid = Some (sample_header ''1.0'')"
    "header_value IDEMPOTENCY_KEY_HEADER ?paid = None" "header_value ''content-type'' ?sub = Some ''application/json''"
    "header_value ENTITLEMENT_HEADER ?sub = Some sample_uuid" "header_value IDEMPOTENCY_KEY_HEADER ?sub = None"
    by (simp_all add: header_value_def lower_headers_def to_lower_def PAYMENT_CLAIM_HEADER_def IDEMPOTENCY_KEY_HEADER_def ENTITLEMENT_HEADER_def)
  obtain s1 d1 where "purchase (sample_env 5000 ''u'') sample_claim_env (Some (sample_header ''1.0'')) None sample_body (sample_store, empty_db) =
      (Inr sample_response, s1, d1)" using sample_purchase [of 5000 "''u''" empty_db] by auto
  then have "handle (sample_env 5000 ''u'') sample_claim_env PostBundles ?paid sample_body (sample_store, empty_db) =
      (Returned (response_json sample_response), s1, d1)" by (simp add: bundles_controller_purchase_def hs)
  from sample_served [OF this _ hs(1)] obtain r1 w1 where one: "serve plain_nest (\<lambda>_. sample_env 5000 ''u'') sample_claim_env ''POST'' ''/v1/bundles''
      ?paid (Some (json_stringify sample_body)) \<lparr>iw_store = sample_store, iw_db = empty_db, iw_requests = 0\<rparr> = (r1, w1)" "http_code r1 = 201"
    by auto
  obtain s2 d2 where "pickup (sample_env 5000 ''u'') (Some sample_uuid) None sample_body (sample_store, sample_subscribed) = (Inr sample_response, s2, d2)"
    by (rule sample_pickup)
  then have "handle (sample_env 5000 ''u'') sample_claim_env PostPickup ?sub sample_body (sample_store, sample_subscribed) =
      (Returned (response_json sample_response), s2, d2)" by (simp add: entitlements_controller_pickup_def hs)
  from sample_served [OF this _ hs(4)] obtain r2 w2 where two: "serve plain_nest (\<lambda>_. sample_env 5000 ''u'') sample_claim_env ''POST''
      ''/v1/entitlements/pickup'' ?sub (Some (json_stringify sample_body)) \<lparr>iw_store = sample_store, iw_db = sample_subscribed, iw_requests = 0\<rparr>
      = (r2, w2)" "http_code r2 = 201"
    by auto
  note body = sandbox_body [unfolded bundle_body_def]
  have "r1 = r2 \<and> http_code r1 = 201"
    using rails_indistinguishable [OF plain_nest_documented sandbox_body_fits [unfolded bundle_body_def] hs(1,4) refl refl refl
          one(1) [folded body] _ _ two(1) [folded body]] one(2) two(2) by auto
  with one two show ?thesis by auto
qed

text \<open>A suite whose signature of any blank is what the sandbox pool answers.\<close>

definition sandbox_suite :: "(unit, unit) blind_suite" where
  "sandbox_suite =
     \<lparr>bs_import = (\<lambda>_. Inr ()), bs_blind = (\<lambda>_ i. Inr (''msg'', ''bld'', ())), bs_finalize = (\<lambda>_ m s _. Inr s),
      bs_verify = (\<lambda>_ sig m. Inr (sig = ''xyz'' \<and> m = ''msg'')), bs_blindSettles = [], bs_finalizeSettles = [], bs_loose = (\<lambda>_. Inl [])\<rparr>"

definition sandbox_options :: "mem_store issuer_world proxy_world purchase_options" where
  "sandbox_options =
     \<lparr>po_client = sb_client (sandbox_sample (Some ''k'')),
      po_parameters = Some \<lparr>bp_bundleSize = 2, bp_blankSizeBytes = 3, bp_signatureSizeBytes = 3\<rparr>, po_epoch = None\<rparr>"

theorem sandbox_purchase_passes_witness:
  "\<exists>result tr w'. harness_purchaseBundle sandbox_suite sandbox_options sandbox_start = (Inr result, tr, w')
     \<and> cr_passed (pr_conformance result) \<and> length (pr_credentials result) = 2 \<and> pw_settled w' = [minted (show_nat 1)]"
proof -
  let ?b = "sandbox_sample (Some ''k'')" and ?blinds = "\<lambda>i::nat. (''msg'', ''bld'', ())" and ?sigs = "\<lambda>i::nat. ''xyz''"
  have config: "bundleSize sample_config = 2" "blankSizeBytes sample_config = 3" by (simp_all add: sample_config_def)
  have env: "sb_envs ?b = sandbox_env" "rq_config (sandbox_env n) = sample_config" "rq_redis (sandbox_env n) = mem_redis"
    "rq_rt (sandbox_env n) = strict_runtime" "rq_now (sandbox_env n) = 1" "rq_signNow (sandbox_env n) = 1"
    "rq_keys (sandbox_env n) = \<lparr>ks_keyring = Some sample_keyring, ks_fingerprint = None\<rparr>"
    "rq_pool_sign (sandbox_env n) = (\<lambda>e t. Inr (bytesToBase64 ''xyz''))" for n
    by (simp_all add: sandbox_sample_def sandbox_env_def sample_env_def)
  have entry: "epoch_id sample_entry = ''7''" "pubkey sample_entry = bytesToBase64 [CHR 0x00, CHR 0x00, CHR 0x00]"
    by (simp add: sample_entry_def, simp only: sample_entry_def epoch_entry.simps, code_simp)
  have cur: "currentEpoch sample_keyring = Inr sample_entry"
    by (simp add: currentEpoch_def find_epoch_def sample_keyring_def) (simp add: sample_entry_def)
  have session: "blind_session sandbox_suite () (sandbox_env (Suc 0)) (epoch_id sample_entry) (bundleSize (rq_config (sandbox_env (Suc 0)))) 3 ?blinds ?sigs ?sigs"
    by (simp add: blind_session_def sandbox_suite_def env config)
  have "session_blanks ?blinds 2 = [''Ymxk'', ''Ymxk'']" unfolding session_blanks_def by code_simp
  moreover have "json_stringify (bundle_body ''7'' [''Ymxk'', ''Ymxk'']) = ''{\"epoch\":\"7\",\"blinded_blanks\":[\"Ymxk\",\"Ymxk\"]}''"
    by code_simp
  ultimately have fits: "length (json_stringify (bundle_body (epoch_id sample_entry) (session_blanks ?blinds (bundleSize (rq_config (sandbox_env (Suc 0))))))) \<le> 102400"
    by (simp add: env config entry del: json_stringify.simps)
  have "\<exists>result tr w'. harness_purchaseBundle sandbox_suite sandbox_options sandbox_start = (Inr result, tr, w') \<and> cr_passed (pr_conformance result)
    \<and> pr_credentials result = session_credentials ?blinds ?sigs (bundleSize (rq_config (sandbox_env (Suc 0))))
    \<and> length (filter is_paid tr) = 1 \<and> pw_settled w' = pw_settled sandbox_start @ [minted (show_nat 1)]
    \<and> length (issuance_record (iw_db (pw_issuer w'))) = Suc (length (issuance_record (iw_db (pw_issuer sandbox_start))))"
    by (rule sandbox_purchase_passes [where b = ?b and n = 0 and k = sample_keyring and e = sample_entry,
        OF sandbox_sample_wired _ _ _ _ _ sample_keyring_ok _ cur sample_document_plain entry(2) _ session _ _ _ fits])
      (use sample_usable [of 1] fresh_allow [of sample_store "minted (show_nat 1)" 1] in
        \<open>simp_all add: env config entry sandbox_options_def sandbox_start_def sample_store_def claimed_references_def empty_db_def\<close>,
       simp_all add: sandbox_sample_def sandbox_suite_def)
  then show ?thesis by (auto simp: session_credentials_def env config sandbox_start_def)
qed

definition short_options :: fake_options where
  "short_options = \<lparr>bp_bundleSize = 3, bp_blankSizeBytes = 256, bp_signatureSizeBytes = 256, wrongSizedBlobIndex = Some 1\<rparr>"

theorem wrong_size_detected_witness:
  "\<exists>response tr. client_purchaseBundle \<lparr>co_rt = strict_runtime, co_baseUrl = ''http://issuer'', co_idempotencyKey = None,
       co_payment = NoPaymentProvider, co_fetch = fake_issuer_fetch (\<lambda>i n. replicate n (CHR ''r'')) short_options ''spki''\<rparr>
     (JStr ''0'') [] (direct, ()) = (Inr response, tr, direct, ())
   \<and> map ck_name (failures (checkBundle strict_runtime response (JStr ''0'') (bundle_parameters.truncate short_options))) = [''signature size'']"
proof -
  let ?client = "\<lparr>co_rt = strict_runtime, co_baseUrl = ''http://issuer'', co_idempotencyKey = None,
    co_payment = NoPaymentProvider, co_fetch = fake_issuer_fetch (\<lambda>i n. replicate n (CHR ''r'')) short_options ''spki''\<rparr> :: unit client_options"
  have "plain_origin (base_url ?client)"
    unfolding plain_origin_def by (rule exI [of _ "''http''"], rule exI [of _ "''issuer''"]) (simp add: base_url_def)
  from wrong_size_detected [OF _ this, of "\<lambda>i n. replicate n (CHR ''r'')" short_options "''spki''"] show ?thesis
    by (simp add: short_options_def)
qed

end
