(* ===== verification/Scenarios.thy ===== *)
theory Scenarios
  imports Runtime
begin

text \<open>
  The scenario coverage tool: \<open>scripts/scenario-report.ts\<close> and the reader it is built on,
  \<open>apps/backend/src/testing/scope-scenarios.ts\<close>. Scenarios are declared in the scope document, in gherkin blocks under
  the heading of a milestone, and implemented by calls of \<open>scenario(...)\<close> in the test sources; the report scores one
  against the other and fails when an enforced milestone has a scenario without a test.

  The regular expressions are written out as the functions that decide them. Files are arguments: the document's text
  and the sources with their paths.
\<close>

record scope_scenario =
  sc_milestone :: string
  sc_name :: string

definition IMPLEMENTED_MILESTONES :: "string list" where
  "IMPLEMENTED_MILESTONES =
     [''M0.1'', ''M0.2'', ''M0.4'', ''M1.1'', ''M1.2'', ''M1.3'', ''M1.4'', ''M2.1'', ''M2.2'']"

definition MANUAL_MILESTONES :: "(string \<times> string) list" where
  "MANUAL_MILESTONES =
     [(''M0.3'', ''needs the sandbox deployed behind the TOON connector; see docs/deployment.md'')]"

subsection \<open>The scope document\<close>

text \<open>What \<open>.\<close> does not match, and texts of such characters only.\<close>

definition line_terminators :: "string list" where
  "line_terminators = [[CHR 0x0A], [CHR 0x0D], [CHR 0xE2, CHR 0x80, CHR 0xA8], [CHR 0xE2, CHR 0x80, CHR 0xA9]]"

fun one_line :: "string \<Rightarrow> bool" where
  "one_line [] \<longleftrightarrow> True"
| "one_line (c # s) \<longleftrightarrow> match_prefix line_terminators (c # s) = None \<and> one_line s"

text \<open>\<open>/^\*\*(M\d+\.\d+)\s/\<close>\<close>

definition milestone_heading :: "string \<Rightarrow> string option" where
  "milestone_heading line =
     (let major = takeWhile is_digit (drop 3 line);
          dot = dropWhile is_digit (drop 3 line);
          minor = takeWhile is_digit (drop 1 dot);
          after = dropWhile is_digit (drop 1 dot)
      in if startsWith line ''**M'' \<and> major \<noteq> [] \<and> startsWith dot ''.'' \<and> minor \<noteq> [] \<and> match_prefix ws_seqs after \<noteq> None
         then Some (CHR ''M'' # major @ CHR ''.'' # minor) else None)"

text \<open>
  \<open>/^\s*Scenario:\s*(.+?)\s*$/\<close>. The name is what is left between the white space, provided it stays on one line; if there
  is nothing but white space, matching backs up and takes its last character for the name.
\<close>

definition trim_right :: "string \<Rightarrow> string" where
  "trim_right s = rev (strip_left (map rev ws_seqs) (rev s))"

function last_blank :: "string \<Rightarrow> string option" where
  "last_blank r =
     (case match_prefix (map rev ws_seqs) r of
        None \<Rightarrow> None
      | Some p \<Rightarrow> if rev p \<in> set line_terminators then last_blank (drop (length p) r) else Some (rev p))"
  by pat_completeness auto
termination by (relation "measure length") (auto dest: match_prefix_shorter)

declare last_blank.simps [simp del]

definition declared_name :: "string \<Rightarrow> string option" where
  "declared_name r =
     (let body = strip_left ws_seqs r; name = trim_right body in
      if body = [] then last_blank (rev r) else if one_line name then Some name else None)"

definition scenario_name :: "string \<Rightarrow> string option" where
  "scenario_name line =
     (let l = strip_left ws_seqs line in if startsWith l ''Scenario:'' then declared_name (drop 9 l) else None)"

definition fence :: string where "fence = ''```''"

fun scan_scope :: "string \<Rightarrow> bool \<Rightarrow> string list \<Rightarrow> scope_scenario list" where
  "scan_scope milestone inGherkin [] = []"
| "scan_scope milestone inGherkin (line # rest) =
     (let m = (case milestone_heading line of None \<Rightarrow> milestone | Some m \<Rightarrow> m) in
      if startsWith line fence then scan_scope m (startsWith line (fence @ ''gherkin'')) rest
      else if \<not> inGherkin then scan_scope m inGherkin rest
      else (case scenario_name line of
              None \<Rightarrow> scan_scope m inGherkin rest
            | Some name \<Rightarrow> \<lparr>sc_milestone = m, sc_name = name\<rparr> # scan_scope m inGherkin rest))"

definition parseScopeScenarios :: "string \<Rightarrow> scope_scenario list" where
  "parseScopeScenarios markdown = scan_scope ''unattributed'' False (split_on (CHR 0x0A) markdown)"

subsection \<open>The tests\<close>

text \<open>\<open>\w\<close>, and \<open>scenario\(\s*(['"`])(.+?)\1\<close> at the start of a text: the name and what follows the match.\<close>

definition is_word :: "char \<Rightarrow> bool" where
  "is_word c \<longleftrightarrow> is_digit c \<or> c = CHR ''_'' \<or> (65 \<le> (of_char c :: nat) \<and> (of_char c :: nat) \<le> 90)
     \<or> (97 \<le> (of_char c :: nat) \<and> (of_char c :: nat) \<le> 122)"

definition quotes :: string where "quotes = [CHR 0x27, CHR 0x22, CHR 0x60]"

definition scenario_call :: "string \<Rightarrow> (string \<times> string) option" where
  "scenario_call s =
     (if startsWith s ''scenario('' then
        (case strip_left ws_seqs (drop 9 s) of
           q # c # t \<Rightarrow>
             let name = c # takeWhile (\<lambda>x. x \<noteq> q) t; after = dropWhile (\<lambda>x. x \<noteq> q) t
             in if q \<in> set quotes \<and> after \<noteq> [] \<and> one_line name then Some (name, drop 1 after) else None
         | _ \<Rightarrow> None)
      else None)"

lemma strip_left_length: "length (strip_left ps s) \<le> length s"
proof (induction ps s rule: strip_left.induct)
  case (1 ps s)
  show ?case
  proof (cases "match_prefix ps s")
    case None
    then show ?thesis by (simp add: strip_left_id)
  next
    case (Some p)
    then show ?thesis using 1 [OF Some] by (subst strip_left.simps) simp
  qed
qed

lemma scenario_call_shorter:
  assumes "scenario_call s = Some (name, rest)"
  shows "length rest < length s"
proof -
  obtain q c t where strip: "strip_left ws_seqs (drop 9 s) = q # c # t" and rest: "rest = drop 1 (dropWhile (\<lambda>x. x \<noteq> q) t)"
    using assms by (auto simp: scenario_call_def Let_def split: if_splits list.splits)
  have "length (q # c # t) \<le> length (drop 9 s)" using strip_left_length [of ws_seqs "drop 9 s"] strip by simp
  moreover have "length rest \<le> length t" using length_dropWhile_le [of "\<lambda>x. x \<noteq> q" t] by (simp add: rest)
  ultimately show ?thesis by simp
qed

text \<open>\<open>source.matchAll(/\bscenario\(.../g)\<close>: every match, from left to right; the first argument is whether the character
  before is a word character.\<close>

function scan_calls :: "bool \<Rightarrow> string \<Rightarrow> string list" where
  "scan_calls inWord [] = []"
| "scan_calls inWord (c # s) =
     (case (if inWord then None else scenario_call (c # s)) of
        Some (name, rest) \<Rightarrow> name # scan_calls False rest
      | None \<Rightarrow> scan_calls (is_word c) s)"
  by pat_completeness auto
termination by (relation "measure (length \<circ> snd)") (auto split: if_splits dest!: scenario_call_shorter)

definition spec_file :: "string \<Rightarrow> bool" where
  "spec_file path \<longleftrightarrow> endsWith path ''.spec.ts'' \<and> \<not> endsWith path ''scenario-coverage.spec.ts''"

definition readImplementedScenarioNames :: "(string \<times> string) list \<Rightarrow> string set" where
  "readImplementedScenarioNames sources =
     set (concat (map (\<lambda>(path, source). scan_calls False source) (filter (\<lambda>(path, source). spec_file path) sources)))"

subsection \<open>The report\<close>

definition manual_reason :: "string \<Rightarrow> string option" where
  "manual_reason milestone =
     (case map_of MANUAL_MILESTONES milestone of None \<Rightarrow> None | Some r \<Rightarrow> if r = [] then None else Some r)"

text \<open>\<open>[...new Set(xs)]\<close>\<close>

definition first_occurrences :: "'a list \<Rightarrow> 'a list" where
  "first_occurrences xs = rev (remdups (rev xs))"

record tally =
  ta_out :: "console list"
  ta_covered :: nat
  ta_automatable :: nat
  ta_manual :: nat

definition count_scenario :: "string set \<Rightarrow> bool \<Rightarrow> scope_scenario \<Rightarrow> tally \<Rightarrow> tally" where
  "count_scenario implemented by_hand s t =
     (if by_hand then t\<lparr>ta_out := ta_out t @ [Log (''  [-] '' @ sc_name s)], ta_manual := ta_manual t + 1\<rparr>
      else let hit = sc_name s \<in> implemented in
           t\<lparr>ta_out := ta_out t @ [Log (''  ['' @ (if hit then ''x'' else '' '') @ ''] '' @ sc_name s)],
             ta_automatable := ta_automatable t + 1, ta_covered := ta_covered t + (if hit then 1 else 0)\<rparr>)"

definition milestone_label :: "string \<Rightarrow> string" where
  "milestone_label milestone =
     (case manual_reason milestone of
        Some reason \<Rightarrow> ''  (manual: '' @ reason @ '')''
      | None \<Rightarrow> if milestone \<in> set IMPLEMENTED_MILESTONES then ''  (enforced in CI)'' else [])"

definition count_milestone :: "scope_scenario list \<Rightarrow> string set \<Rightarrow> string \<Rightarrow> tally \<Rightarrow> tally" where
  "count_milestone scope implemented milestone t =
     fold (count_scenario implemented (manual_reason milestone \<noteq> None)) (filter (\<lambda>s. sc_milestone s = milestone) scope)
       (t\<lparr>ta_out := ta_out t @ [Log (CHR 0x0A # milestone @ milestone_label milestone)]\<rparr>)"

definition scenario_gaps :: "scope_scenario list \<Rightarrow> string set \<Rightarrow> scope_scenario list" where
  "scenario_gaps scope implemented =
     filter (\<lambda>s. sc_milestone s \<in> set IMPLEMENTED_MILESTONES \<and> sc_name s \<notin> implemented) scope"

text \<open>What the report prints, and the exit code.\<close>

definition tally_of :: "scope_scenario list \<Rightarrow> string set \<Rightarrow> tally" where
  "tally_of scope implemented =
     fold (count_milestone scope implemented) (first_occurrences (map sc_milestone scope))
       \<lparr>ta_out = [], ta_covered = 0, ta_automatable = 0, ta_manual = 0\<rparr>"

definition scenario_report :: "string \<Rightarrow> (string \<times> string) list \<Rightarrow> console list \<times> nat" where
  "scenario_report markdown sources =
     (let scope = parseScopeScenarios markdown; implemented = readImplementedScenarioNames sources;
          t = tally_of scope implemented; gaps = scenario_gaps scope implemented;
          summary = Log (CHR 0x0A # show_nat (ta_covered t) @ CHR ''/'' # show_nat (ta_automatable t)
                    @ '' automatable scope scenarios covered by tests''
                    @ (if 0 < ta_manual t then '', '' @ show_nat (ta_manual t) @ '' verified by hand.'' else ''.''))
      in if gaps \<noteq> []
         then (ta_out t @ [summary, ErrorLog (CHR 0x0A # ''Enforced milestones with uncovered scenarios: '' @ show_nat (length gaps))], 1)
         else (ta_out t @ [summary], 0))"

subsection \<open>What the report says\<close>

lemma first_occurrences_simps [simp]:
  "set (first_occurrences xs) = set xs" "distinct (first_occurrences xs)"
  by (simp_all add: first_occurrences_def)

lemma fold_count_scenario [simp]:
  "ta_covered (fold (count_scenario implemented by_hand) ss t) =
     ta_covered t + (if by_hand then 0 else length (filter (\<lambda>s. sc_name s \<in> implemented) ss))"
  "ta_automatable (fold (count_scenario implemented by_hand) ss t) = ta_automatable t + (if by_hand then 0 else length ss)"
  "ta_manual (fold (count_scenario implemented by_hand) ss t) = ta_manual t + (if by_hand then length ss else 0)"
  by (induction ss arbitrary: t) (auto simp: count_scenario_def Let_def)

text \<open>Milestone by milestone or all at once: every scenario is counted once.\<close>

lemma filter_by_key:
  assumes "distinct ks"
  shows "(\<Sum>k \<leftarrow> ks. length (filter (\<lambda>x. f x = k \<and> P k x) xs)) = length (filter (\<lambda>x. f x \<in> set ks \<and> P (f x) x) xs)"
proof (induction xs)
  case (Cons x xs)
  have "(\<Sum>k \<leftarrow> ks. (if f x = k \<and> P k x then 1 else 0 :: nat)) = (if f x \<in> set ks \<and> P (f x) x then 1 else 0)"
    using assms by (induction ks) auto
  moreover have "(\<Sum>k \<leftarrow> ks. length (filter (\<lambda>x. f x = k \<and> P k x) (x # xs))) =
      (\<Sum>k \<leftarrow> ks. (if f x = k \<and> P k x then 1 else 0) + length (filter (\<lambda>x. f x = k \<and> P k x) xs))"
    by (intro arg_cong [of _ _ sum_list] map_cong) auto
  ultimately show ?case using Cons by (simp add: sum_list_addf)
qed simp

definition automatable :: "scope_scenario \<Rightarrow> bool" where
  "automatable s \<longleftrightarrow> manual_reason (sc_milestone s) = None"

lemma count_milestone_counts:
  fixes t :: tally and m :: string and scope :: "scope_scenario list"
  defines "mine \<equiv> \<lambda>P. length (filter (\<lambda>s. sc_milestone s = m \<and> P s) scope)"
  shows "ta_covered (count_milestone scope implemented m t) = ta_covered t + mine (\<lambda>s. manual_reason m = None \<and> sc_name s \<in> implemented)"
    and "ta_automatable (count_milestone scope implemented m t) = ta_automatable t + mine (\<lambda>s. manual_reason m = None)"
    and "ta_manual (count_milestone scope implemented m t) = ta_manual t + mine (\<lambda>s. manual_reason m \<noteq> None)"
  by (auto simp: count_milestone_def mine_def conj_commute)

lemma fold_count_milestones:
  "ta_covered (fold (count_milestone scope implemented) ms t) = ta_covered t
     + (\<Sum>m \<leftarrow> ms. length (filter (\<lambda>s. sc_milestone s = m \<and> manual_reason m = None \<and> sc_name s \<in> implemented) scope))"
  "ta_automatable (fold (count_milestone scope implemented) ms t) = ta_automatable t
     + (\<Sum>m \<leftarrow> ms. length (filter (\<lambda>s. sc_milestone s = m \<and> manual_reason m = None) scope))"
  "ta_manual (fold (count_milestone scope implemented) ms t) = ta_manual t
     + (\<Sum>m \<leftarrow> ms. length (filter (\<lambda>s. sc_milestone s = m \<and> manual_reason m \<noteq> None) scope))"
  by (induction ms arbitrary: t) (simp_all add: count_milestone_counts)

lemma tally_counts:
  "ta_covered (tally_of scope implemented) = length (filter (\<lambda>s. automatable s \<and> sc_name s \<in> implemented) scope)"
  "ta_automatable (tally_of scope implemented) = length (filter automatable scope)"
  "ta_manual (tally_of scope implemented) = length (filter (\<lambda>s. \<not> automatable s) scope)"
proof -
  let ?ms = "first_occurrences (map sc_milestone scope)"
  note count = filter_by_key [of ?ms sc_milestone _ scope, OF first_occurrences_simps(2)]
  have inside: "filter (\<lambda>s. sc_milestone s \<in> set ?ms \<and> P s) scope = filter P scope" for P
    by (rule filter_cong) auto
  show "ta_covered (tally_of scope implemented) = length (filter (\<lambda>s. automatable s \<and> sc_name s \<in> implemented) scope)"
    using count [of "\<lambda>m s. manual_reason m = None \<and> sc_name s \<in> implemented"]
    unfolding inside by (simp add: tally_of_def fold_count_milestones automatable_def [abs_def])
  show "ta_automatable (tally_of scope implemented) = length (filter automatable scope)"
    using count [of "\<lambda>m s. manual_reason m = None"] unfolding inside
    by (simp add: tally_of_def fold_count_milestones automatable_def [abs_def])
  show "ta_manual (tally_of scope implemented) = length (filter (\<lambda>s. \<not> automatable s) scope)"
    using count [of "\<lambda>m s. manual_reason m \<noteq> None"] unfolding inside
    by (simp add: tally_of_def fold_count_milestones automatable_def [abs_def])
qed

text \<open>No milestone is excused as manual and enforced, so an enforced scenario without a test is always shown as open.\<close>

lemma enforced_automatable: "sc_milestone s \<in> set IMPLEMENTED_MILESTONES \<Longrightarrow> automatable s"
  by (auto simp: automatable_def manual_reason_def MANUAL_MILESTONES_def IMPLEMENTED_MILESTONES_def)

text \<open>The tool succeeds exactly when every enforced scenario has a test; then its counts leave no enforced one open.\<close>

lemma report_exit_code:
  "snd (scenario_report markdown sources) = 0 \<longleftrightarrow>
     (\<forall>s \<in> set (parseScopeScenarios markdown). sc_milestone s \<in> set IMPLEMENTED_MILESTONES
        \<longrightarrow> sc_name s \<in> readImplementedScenarioNames sources)"
  by (auto simp: scenario_report_def Let_def scenario_gaps_def filter_empty_conv)

lemma gaps_uncovered:
  "length (scenario_gaps scope implemented) \<le> ta_automatable (tally_of scope implemented) - ta_covered (tally_of scope implemented)"
proof -
  have "length (filter automatable scope) = length (filter (\<lambda>s. automatable s \<and> sc_name s \<in> implemented) scope)
      + length (filter (\<lambda>s. automatable s \<and> sc_name s \<notin> implemented) scope)"
    by (induction scope) auto
  moreover have "length (scenario_gaps scope implemented) \<le> length (filter (\<lambda>s. automatable s \<and> sc_name s \<notin> implemented) scope)"
    unfolding scenario_gaps_def using enforced_automatable by (induction scope) auto
  ultimately show ?thesis by (simp add: tally_counts)
qed

subsection \<open>A document reads back\<close>

text \<open>A section of the scope document: heading, gherkin block, its scenarios.\<close>

definition section_lines :: "string \<times> string \<times> string list \<Rightarrow> string list" where
  "section_lines sec = (case sec of (milestone, title, names) \<Rightarrow>
     [''**'' @ milestone @ CHR '' '' # title, fence @ ''gherkin''] @ map (\<lambda>n. ''Scenario: '' @ n) names @ [fence])"

definition plain_name :: "string \<Rightarrow> bool" where
  "plain_name n \<longleftrightarrow> n \<noteq> [] \<and> solid (hd n) \<and> solid (last n) \<and> one_line n"

definition milestone_text :: "string \<Rightarrow> bool" where
  "milestone_text m \<longleftrightarrow> (\<exists>a b. m = CHR ''M'' # a @ CHR ''.'' # b \<and> a \<noteq> [] \<and> b \<noteq> [] \<and> list_all is_digit a \<and> list_all is_digit b)"

definition plain_section :: "string \<times> string \<times> string list \<Rightarrow> bool" where
  "plain_section sec \<longleftrightarrow> (case sec of (milestone, title, names) \<Rightarrow>
     milestone_text milestone \<and> CHR 0x0A \<notin> set title \<and> list_all plain_name names)"

lemma one_line_newline: "one_line s \<Longrightarrow> CHR 0x0A \<notin> set s"
  by (induction s) (auto simp: match_prefix_def find_None_iff line_terminators_def startsWith_def)

lemma scenario_name_written:
  assumes "plain_name n"
  shows "scenario_name (''Scenario: '' @ n) = Some n"
proof -
  obtain a t where n: "n = a # t" "solid a" using assms by (cases n) (auto simp: plain_name_def)
  obtain u z where n': "n = u @ [z]" "solid z" using assms by (cases n rule: rev_cases) (auto simp: plain_name_def)
  have "match_prefix ws_seqs (CHR '' '' # n) = Some [CHR '' '']"
    by (simp add: match_prefix_def ws_seqs_def startsWith_def)
  then have "strip_left ws_seqs (CHR '' '' # n) = n"
    by (subst strip_left.simps) (simp add: n strip_left_id match_prefix_solid)
  moreover have "trim_right n = n" by (simp add: trim_right_def n' strip_left_id match_prefix_solid)
  moreover have "strip_left ws_seqs (''Scenario: '' @ n) = ''Scenario: '' @ n"
    by (simp add: strip_left_id match_prefix_solid solid_def)
  ultimately show ?thesis
    using assms n by (simp add: scenario_name_def declared_name_def startsWith_def plain_name_def)
qed

lemma digits_split:
  assumes "list_all is_digit a" and "\<not> is_digit c"
  shows "takeWhile is_digit (a @ c # s) = a" and "dropWhile is_digit (a @ c # s) = c # s"
  using assms by (induction a) auto

lemma milestone_heading_written:
  assumes "milestone_text m"
  shows "milestone_heading (''**'' @ m @ CHR '' '' # title) = Some m"
proof -
  obtain a b where m: "m = CHR ''M'' # a @ CHR ''.'' # b" and ab: "a \<noteq> []" "b \<noteq> []" "list_all is_digit a" "list_all is_digit b"
    using assms by (auto simp: milestone_text_def)
  have "\<not> is_digit (CHR ''.'')" "\<not> is_digit (CHR '' '')" by (simp_all add: is_digit_def)
  note scan = digits_split [OF ab(3) this(1)] digits_split [OF ab(4) this(2)]
  have "match_prefix ws_seqs (CHR '' '' # title) = Some [CHR '' '']"
    by (simp add: match_prefix_def ws_seqs_def startsWith_def)
  then show ?thesis using ab by (simp add: milestone_heading_def m scan startsWith_def)
qed

lemma not_heading: "\<not> startsWith line ''**M'' \<Longrightarrow> milestone_heading line = None"
  by (simp add: milestone_heading_def Let_def)

lemma scan_names:
  assumes "list_all plain_name names"
  shows "scan_scope m True (map (\<lambda>n. ''Scenario: '' @ n) names @ fence # rest) =
    map (\<lambda>n. \<lparr>sc_milestone = m, sc_name = n\<rparr>) names @ scan_scope m False rest"
  using assms
proof (induction names)
  case Nil
  then show ?case by (simp add: not_heading fence_def startsWith_def)
next
  case (Cons n names)
  then have "scenario_name (''Scenario: '' @ n) = Some n" using scenario_name_written [of n] by simp
  moreover have "milestone_heading (''Scenario: '' @ n) = None" by (simp add: not_heading startsWith_def)
  moreover have "\<not> startsWith (''Scenario: '' @ n) fence" by (simp add: startsWith_def fence_def)
  ultimately show ?case using Cons by simp
qed

lemma scan_section:
  assumes "plain_section (m, title, names)"
  shows "scan_scope m0 g (section_lines (m, title, names) @ rest) =
    map (\<lambda>n. \<lparr>sc_milestone = m, sc_name = n\<rparr>) names @ scan_scope m False rest"
proof -
  let ?h = "''**'' @ m @ CHR '' '' # title"
  have "milestone_heading ?h = Some m" using assms milestone_heading_written [of m title] by (simp add: plain_section_def)
  moreover have "\<not> startsWith ?h fence" by (simp add: startsWith_def fence_def)
  moreover have "scenario_name ?h = None"
    by (simp add: scenario_name_def strip_left_id match_prefix_solid solid_def startsWith_def)
  moreover have "milestone_heading (fence @ ''gherkin'') = None" by (simp add: not_heading fence_def startsWith_def)
  moreover have "scan_scope m True (map (\<lambda>n. ''Scenario: '' @ n) names @ fence # rest) =
      map (\<lambda>n. \<lparr>sc_milestone = m, sc_name = n\<rparr>) names @ scan_scope m False rest"
    using assms by (intro scan_names) (simp add: plain_section_def)
  ultimately show ?thesis by (simp add: section_lines_def) (simp add: fence_def startsWith_def)
qed

lemma section_newlines:
  assumes "plain_section sec"
  shows "\<forall>l \<in> set (section_lines sec). CHR 0x0A \<notin> set l"
proof -
  have "is_digit c \<Longrightarrow> c \<noteq> CHR 0x0A" for c by (auto simp: is_digit_def)
  then show ?thesis
    using assms
    by (fastforce simp: section_lines_def plain_section_def milestone_text_def fence_def list_all_iff plain_name_def
        dest: one_line_newline split: prod.splits)
qed

lemma scope_reads_back [codec_simps]:
  assumes "secs \<noteq> []" and "list_all plain_section secs"
  shows "parseScopeScenarios (joined_with [CHR 0x0A] (concat (map section_lines secs))) =
    concat (map (\<lambda>(m, title, names). map (\<lambda>n. \<lparr>sc_milestone = m, sc_name = n\<rparr>) names) secs)"
proof -
  have "scan_scope m g (concat (map section_lines secs)) =
      concat (map (\<lambda>(m, title, names). map (\<lambda>n. \<lparr>sc_milestone = m, sc_name = n\<rparr>) names) secs)" for m g
    using assms(2) by (induction secs arbitrary: m g) (auto simp: scan_section)
  moreover have "concat (map section_lines secs) \<noteq> []"
    using assms(1) by (cases secs) (auto simp: section_lines_def split: prod.splits)
  moreover have "\<forall>l \<in> set (concat (map section_lines secs)). CHR 0x0A \<notin> set l"
    using assms(2) section_newlines by (simp add: list_all_iff) blast
  ultimately show ?thesis unfolding parseScopeScenarios_def by (subst split_joined) assumption+
qed

end
