(* ===== verification/Spec2Isabelle.thy ===== *)
theory Spec2Isabelle
  imports PropertiesWire PropertiesIssuer PropertiesService PropertiesRotation PropertiesPool PropertiesSystem PropertiesHarness
    PropertiesSandbox Scenarios
begin

text \<open>
  A verification development of the credentials issuer: the issuer service (\<open>apps/backend/src\<close>), the buyer harness that
  buys from it and judges it (\<open>packages/buyer-harness/src\<close>) and the operators' tools (\<open>scripts\<close>).

  \<^bold>\<open>The program.\<close> The issuer sells bundles of blind signatures. A buyer blinds \<open>bundleSize\<close> blanks, pays a fronting proxy
  and posts the blanks; the proxy forwards the request with a signed payment claim. The issuer admits the claim, checks
  the caller's rate, validates the blanks, checks that the epoch is signable, has a pool of workers sign every blank and
  records the issuance in one transaction (ledger row, epoch counters, idempotency key). A subscriber instead presents
  an entitlement, and the same path issues one bundle per drip interval. A reconciliation job compares counters and
  ledger. Epoch keys come from a keyring file that a rotation tool writes and the issuer polls; every published key is
  signed by a root key the issuer does not hold. A purchase of the harness reads the key document, blinds, asks,
  pays when it is answered 402, asks again, unblinds and judges what it got.

  \<^bold>\<open>Theories and sources.\<close> Each theory names its files in its own header; definitions keep the names of the code.
    \<^item> Language: \<open>Prelude\<close> (types, collections, lists), \<open>Runtime\<close> (what JavaScript leaves to an implementation, the
      parameter \<open>rt\<close>), \<open>JsValue\<close>, \<open>Utf8\<close>, \<open>Json\<close>, \<open>JsonPretty\<close>, \<open>IsoDate\<close>, \<open>Http\<close> (\<open>fetch\<close>, headers),
      \<open>ParseArgs\<close> (\<open>parseArgs\<close> of \<open>node:util\<close>).
    \<^item> Edges of the issuer: \<open>Base64\<close> (\<open>errors/base64.ts\<close>, \<open>keys/bytes.ts\<close>), \<open>Errors\<close>, \<open>Config\<close>, \<open>BundleRequest\<close>, \<open>Decimal\<close>.
    \<^item> State: \<open>Database\<close> (the six tables as lists of records), \<open>Schema\<close> (entities, migrations, connection), \<open>Tables\<close> (the keys
      hold on the rows), \<open>Accounting\<close> (\<open>accounting/\<close>), \<open>Scheduler\<close> (its job), \<open>RateLimiter\<close> (over Redis).
    \<^item> Services: \<open>Issuance\<close>, \<open>Claims\<close> (the paid rail), \<open>Entitlements\<close> (the fiat rail), \<open>Keyring\<close> and \<open>KeysService\<close>
      (\<open>keys/\<close>, health), \<open>Signing\<close>, \<open>Polyfill\<close>, \<open>SignerPool\<close> and \<open>Workers\<close> (\<open>signing/\<close>; the last is pool
      and worker threads as one system), \<open>Server\<close> (the controllers).
    \<^item> The whole issuer: \<open>System\<close>, an inductive step relation over requests in flight, and \<open>serve\<close> of \<open>Server\<close>, a fold over
      complete requests; \<open>handlers_are_system_runs\<close> says that the second is a run of the first.
    \<^item> Buyer: \<open>HarnessClaim\<close>, \<open>HarnessClient\<close>, \<open>Conformance\<close> (checks, blinding, one purchase), \<open>HarnessCli\<close> (\<open>cli.ts\<close>), and the
      test doubles \<open>FakeProxy\<close> and \<open>FakeIssuer\<close>; \<open>EndToEnd\<close> joins buyer, proxy and issuer.
    \<^item> Tools: \<open>Rotation\<close>, \<open>RotationFiles\<close> (\<open>rotate-epoch.ts\<close>, \<open>generate-dev-keys.ts\<close>), \<open>Vault\<close> (\<open>vault-kv.ts\<close>),
      \<open>ToolsCli\<close> (the command lines of these and \<open>fake-proxy.ts\<close>), \<open>TestVectors\<close> (\<open>generate-test-vectors.ts\<close>),
      \<open>Scenarios\<close> (\<open>scenario-report.ts\<close>, \<open>testing/scope-scenarios.ts\<close>).
    \<^item> Properties: \<open>PropertiesWire\<close>, \<open>PropertiesIssuer\<close>, \<open>PropertiesService\<close>, \<open>PropertiesSystem\<close>, \<open>PropertiesPool\<close>,
      \<open>PropertiesRotation\<close>, \<open>PropertiesHarness\<close>, \<open>PropertiesSandbox\<close>, with the deployment of \<open>Samples\<close> for their witnesses.

  \<^bold>\<open>State and operations.\<close> A method that reads or writes the database takes a \<open>db\<close> and returns one; a transaction that throws
  returns the one it got (\<open>transaction\<close>). What a request finds outside (configuration, keyring, clocks, fresh UUID, Redis,
  signer) is the record \<open>request_env\<close>; clocks that the code reads at different moments are different fields. Exceptions
  are \<open>Inl\<close> of \<open>failure\<close>, promises that reject too. Programs over the network are functions over a state \<open>'w\<close> with
  \<open>'w fetch\<close> as an argument, and return the trace of what they sent and paid. The signer pool is a state machine: one
  event handler per callback of the code, each returning the new pool and the actions (messages posted, promises
  settled) in order.

  \<^bold>\<open>Interfaces.\<close> The locales are the contracts between components: \<open>codec\<close> and \<open>codec_chain\<close> (round trips; interpreted for
  base64, base64url, UTF-8, both JSON printers and their compositions), \<open>blank_signer\<close> (what issuance relies on in whoever
  signs; interpreted for signing inline and for a worker's reply), \<open>keyed_table\<close> (\<open>ON CONFLICT\<close>; interpreted for \<open>upsert\<close>),
  \<open>sorted_set_store\<close> (Redis; interpreted for a store in memory) and \<open>issuance_grant\<close> (what issuance asks of a rail;
  interpreted for the paid, the fiat and the proxied rail) and \<open>flag_table\<close> (a tool's flags and their parser; interpreted
  for the tables of the harness, the rotation tool and the fake proxy). The collections \<open>codec_simps\<close>, \<open>table_simps\<close> and \<open>step_invs\<close>
  carry the round trips, the frame of every statement and the invariant of every pool operation.

  \<^bold>\<open>What is shown.\<close> Admission: a bundle is paid for at the exact price by a signed claim, refusals are counted once and do not
  reveal the price. Issuance: atomic, exactly the blanks asked for, under an epoch usable at that moment, once per
  idempotency key, with replays byte for byte. Fiat rail: one drip per interval on the database clock, idempotent
  registration. The system: under every interleaving the books balance, no key is recorded twice, drips keep their rate,
  rows satisfy the schema. Keys: the keyring in use is the last acceptable one, rotations are accepted by the issuer, keep
  the grace window, are never seen half written, and lose no concurrent write in Vault. Pool: workers and calls are
  partitioned, calls are settled exactly once, timers settle all of them in any order, and
  a signature is the one inline signing would have given; a reloaded keyring reaches it only when its private keys are
  PEMs (\<open>reload_tick\<close> of \<open>Workers\<close> is the reload with the signer listening). Signing: a raw signature left
  the primitive only after verification. Harness: it passes exactly what conforms, a run that exits with 0 holds verified
  credentials, and a purchase through the proxy at the issuer passes. Wire: exact acceptance of base64, request bodies,
  keyrings and prices. Tools: flags read back as written, the scenario report counts every scenario once, fails
  exactly when an enforced one has no test, and reads the scope document back.

  \<^bold>\<open>Parameters and hypotheses.\<close> Code outside the repository is an argument, with its documented behaviour as a named
  hypothesis: \<open>runtime\<close> (error texts, parsing outside the documented formats), \<open>ed25519\<close> (\<open>ed25519_correct\<close>), OpenSSL and
  \<open>@cloudflare/blindrsa-ts\<close> (\<open>openssl\<close>, \<open>blindrsa\<close>, \<open>blind_suite\<close>; \<open>blind_session\<close> is the correctness RFC 9474 gives),
  SHA-256 (injective on the inputs compared), Redis (\<open>sorted_set_store\<close>), Vault's KV version 2 (\<open>kv2\<close>), Nest
  (\<open>nest_documented\<close>), BullMQ (an upsert replaces the schedule of its id), the file system (a rename is one step).

  \<^bold>\<open>Bounds.\<close> No fuel is used: every function of the model is total by structural recursion or a proved measure, and the JSON
  parser recurses on the remaining text. Numbers are integers up to \<open>max_safe\<close> (\<open>2 ^ 53 - 1\<close>) where the code parses them;
  dates are limited as \<open>Date\<close> limits them (\<open>maxTime\<close>); \<open>Decimal\<close> keeps the 18 digits the code keeps; a request body
  reaches a handler up to the parser's 102400 bytes.

  \<^bold>\<open>Not modelled.\<close> Nest's dependency injection, module files, listening and the queue's connection; of \<open>keys/epoch-key.ts\<close> the two public key
  functions, which nothing calls; what a runtime does with a promise that rejects and has no handler; rotation periods that
  are not whole numbers; the range of
  PostgreSQL's integer columns and its errors other than a violated key; the trimming a server does to header values; file modes;
  the helpers that start the application for the test suite (\<open>testing/issuer-harness.ts\<close>, \<open>testing/scenario.ts\<close>); reading
  directories.
\<close>

end
